theory Spec2Isabelle
  imports Complex_Main
begin

section \<open>Keithley 2400 voltage sweeps: the two scripts as state transformers\<close>

text \<open>
  The repository holds two Python scripts, \<^verbatim>\<open>KeithleyIVSweep_Mobile_V1.1.py\<close> (one
  instrument) and \<^verbatim>\<open>KeithleyPVSweep_Mobile_V1.py\<close> (two instruments). Each defines
  \<^verbatim>\<open>initialize_Keithley\<close> and \<^verbatim>\<open>Keithley_VOLTAGE_SWEEP\<close> and runs them at
  module level.

  Conventions of the embedding:
  \<^item> A Python number is the real it denotes. The parameters of a sweep are doubles (an
    int of the scripts, such as \<^verbatim>\<open>Vmin = -2\<close>, is the same number and enters the
    arithmetic as a double); a float literal \<^verbatim>\<open>0.1\<close> is the double nearest to it,
    \<open>rnd (1 / 10)\<close>. The arithmetic that decides how a sweep runs (the point count of
    line 54 and the set-point of line 68, 77 in the dual script) is IEEE double
    arithmetic: each operation is rounded to the nearest double, ties to even. A
    quotient that leaves the double range makes \<^verbatim>\<open>int()\<close> raise \<open>OverflowError\<close>.
    Set-points are taken to stay inside the double range, and the products and the
    stopwatch difference that are only recorded are kept exact.
  \<^item> An f-string is a list of fragments: literal text and interpolated numbers, each
    number tagged with the format the source asks for. Rendering digits is Python's
    business: \<open>render\<close> turns a list of fragments into the characters sent, for any
    way \<open>fmt\<close> of printing a number (Python prints the int 0 as \<^verbatim>\<open>0\<close> and the float
    as \<^verbatim>\<open>0.0\<close>, and the model does not tell them apart). What is said below of a
    command that was not sent is said of its characters, for every \<open>fmt\<close>, not of the
    shape of its fragments: \<^verbatim>\<open>f':SOUR:VOLT {read_bias}'\<close> with a bias of 0 may be the
    very characters of the literal \<^verbatim>\<open>:SOUR:VOLT 0\<close>.
  \<^item> Everything the scripts do to the outside (instrument bus, console, clock, file
    system, plot window) is an event appended to a trace, or an update of the file
    map. What the outside answers is read from an environment \<open>env\<close>: the outcome of
    an instrument operation may depend on everything that happened before it.
  \<^item> A raised exception is the result \<open>Raise e s\<close>, where \<open>s\<close> is the state at the raise.
\<close>

subsection \<open>Values, events, environment, state\<close>

datatype error =
  VisaIOError string      \<comment> \<open>raised by pyvisa, with its message\<close>
  | IndexError
  | ZeroDivisionError
  | OverflowError
  | OSError string
  | EOFError

datatype frag =
  Lit string      \<comment> \<open>literal text\<close>
  | Str real      \<comment> \<open>\<^verbatim>\<open>{x}\<close>\<close>
  | F2 real       \<comment> \<open>\<^verbatim>\<open>{x:.2f}\<close>\<close>
  | F6 real       \<comment> \<open>\<^verbatim>\<open>{x:.6f}\<close>\<close>
  | E6 real       \<comment> \<open>\<^verbatim>\<open>{x:.6e}\<close>\<close>
  | Tup "string list"  \<comment> \<open>a tuple of strings, as \<^verbatim>\<open>print\<close> shows it\<close>

type_synonym fstring = "frag list"

fun render :: "(frag \<Rightarrow> string) \<Rightarrow> fstring \<Rightarrow> string" where
  "render fmt [] = []"
| "render fmt (Lit s # rest) = s @ render fmt rest"
| "render fmt (x # rest) = fmt x @ render fmt rest"

type_synonym handle = string  \<comment> \<open>an opened instrument, named by its resource address\<close>

datatype event =
  ListResources
  | OpenResource string
  | Write handle fstring           \<comment> \<open>\<^verbatim>\<open>instr.write(cmd)\<close>\<close>
  | Query handle fstring           \<comment> \<open>\<^verbatim>\<open>instr.query(cmd)\<close>, \<^verbatim>\<open>instr.query_ascii_values(cmd)\<close>\<close>
  | Close handle
  | Sleep real
  | Print fstring
  | Input fstring
  | Plot "real list" "real list"

text \<open>
  The environment. An instrument operation is answered from the events so far, the
  instrument and the command: \<open>Inl msg\<close> (for a write, \<open>Some msg\<close>) is a failure of
  the bus with that message.
\<close>

record env =
  rm_result :: "string option"
  list_resources_result :: "string list"
  open_result :: "string \<Rightarrow> string option"
  write_result :: "event list \<Rightarrow> handle \<Rightarrow> fstring \<Rightarrow> string option"
  query_result :: "event list \<Rightarrow> handle \<Rightarrow> fstring \<Rightarrow> string + string"
  ascii_result :: "event list \<Rightarrow> handle \<Rightarrow> fstring \<Rightarrow> string + real list"
  clock :: "nat \<Rightarrow> real"   \<comment> \<open>the n-th reading of \<^verbatim>\<open>time.time()\<close>\<close>
  input_result :: "event list \<Rightarrow> string option"   \<comment> \<open>\<open>None\<close>: end of input\<close>
  path_join :: "string \<Rightarrow> string \<Rightarrow> string"   \<comment> \<open>\<^verbatim>\<open>os.path.join\<close>\<close>
  open_file_result :: "string \<Rightarrow> string option"

record world =
  trace :: "event list"
  ticks :: nat                       \<comment> \<open>readings of the clock taken so far\<close>
  files :: "string \<Rightarrow> fstring option"

datatype ('a, 's) result = Ok 'a 's | Raise error 's

fun then_do :: "('a, 's) result \<Rightarrow> ('a \<Rightarrow> 's \<Rightarrow> ('b, 's) result) \<Rightarrow> ('b, 's) result" where
  "then_do (Ok a s) f = f a s"
| "then_do (Raise e s) f = Raise e s"

fun final :: "('a, 's) result \<Rightarrow> 's" where
  "final (Ok a s) = s"
| "final (Raise e s) = s"

fun returned :: "('a, 's) result \<Rightarrow> bool" where
  "returned (Ok a s) = True"
| "returned (Raise e s) = False"

subsection \<open>The operations of the outside world\<close>

definition emit :: "event \<Rightarrow> 'a world_scheme \<Rightarrow> 'a world_scheme" where
  "emit e s = s\<lparr>trace := trace s @ [e]\<rparr>"

definition instr_write ::
  "env \<Rightarrow> handle \<Rightarrow> fstring \<Rightarrow> 'a world_scheme \<Rightarrow> (unit, 'a world_scheme) result" where
  "instr_write E h cmd s =
     (case write_result E (trace s) h cmd of
        None \<Rightarrow> Ok () (emit (Write h cmd) s)
      | Some msg \<Rightarrow> Raise (VisaIOError msg) (emit (Write h cmd) s))"

definition instr_query ::
  "env \<Rightarrow> handle \<Rightarrow> fstring \<Rightarrow> 'a world_scheme \<Rightarrow> (string, 'a world_scheme) result" where
  "instr_query E h cmd s =
     (case query_result E (trace s) h cmd of
        Inr r \<Rightarrow> Ok r (emit (Query h cmd) s)
      | Inl msg \<Rightarrow> Raise (VisaIOError msg) (emit (Query h cmd) s))"

definition query_ascii_values ::
  "env \<Rightarrow> handle \<Rightarrow> fstring \<Rightarrow> 'a world_scheme \<Rightarrow> (real list, 'a world_scheme) result" where
  "query_ascii_values E h cmd s =
     (case ascii_result E (trace s) h cmd of
        Inr vals \<Rightarrow> Ok vals (emit (Query h cmd) s)
      | Inl msg \<Rightarrow> Raise (VisaIOError msg) (emit (Query h cmd) s))"

definition getitem :: "'v list \<Rightarrow> nat \<Rightarrow> 's \<Rightarrow> ('v, 's) result" where
  "getitem xs i s = (if i < length xs then Ok (xs ! i) s else Raise IndexError s)"

definition time_sleep :: "real \<Rightarrow> 'a world_scheme \<Rightarrow> (unit, 'a world_scheme) result" where
  "time_sleep d s = Ok () (emit (Sleep d) s)"

definition time_time :: "env \<Rightarrow> 'a world_scheme \<Rightarrow> (real, 'a world_scheme) result" where
  "time_time E s = Ok (clock E (ticks s)) (s\<lparr>ticks := Suc (ticks s)\<rparr>)"

definition print :: "fstring \<Rightarrow> 'a world_scheme \<Rightarrow> (unit, 'a world_scheme) result" where
  "print txt s = Ok () (emit (Print txt) s)"

definition input :: "env \<Rightarrow> fstring \<Rightarrow> 'a world_scheme \<Rightarrow> (string, 'a world_scheme) result" where
  "input E prompt s =
     (case input_result E (trace s) of
        Some r \<Rightarrow> Ok r (emit (Input prompt) s)
      | None \<Rightarrow> Raise EOFError (emit (Input prompt) s))"

definition open_w :: "env \<Rightarrow> string \<Rightarrow> 'a world_scheme \<Rightarrow> (unit, 'a world_scheme) result" where
  "open_w E path s =
     (case open_file_result E path of
        None \<Rightarrow> Ok () (s\<lparr>files := (files s)(path \<mapsto> [])\<rparr>)
      | Some msg \<Rightarrow> Raise (OSError msg) s)"

definition f_write :: "string \<Rightarrow> fstring \<Rightarrow> 'a world_scheme \<Rightarrow> (unit, 'a world_scheme) result" where
  "f_write path txt s =
     Ok () (s\<lparr>files := (files s)(path \<mapsto> (case files s path of None \<Rightarrow> txt | Some c \<Rightarrow> c @ txt))\<rparr>)"

definition py_int :: "real \<Rightarrow> int" where
  \<comment> \<open>\<^verbatim>\<open>int(x)\<close> truncates towards zero\<close>
  "py_int x = (if 0 \<le> x then \<lfloor>x\<rfloor> else \<lceil>x\<rceil>)"

text \<open>
  IEEE 754 binary64, round to nearest, ties to even. \<open>expo x\<close> is the exponent of the
  binade of \<open>x\<close>; a double has 53 significant bits, so its last bit weighs
  \<open>pow2 (expo x - 52)\<close>, and never less than \<open>pow2 (- 1074)\<close> (subnormal numbers). A
  result of magnitude \<open>2 ^ 1024\<close> or more stands for an infinity.
\<close>

fun ilog2 :: "nat \<Rightarrow> nat" where
  "ilog2 n = (if n < 2 then 0 else Suc (ilog2 (n div 2)))"

definition expo :: "real \<Rightarrow> int" where
  "expo x = (if 1 \<le> \<bar>x\<bar> then int (ilog2 (nat \<lfloor>\<bar>x\<bar>\<rfloor>))
             else - (1 + int (ilog2 (nat (\<lceil>1 / \<bar>x\<bar>\<rceil> - 1)))))"

definition pow2 :: "int \<Rightarrow> real" where
  "pow2 e = (if 0 \<le> e then 2 ^ nat e else 1 / 2 ^ nat (- e))"

definition round_even :: "real \<Rightarrow> int" where
  "round_even x =
     (if x - of_int \<lfloor>x\<rfloor> < 1 / 2 then \<lfloor>x\<rfloor>
      else if 1 / 2 < x - of_int \<lfloor>x\<rfloor> then \<lfloor>x\<rfloor> + 1
      else if even \<lfloor>x\<rfloor> then \<lfloor>x\<rfloor> else \<lfloor>x\<rfloor> + 1)"

definition ulp_exp :: "real \<Rightarrow> int" where
  "ulp_exp x = max (expo x - 52) (- 1074)"

definition rnd :: "real \<Rightarrow> real" where
  "rnd x = (if x = 0 then 0 else of_int (round_even (x / pow2 (ulp_exp x))) * pow2 (ulp_exp x))"

definition in_range :: "real \<Rightarrow> bool" where
  "in_range x = (\<bar>x\<bar> < 2 ^ 1024)"

definition py_range :: "int \<Rightarrow> nat list" where
  \<comment> \<open>\<^verbatim>\<open>range(n)\<close> is empty for n \<le> 0\<close>
  "py_range n = [0..<nat n]"

definition tab :: string where
  "tab = [CHR 0x09]"

definition nl :: string where
  "nl = [CHR 0x0A]"

subsection \<open>Single-instrument script: \<^verbatim>\<open>KeithleyIVSweep_Mobile_V1.1.py\<close>\<close>

record sweep_params =
  Vmin :: real
  Vmax :: real
  step_size :: real
  compliance_current :: real

record iv_params = sweep_params +
  Keithley :: handle

record iv_state = world +
  t_values :: "real list"
  voltage_values :: "real list"
  current_values :: "real list"
  power_values :: "real list"

text \<open>Lines 13-46: \<^verbatim>\<open>initialize_Keithley()\<close> takes no argument.\<close>

definition resource_manager :: "env \<Rightarrow> 'a world_scheme \<Rightarrow> (unit, 'a world_scheme) result" where
  "resource_manager E s =
     (case rm_result E of None \<Rightarrow> Ok () s | Some msg \<Rightarrow> Raise (VisaIOError msg) s)"

definition list_resources :: "env \<Rightarrow> 'a world_scheme \<Rightarrow> (string list, 'a world_scheme) result" where
  "list_resources E s = Ok (list_resources_result E) (emit ListResources s)"

definition open_resource :: "env \<Rightarrow> string \<Rightarrow> 'a world_scheme \<Rightarrow> (handle, 'a world_scheme) result" where
  "open_resource E name s =
     (case open_result E name of
        None \<Rightarrow> Ok name (emit (OpenResource name) s)
      | Some msg \<Rightarrow> Raise (VisaIOError msg) (emit (OpenResource name) s))"

definition open_and_identify ::
  "env \<Rightarrow> string \<Rightarrow> 'a world_scheme \<Rightarrow> (handle, 'a world_scheme) result" where
  \<comment> \<open>lines 14-28, the same in both scripts\<close>
  "open_and_identify E name s =
     then_do (resource_manager E s) (\<lambda>_ s.
     then_do (print [Lit ''----------RESOURCES-------------''] s) (\<lambda>_ s.
     then_do (list_resources E s) (\<lambda>rs s.
     then_do (print [Tup rs] s) (\<lambda>_ s.
     then_do (print [Lit nl] s) (\<lambda>_ s.
     then_do (open_resource E name s) (\<lambda>k2400 s.
     then_do (print [Lit ''----------INSTRUMENT-------------''] s) (\<lambda>_ s.
     then_do (instr_query E k2400 [Lit ''*IDN?''] s) (\<lambda>idn s.
     then_do (print [Lit idn] s) (\<lambda>_ s.
     then_do (print [Lit nl] s) (\<lambda>_ s.
     Ok k2400 s))))))))))"

definition initialize_Keithley_iv :: "env \<Rightarrow> 'a world_scheme \<Rightarrow> (handle, 'a world_scheme) result" where
  \<open>initialize_Keithley_iv E s =
     then_do (open_and_identify E ''GPIB0::12::INSTR'' s) (\<lambda>k2400 s.
     then_do (instr_write E k2400 [Lit ''*rst; status:preset;''] s) (\<lambda>_ s.
     then_do (instr_write E k2400 [Lit '':SOUR:FUNC VOLT''] s) (\<lambda>_ s.
     then_do (instr_write E k2400 [Lit '':SOUR:VOLT 0''] s) (\<lambda>_ s.
     then_do (instr_write E k2400 [Lit '':SENS:CURR:PROT 150E-3''] s) (\<lambda>_ s.
     then_do (instr_write E k2400 [Lit '':SENS:CURR:RANG:AUTO ON''] s) (\<lambda>_ s.
     then_do (instr_write E k2400 [Lit '':SENS:FUNC "CURR"''] s) (\<lambda>_ s.
     Ok k2400 s)))))))\<close>

text \<open>
  Line 54: \<^verbatim>\<open>points = int((Vmax - Vmin) / step_size) + 1\<close>, in double arithmetic. A zero
  step raises \<open>ZeroDivisionError\<close>, an infinite difference or quotient makes
  \<^verbatim>\<open>int()\<close> raise \<open>OverflowError\<close>, both before anything is commanded.
\<close>

definition float_quotient :: "'p sweep_params_scheme \<Rightarrow> real" where
  "float_quotient p = rnd (rnd (Vmax p - Vmin p) / step_size p)"

definition count_points :: "'p sweep_params_scheme \<Rightarrow> 's \<Rightarrow> (int, 's) result" where
  "count_points p s =
     (if step_size p = 0 then Raise ZeroDivisionError s
      else if \<not> in_range (rnd (Vmax p - Vmin p)) \<or> \<not> in_range (float_quotient p)
      then Raise OverflowError s
      else Ok (py_int (float_quotient p) + 1) s)"

text \<open>
  Line 68 (77 in the dual script): \<^verbatim>\<open>voltage = Vmin + i * step_size\<close>. The index is
  converted to a double, the product is rounded, then the sum is rounded.
\<close>

definition voltage_at :: "'p sweep_params_scheme \<Rightarrow> nat \<Rightarrow> real" where
  "voltage_at p i = rnd (Vmin p + rnd (rnd (real i) * step_size p))"

text \<open>Line 86 (107): \<^verbatim>\<open>int(voltage) == voltage\<close>.\<close>

definition is_whole :: "real \<Rightarrow> bool" where
  "is_whole voltage = (of_int (py_int voltage) = voltage)"

text \<open>Lines 68-87: the body of the stepping loop, for index \<open>i\<close>.\<close>

definition iv_step :: "env \<Rightarrow> iv_params \<Rightarrow> real \<Rightarrow> nat \<Rightarrow> iv_state \<Rightarrow> (unit, iv_state) result" where
  "iv_step E p start_time i s =
     (let voltage = voltage_at p i in
      then_do (instr_write E (Keithley p) [Lit '':SOUR:VOLT '', Str voltage] s) (\<lambda>_ s.
      then_do (time_sleep (5 / 100) s) (\<lambda>_ s.
      then_do (time_time E s) (\<lambda>now s.
      let t = now - start_time in
      then_do (query_ascii_values E (Keithley p) [Lit '':READ?''] s) (\<lambda>vals s.
      then_do (getitem vals 1 s) (\<lambda>current s.
      let power = voltage * current;
          s = s\<lparr>t_values := t_values s @ [t]\<rparr>;
          s = s\<lparr>voltage_values := voltage_values s @ [voltage]\<rparr>;
          s = s\<lparr>current_values := current_values s @ [current]\<rparr>;
          s = s\<lparr>power_values := power_values s @ [power]\<rparr>
      in if is_whole voltage
         then print [Lit ''Voltage: '', F2 voltage, Lit '' V, Current: '', E6 current, Lit '' A''] s
         else Ok () s))))))"

fun iv_loop :: "env \<Rightarrow> iv_params \<Rightarrow> real \<Rightarrow> nat list \<Rightarrow> iv_state \<Rightarrow> (unit, iv_state) result" where
  "iv_loop E p start_time [] s = Ok () s"
| "iv_loop E p start_time (i # rest) s =
     (case iv_step E p start_time i s of
        Ok _ s' \<Rightarrow> iv_loop E p start_time rest s'
      | Raise e s' \<Rightarrow> Raise e s')"

text \<open>Lines 54-66: point count, empty data holders, output on, start of the stopwatch.\<close>

definition iv_begin :: "env \<Rightarrow> iv_params \<Rightarrow> iv_state \<Rightarrow> (int \<times> real, iv_state) result" where
  "iv_begin E p s =
     then_do (count_points p s) (\<lambda>points s.
     let s = s\<lparr>t_values := [], voltage_values := [], current_values := [], power_values := []\<rparr> in
     then_do (instr_write E (Keithley p) [Lit '':OUTP ON''] s) (\<lambda>_ s.
     then_do (time_time E s) (\<lambda>start_time s.
     Ok (points, start_time) s)))"

text \<open>Lines 89-93: voltage to zero, output off.\<close>

definition iv_shutdown :: "env \<Rightarrow> iv_params \<Rightarrow> iv_state \<Rightarrow> (unit, iv_state) result" where
  "iv_shutdown E p s =
     then_do (instr_write E (Keithley p) [Lit '':SOUR:VOLT 0''] s) (\<lambda>_ s.
     instr_write E (Keithley p) [Lit '':OUTP OFF''] s)"

text \<open>Lines 54-93: everything the engine does with the instrument.\<close>

definition iv_acquire :: "env \<Rightarrow> iv_params \<Rightarrow> iv_state \<Rightarrow> (int, iv_state) result" where
  "iv_acquire E p s =
     then_do (iv_begin E p s) (\<lambda>(points, start_time) s.
     then_do (iv_loop E p start_time (py_range points) s) (\<lambda>_ s.
     then_do (iv_shutdown E p s) (\<lambda>_ s.
     Ok points s)))"

text \<open>Lines 95-118: the file. Each row indexes the four lists, as the source does.\<close>

definition directory :: string where
  "directory = ''C:'' @ [CHR 0x5C] @ ''semspace'' @ [CHR 0x5C] @ ''Saved GC Data''"

definition preamble :: "string \<Rightarrow> fstring list" where
  \<open>preamble type_line =
     [[Lit (''*! Laptop Compatible "Mobile" Version of QKeithleyControlMaster'' @ nl)],
      [Lit (''*! Project = Fill project details here'' @ nl)],
      [Lit (''#! Fluence / Dose / Condition = Fill measurement details here'' @ nl)],
      [Lit (type_line @ nl)],
      [Lit nl]]\<close>

fun write_all :: "string \<Rightarrow> fstring list \<Rightarrow> 'a world_scheme \<Rightarrow> (unit, 'a world_scheme) result" where
  "write_all path [] s = Ok () s"
| "write_all path (l # ls) s = then_do (f_write path l s) (\<lambda>_ s. write_all path ls s)"

definition iv_header :: fstring where
  "iv_header = [Lit (''t'' @ tab @ tab @ ''V'' @ tab @ tab @ ''I'' @ tab @ tab @ ''P'' @ nl)]"

definition iv_row :: "string \<Rightarrow> nat \<Rightarrow> iv_state \<Rightarrow> (unit, iv_state) result" where
  "iv_row path i s =
     then_do (getitem (t_values s) i s) (\<lambda>t s.
     then_do (getitem (voltage_values s) i s) (\<lambda>v s.
     then_do (getitem (current_values s) i s) (\<lambda>c s.
     then_do (getitem (power_values s) i s) (\<lambda>pw s.
     f_write path [F6 t, Lit tab, F2 v, Lit tab, E6 c, Lit tab, E6 pw, Lit nl] s))))"

fun iv_rows :: "string \<Rightarrow> nat list \<Rightarrow> iv_state \<Rightarrow> (unit, iv_state) result" where
  "iv_rows path [] s = Ok () s"
| "iv_rows path (i # rest) s =
     (case iv_row path i s of
        Ok _ s' \<Rightarrow> iv_rows path rest s'
      | Raise e s' \<Rightarrow> Raise e s')"

definition iv_persist :: "env \<Rightarrow> int \<Rightarrow> iv_state \<Rightarrow> (unit, iv_state) result" where
  "iv_persist E points s =
     then_do (input E [Lit ''Enter filename: ''] s) (\<lambda>filename s.
     let filename = filename @ ''.txt'';
         path = path_join E directory filename in
     then_do (open_w E path s) (\<lambda>_ s.
     then_do (write_all path (preamble ''#! Type = iv-sweep'') s) (\<lambda>_ s.
     then_do (f_write path iv_header s) (\<lambda>_ s.
     then_do (iv_rows path (py_range points) s) (\<lambda>_ s.
     print [Lit ''Data saved successfully.''] s)))))"

text \<open>Lines 120-130: the plot, one event.\<close>

definition show_plot :: "real list \<Rightarrow> real list \<Rightarrow> 'a world_scheme \<Rightarrow> (unit, 'a world_scheme) result" where
  "show_plot xs ys s = Ok () (emit (Plot xs ys) s)"

definition Keithley_VOLTAGE_SWEEP_iv :: "env \<Rightarrow> iv_params \<Rightarrow> iv_state \<Rightarrow> (unit, iv_state) result" where
  "Keithley_VOLTAGE_SWEEP_iv E p s =
     then_do (iv_acquire E p s) (\<lambda>points s.
     then_do (iv_persist E points s) (\<lambda>_ s.
     show_plot (voltage_values s) (map abs (current_values s)) s))"

text \<open>Lines 139-157: the script itself.\<close>

definition close :: "handle \<Rightarrow> 'a world_scheme \<Rightarrow> (unit, 'a world_scheme) result" where
  "close h s = Ok () (emit (Close h) s)"

definition iv_script :: "env \<Rightarrow> iv_state \<Rightarrow> (unit, iv_state) result" where
  "iv_script E s =
     then_do (initialize_Keithley_iv E s) (\<lambda>k s.
     then_do (Keithley_VOLTAGE_SWEEP_iv E
                \<lparr>Vmin = - 2, Vmax = 2, step_size = rnd (1 / 10),
                 compliance_current = rnd (10 / 100), Keithley = k\<rparr> s) (\<lambda>_ s.
     close k s))"

subsection \<open>Dual-instrument script: \<^verbatim>\<open>KeithleyPVSweep_Mobile_V1.py\<close>\<close>

record pv_params = sweep_params +
  Volt_Supp_Instr :: handle
  Curr_Read_Instr :: handle
  read_bias :: real
  compliance_read :: real

record pv_state = iv_state +
  voltage_1_values :: "real list"
  current_1_values :: "real list"
  power_1_values :: "real list"
  power_2_values :: "real list"

text \<open>Lines 13-46: \<^verbatim>\<open>initialize_Keithley(resource_name, compliance_current)\<close>.\<close>

definition initialize_Keithley_pv ::
  "env \<Rightarrow> string \<Rightarrow> real \<Rightarrow> 'a world_scheme \<Rightarrow> (handle, 'a world_scheme) result" where
  \<open>initialize_Keithley_pv E resource_name compliance s =
     then_do (open_and_identify E resource_name s) (\<lambda>k2400 s.
     then_do (instr_write E k2400 [Lit ''*rst; status:preset;''] s) (\<lambda>_ s.
     then_do (instr_write E k2400 [Lit '':SOUR:FUNC VOLT''] s) (\<lambda>_ s.
     then_do (instr_write E k2400 [Lit '':SOUR:VOLT 0''] s) (\<lambda>_ s.
     then_do (instr_write E k2400 [Lit '':SENS:CURR:PROT '', Str compliance] s) (\<lambda>_ s.
     then_do (instr_write E k2400 [Lit '':SENS:CURR:RANG:AUTO ON''] s) (\<lambda>_ s.
     then_do (instr_write E k2400 [Lit '':SENS:FUNC "CURR"''] s) (\<lambda>_ s.
     Ok k2400 s)))))))\<close>

text \<open>Lines 77-108: the body of the stepping loop, for index \<open>i\<close>.\<close>

definition pv_step :: "env \<Rightarrow> pv_params \<Rightarrow> real \<Rightarrow> nat \<Rightarrow> pv_state \<Rightarrow> (unit, pv_state) result" where
  "pv_step E p start_time i s =
     (let voltage = voltage_at p i in
      then_do (instr_write E (Volt_Supp_Instr p) [Lit '':SOUR:VOLT '', Str voltage] s) (\<lambda>_ s.
      then_do (time_sleep (5 / 100) s) (\<lambda>_ s.
      then_do (time_time E s) (\<lambda>now s.
      let t = now - start_time in
      then_do (query_ascii_values E (Volt_Supp_Instr p) [Lit '':READ?''] s) (\<lambda>vals s.
      then_do (getitem vals 1 s) (\<lambda>current s.
      let power = voltage * current in
      then_do (query_ascii_values E (Curr_Read_Instr p) [Lit '':READ?''] s) (\<lambda>vals s.
      then_do (getitem vals 0 s) (\<lambda>voltage_1 s.
      then_do (query_ascii_values E (Curr_Read_Instr p) [Lit '':READ?''] s) (\<lambda>vals s.
      then_do (getitem vals 1 s) (\<lambda>current_1 s.
      let power_1 = voltage_1 * current_1;
          power_2 = voltage * current_1;
          s = s\<lparr>t_values := t_values s @ [t]\<rparr>;
          s = s\<lparr>voltage_values := voltage_values s @ [voltage]\<rparr>;
          s = s\<lparr>current_values := current_values s @ [current]\<rparr>;
          s = s\<lparr>power_values := power_values s @ [power]\<rparr>;
          s = s\<lparr>voltage_1_values := voltage_1_values s @ [voltage_1]\<rparr>;
          s = s\<lparr>current_1_values := current_1_values s @ [current_1]\<rparr>;
          s = s\<lparr>power_1_values := power_1_values s @ [power_1]\<rparr>;
          s = s\<lparr>power_2_values := power_2_values s @ [power_2]\<rparr>
      in if is_whole voltage
         then print [Lit ''Voltage: '', F2 voltage, Lit '' V, Current: '', E6 current_1, Lit '' A''] s
         else Ok () s))))))))))"

fun pv_loop :: "env \<Rightarrow> pv_params \<Rightarrow> real \<Rightarrow> nat list \<Rightarrow> pv_state \<Rightarrow> (unit, pv_state) result" where
  "pv_loop E p start_time [] s = Ok () s"
| "pv_loop E p start_time (i # rest) s =
     (case pv_step E p start_time i s of
        Ok _ s' \<Rightarrow> pv_loop E p start_time rest s'
      | Raise e s' \<Rightarrow> Raise e s')"

text \<open>Lines 54-75: point count, empty data holders, both outputs on, the static bias
  and compliance of the second instrument, start of the stopwatch.\<close>

definition pv_begin :: "env \<Rightarrow> pv_params \<Rightarrow> pv_state \<Rightarrow> (int \<times> real, pv_state) result" where
  "pv_begin E p s =
     then_do (count_points p s) (\<lambda>points s.
     let s = s\<lparr>t_values := [], voltage_values := [], current_values := [], power_values := [],
                voltage_1_values := [], current_1_values := [], power_1_values := [],
                power_2_values := []\<rparr> in
     then_do (instr_write E (Volt_Supp_Instr p) [Lit '':OUTP ON''] s) (\<lambda>_ s.
     then_do (instr_write E (Curr_Read_Instr p) [Lit '':OUTP ON''] s) (\<lambda>_ s.
     then_do (instr_write E (Curr_Read_Instr p) [Lit '':SOUR:VOLT '', Str (read_bias p)] s) (\<lambda>_ s.
     then_do (instr_write E (Curr_Read_Instr p) [Lit '':SENS:CURR:PROT '', Str (compliance_read p)] s) (\<lambda>_ s.
     then_do (time_time E s) (\<lambda>start_time s.
     Ok (points, start_time) s))))))"

text \<open>Lines 110-116: both voltages to zero, then both outputs off.\<close>

definition pv_shutdown :: "env \<Rightarrow> pv_params \<Rightarrow> pv_state \<Rightarrow> (unit, pv_state) result" where
  "pv_shutdown E p s =
     then_do (instr_write E (Volt_Supp_Instr p) [Lit '':SOUR:VOLT 0''] s) (\<lambda>_ s.
     then_do (instr_write E (Curr_Read_Instr p) [Lit '':SOUR:VOLT 0''] s) (\<lambda>_ s.
     then_do (instr_write E (Volt_Supp_Instr p) [Lit '':OUTP OFF''] s) (\<lambda>_ s.
     instr_write E (Curr_Read_Instr p) [Lit '':OUTP OFF''] s)))"

definition pv_acquire :: "env \<Rightarrow> pv_params \<Rightarrow> pv_state \<Rightarrow> (int, pv_state) result" where
  "pv_acquire E p s =
     then_do (pv_begin E p s) (\<lambda>(points, start_time) s.
     then_do (pv_loop E p start_time (py_range points) s) (\<lambda>_ s.
     then_do (pv_shutdown E p s) (\<lambda>_ s.
     Ok points s)))"

text \<open>Lines 118-142: the file.\<close>

definition pv_header :: fstring where
  "pv_header =
     [Lit (''t'' @ tab @ tab @ ''V'' @ tab @ tab @ ''I'' @ tab @ tab @ ''P'' @ tab @ tab @ ''V1''
           @ tab @ tab @ ''I1'' @ tab @ tab @ ''P1'' @ tab @ tab @ ''P2'' @ nl)]"

definition pv_row :: "string \<Rightarrow> nat \<Rightarrow> pv_state \<Rightarrow> (unit, pv_state) result" where
  "pv_row path i s =
     then_do (getitem (t_values s) i s) (\<lambda>t s.
     then_do (getitem (voltage_values s) i s) (\<lambda>v s.
     then_do (getitem (current_values s) i s) (\<lambda>c s.
     then_do (getitem (power_values s) i s) (\<lambda>pw s.
     then_do (getitem (voltage_1_values s) i s) (\<lambda>v1 s.
     then_do (getitem (current_1_values s) i s) (\<lambda>c1 s.
     then_do (getitem (power_1_values s) i s) (\<lambda>p1 s.
     then_do (getitem (power_2_values s) i s) (\<lambda>p2 s.
     f_write path [F6 t, Lit tab, F2 v, Lit tab, E6 c, Lit tab, E6 pw, Lit tab,
                   F2 v1, Lit tab, E6 c1, Lit tab, E6 p1, Lit tab, E6 p2, Lit nl] s))))))))"

fun pv_rows :: "string \<Rightarrow> nat list \<Rightarrow> pv_state \<Rightarrow> (unit, pv_state) result" where
  "pv_rows path [] s = Ok () s"
| "pv_rows path (i # rest) s =
     (case pv_row path i s of
        Ok _ s' \<Rightarrow> pv_rows path rest s'
      | Raise e s' \<Rightarrow> Raise e s')"

definition pv_persist :: "env \<Rightarrow> int \<Rightarrow> pv_state \<Rightarrow> (unit, pv_state) result" where
  "pv_persist E points s =
     then_do (input E [Lit ''Enter filename: ''] s) (\<lambda>filename s.
     let filename = filename @ ''.txt'';
         path = path_join E directory filename in
     then_do (open_w E path s) (\<lambda>_ s.
     then_do (write_all path (preamble ''#! Type = pv-sweep'') s) (\<lambda>_ s.
     then_do (f_write path pv_header s) (\<lambda>_ s.
     then_do (pv_rows path (py_range points) s) (\<lambda>_ s.
     print [Lit ''Data saved successfully.''] s)))))"

definition Keithley_VOLTAGE_SWEEP_pv :: "env \<Rightarrow> pv_params \<Rightarrow> pv_state \<Rightarrow> (unit, pv_state) result" where
  "Keithley_VOLTAGE_SWEEP_pv E p s =
     then_do (pv_acquire E p s) (\<lambda>points s.
     then_do (pv_persist E points s) (\<lambda>_ s.
     show_plot (voltage_values s) (map abs (current_1_values s)) s))"

text \<open>Lines 163-185: the script itself.\<close>

definition pv_script :: "env \<Rightarrow> pv_state \<Rightarrow> (unit, pv_state) result" where
  "pv_script E s =
     then_do (initialize_Keithley_pv E ''GPIB0::16::INSTR'' (rnd (35 / 100)) s) (\<lambda>k1 s.
     then_do (initialize_Keithley_pv E ''GPIB0::14::INSTR'' (rnd (1 / 10)) s) (\<lambda>k2 s.
     then_do (Keithley_VOLTAGE_SWEEP_pv E
                \<lparr>Vmin = 0, Vmax = 12, step_size = rnd (1 / 10),
                 compliance_current = rnd (35 / 100),
                 Volt_Supp_Instr = k1, Curr_Read_Instr = k2, read_bias = 0,
                 compliance_read = rnd (1 / 10)\<rparr> s) (\<lambda>_ s.
     then_do (close k1 s) (\<lambda>_ s.
     close k2 s))))"

subsection \<open>Reading a trace\<close>

fun issued_to :: "handle \<Rightarrow> event \<Rightarrow> bool" where
  "issued_to h (Write h' c) = (h' = h)"
| "issued_to h (Query h' c) = (h' = h)"
| "issued_to h _ = False"

fun is_instr :: "event \<Rightarrow> bool" where
  "is_instr (Write h c) = True"
| "is_instr (Query h c) = True"
| "is_instr _ = False"

fun written_to :: "handle \<Rightarrow> event \<Rightarrow> bool" where
  "written_to h (Write h' c) = (h' = h)"
| "written_to h _ = False"

definition emitted :: "'a world_scheme \<Rightarrow> 'b world_scheme \<Rightarrow> event list" where
  \<comment> \<open>the events added between an earlier state and a later one\<close>
  "emitted s s' = drop (length (trace s)) (trace s')"


definition off_bus :: "('a, 'b world_scheme) result \<Rightarrow> 'b world_scheme \<Rightarrow> bool" where
  \<comment> \<open>from state \<open>s\<close> on, the computation with result \<open>r\<close> issued nothing to an instrument\<close>
  "off_bus r s =
     (take (length (trace s)) (trace (final r)) = trace s
      \<and> filter is_instr (drop (length (trace s)) (trace (final r))) = [])"

fun is_print :: "event \<Rightarrow> bool" where
  "is_print (Print t) = True"
| "is_print _ = False"

definition set_point :: "handle \<Rightarrow> real \<Rightarrow> event" where
  "set_point h v = Write h [Lit '':SOUR:VOLT '', Str v]"

definition read_query :: "handle \<Rightarrow> event" where
  "read_query h = Query h [Lit '':READ?'']"

definition progress :: "real \<Rightarrow> real \<Rightarrow> event list" where
  \<comment> \<open>the progress line for voltage \<open>v\<close> and current \<open>c\<close>, at whole voltages only\<close>
  "progress v c =
     (if v \<in> \<int> then [Print [Lit ''Voltage: '', F2 v, Lit '' V, Current: '', E6 c, Lit '' A'']]
      else [])"

text \<open>The events an iteration of either loop can add.\<close>

fun iv_loop_event :: "handle \<Rightarrow> event \<Rightarrow> bool" where
  "iv_loop_event k (Write h [Lit c, Str v]) = (h = k \<and> c = '':SOUR:VOLT '')"
| "iv_loop_event k (Query h c) = (h = k \<and> c = [Lit '':READ?''])"
| "iv_loop_event k (Sleep d) = (d = 5 / 100)"
| "iv_loop_event k (Print t) = True"
| "iv_loop_event k _ = False"

fun pv_loop_event :: "handle \<Rightarrow> handle \<Rightarrow> event \<Rightarrow> bool" where
  "pv_loop_event k1 k2 (Write h [Lit c, Str v]) = (h = k1 \<and> c = '':SOUR:VOLT '')"
| "pv_loop_event k1 k2 (Query h c) = ((h = k1 \<or> h = k2) \<and> c = [Lit '':READ?''])"
| "pv_loop_event k1 k2 (Sleep d) = (d = 5 / 100)"
| "pv_loop_event k1 k2 (Print t) = True"
| "pv_loop_event k1 k2 _ = False"

text \<open>The rows of the file, read off the recorded lists.\<close>

definition iv_line :: "iv_state \<Rightarrow> nat \<Rightarrow> fstring" where
  "iv_line s i =
     [F6 (t_values s ! i), Lit tab, F2 (voltage_values s ! i), Lit tab,
      E6 (current_values s ! i), Lit tab, E6 (power_values s ! i), Lit nl]"

definition pv_line :: "pv_state \<Rightarrow> nat \<Rightarrow> fstring" where
  "pv_line s i =
     [F6 (t_values s ! i), Lit tab, F2 (voltage_values s ! i), Lit tab,
      E6 (current_values s ! i), Lit tab, E6 (power_values s ! i), Lit tab,
      F2 (voltage_1_values s ! i), Lit tab, E6 (current_1_values s ! i), Lit tab,
      E6 (power_1_values s ! i), Lit tab, E6 (power_2_values s ! i), Lit nl]"

subsection \<open>A test bench\<close>

text \<open>
  An environment in which nothing fails: every reading is two numbers that grow with
  the number of events so far, the clock counts its own readings, the user types
  \<^verbatim>\<open>run1\<close>.
\<close>

definition bench :: env where
  "bench = \<lparr>rm_result = None,
            list_resources_result = [''GPIB0::12::INSTR'', ''GPIB0::14::INSTR'', ''GPIB0::16::INSTR''],
            open_result = (\<lambda>_. None),
            write_result = (\<lambda>_ _ _. None),
            query_result = (\<lambda>_ _ _. Inr ''KEITHLEY INSTRUMENTS INC.,MODEL 2400''),
            ascii_result = (\<lambda>tr _ _. Inr [real (length tr), real (length tr) / 1000]),
            clock = real,
            input_result = (\<lambda>_. Some ''run1''),
            path_join = (\<lambda>d f. d @ [CHR 0x5C] @ f),
            open_file_result = (\<lambda>_. None)\<rparr>"

definition idle_iv :: iv_state where
  "idle_iv = \<lparr>trace = [], ticks = 0, files = Map.empty, t_values = [], voltage_values = [],
              current_values = [], power_values = []\<rparr>"

definition idle_pv :: pv_state where
  "idle_pv = \<lparr>trace = [], ticks = 0, files = Map.empty, t_values = [], voltage_values = [],
              current_values = [], power_values = [], voltage_1_values = [],
              current_1_values = [], power_1_values = [], power_2_values = []\<rparr>"

definition iv_example :: iv_params where
  "iv_example = \<lparr>Vmin = 0, Vmax = 1, step_size = 1 / 2, compliance_current = 10 / 100,
                  Keithley = ''GPIB0::12::INSTR''\<rparr>"

definition pv_example :: pv_params where
  "pv_example = \<lparr>Vmin = 0, Vmax = 1, step_size = 1 / 2, compliance_current = 35 / 100,
                  Volt_Supp_Instr = ''GPIB0::16::INSTR'', Curr_Read_Instr = ''GPIB0::14::INSTR'',
                  read_bias = 0, compliance_read = 1 / 10\<rparr>"


definition offset_sweep :: iv_params where
  "offset_sweep = \<lparr>Vmin = rnd (- 3 / 10), Vmax = rnd (3 / 10), step_size = rnd (1 / 10),
                    compliance_current = rnd (10 / 100), Keithley = ''GPIB0::12::INSTR''\<rparr>"

text \<open>
  The bench with a bus that times out on the write, or on the reading, that is issued
  when exactly \<open>k\<close> events have happened.
\<close>

definition write_fault :: "nat \<Rightarrow> env" where
  "write_fault k = bench\<lparr>write_result :=
     (\<lambda>tr _ _. if length tr = k then Some ''VI_ERROR_TMO'' else None)\<rparr>"

definition read_fault :: "nat \<Rightarrow> env" where
  "read_fault k = bench\<lparr>ascii_result :=
     (\<lambda>tr _ _. if length tr = k then Inl ''VI_ERROR_TMO''
                else Inr [real (length tr), real (length tr) / 1000])\<rparr>"

text \<open>The bench with a bus that times out on the command \<^verbatim>\<open>:SOUR:VOLT 0\<close> of the shutdown.\<close>

definition shutdown_fault :: env where
  "shutdown_fault = bench\<lparr>write_result :=
     (\<lambda>_ _ cmd. if cmd = [Lit '':SOUR:VOLT 0''] then Some ''VI_ERROR_TMO'' else None)\<rparr>"

text \<open>The bench with a wall clock that is set back between its second and third reading.\<close>

definition clock_set_back :: env where
  "clock_set_back = bench\<lparr>clock := (\<lambda>n. if n = 0 then 10 else if n = 1 then 12 else 11)\<rparr>"

text \<open>The bench with instruments that answer a reading with \<open>n\<close> numbers only when
  exactly \<open>k\<close> events have happened.\<close>

definition short_answer :: "nat \<Rightarrow> nat \<Rightarrow> env" where
  "short_answer k n = bench\<lparr>ascii_result :=
     (\<lambda>tr _ _. if length tr = k then Inr (replicate n 5) else Inr [real (length tr), 1 / 1000])\<rparr>"


section \<open>Supporting lemmas\<close>

subsection \<open>Basic facts\<close>

lemmas prims = instr_write_def query_ascii_values_def getitem_def time_sleep_def time_time_def
  print_def emit_def

lemmas observers = set_point_def read_query_def progress_def

declare ilog2.simps [simp del]

lemma ilog2_numeral [simp]:
  "ilog2 (numeral k) = (if numeral k < (2::nat) then 0 else Suc (ilog2 (numeral k div 2)))"
  by (rule ilog2.simps)

lemma ilog2_small [simp]: "ilog2 0 = 0" "ilog2 1 = 0" "ilog2 (Suc 0) = 0"
  by (simp_all add: ilog2.simps)

lemmas rnd_eval = rnd_def ulp_exp_def expo_def pow2_def round_even_def

lemma rnd_0 [simp]: "rnd 0 = 0"
  by (simp add: rnd_def)

lemmas bench_simps = bench_def idle_iv_def idle_pv_def iv_example_def pv_example_def
  voltage_at_def float_quotient_def in_range_def rnd_eval is_whole_def py_int_def

lemmas run_simps = count_points_def py_range_def prims bench_simps upt_conv_Cons

lemma Let_divide [simp]: "(let x = (a::real) / b in f x) = f (a / b)"
  by (simp add: Let_def)

lemma is_whole_iff: "is_whole v \<longleftrightarrow> v \<in> \<int>"
proof
  assume "is_whole v"
  then have "v = of_int (py_int v)" by (simp add: is_whole_def)
  then show "v \<in> \<int>" by (metis Ints_of_int)
next
  assume "v \<in> \<int>"
  then obtain k :: int where "v = of_int k" by (auto elim: Ints_cases)
  then show "is_whole v" by (simp add: is_whole_def py_int_def)
qed

lemma emitted_append: "trace s' = trace s @ evs \<Longrightarrow> emitted s s' = evs"
  by (simp add: emitted_def)

subsection \<open>One iteration of the single-instrument loop\<close>

lemma iv_step_Ok:
  assumes "iv_step E p st i s = Ok u s'"
  shows "\<exists>vals.
        ascii_result E (trace s @ [set_point (Keithley p) (voltage_at p i), Sleep (5 / 100)])
          (Keithley p) [Lit '':READ?''] = Inr vals
      \<and> 1 < length vals
      \<and> s' = s\<lparr>trace := trace s @ [set_point (Keithley p) (voltage_at p i), Sleep (5 / 100),
                                    read_query (Keithley p)]
                                  @ progress (voltage_at p i) (vals ! 1),
                ticks := Suc (ticks s),
                t_values := t_values s @ [clock E (ticks s) - st],
                voltage_values := voltage_values s @ [voltage_at p i],
                current_values := current_values s @ [vals ! 1],
                power_values := power_values s @ [voltage_at p i * (vals ! 1)]\<rparr>"
  using assms
  by (auto simp: iv_step_def prims Let_def observers is_whole_iff
      split: option.splits sum.splits if_splits)

lemma iv_step_Raise:
  assumes "iv_step E p st i s = Raise e s'"
  shows "((\<exists>msg. e = VisaIOError msg) \<or> e = IndexError)
       \<and> (s' = s\<lparr>trace := trace s @ [set_point (Keithley p) (voltage_at p i)]\<rparr>
          \<or> s' = s\<lparr>trace := trace s @ [set_point (Keithley p) (voltage_at p i), Sleep (5 / 100),
                                        read_query (Keithley p)],
                    ticks := Suc (ticks s)\<rparr>)"
  using assms
  by (auto simp: iv_step_def prims Let_def observers
      split: option.splits sum.splits if_splits)

lemma iv_step_IndexError:
  "(\<exists>s'. iv_step E p st i s = Raise IndexError s') \<longleftrightarrow>
     write_result E (trace s) (Keithley p) [Lit '':SOUR:VOLT '', Str (voltage_at p i)] = None
   \<and> (\<exists>vals. ascii_result E (trace s @ [set_point (Keithley p) (voltage_at p i), Sleep (5 / 100)])
                (Keithley p) [Lit '':READ?''] = Inr vals
             \<and> length vals < 2)"
  by (auto simp: iv_step_def prims Let_def observers
      split: option.splits sum.splits if_splits)

subsection \<open>One iteration of the dual-instrument loop\<close>

lemma pv_step_Ok:
  assumes "pv_step E p st i s = Ok u s'"
  shows "\<exists>r1 r2 r3.
        ascii_result E (trace s @ [set_point (Volt_Supp_Instr p) (voltage_at p i), Sleep (5 / 100)])
           (Volt_Supp_Instr p) [Lit '':READ?''] = Inr r1
      \<and> ascii_result E (trace s @ [set_point (Volt_Supp_Instr p) (voltage_at p i), Sleep (5 / 100),
                                   read_query (Volt_Supp_Instr p)])
           (Curr_Read_Instr p) [Lit '':READ?''] = Inr r2
      \<and> ascii_result E (trace s @ [set_point (Volt_Supp_Instr p) (voltage_at p i), Sleep (5 / 100),
                                   read_query (Volt_Supp_Instr p), read_query (Curr_Read_Instr p)])
           (Curr_Read_Instr p) [Lit '':READ?''] = Inr r3
      \<and> 1 < length r1 \<and> 0 < length r2 \<and> 1 < length r3
      \<and> s' = s\<lparr>trace := trace s @ [set_point (Volt_Supp_Instr p) (voltage_at p i), Sleep (5 / 100),
                                   read_query (Volt_Supp_Instr p), read_query (Curr_Read_Instr p),
                                   read_query (Curr_Read_Instr p)]
                                  @ progress (voltage_at p i) (r3 ! 1),
                ticks := Suc (ticks s),
                t_values := t_values s @ [clock E (ticks s) - st],
                voltage_values := voltage_values s @ [voltage_at p i],
                current_values := current_values s @ [r1 ! 1],
                power_values := power_values s @ [voltage_at p i * (r1 ! 1)],
                voltage_1_values := voltage_1_values s @ [r2 ! 0],
                current_1_values := current_1_values s @ [r3 ! 1],
                power_1_values := power_1_values s @ [(r2 ! 0) * (r3 ! 1)],
                power_2_values := power_2_values s @ [voltage_at p i * (r3 ! 1)]\<rparr>"
  using assms
  by (auto simp: pv_step_def prims Let_def observers is_whole_iff
      split: option.splits sum.splits if_splits)

lemma pv_step_Raise:
  assumes "pv_step E p st i s = Raise e s'"
  shows "((\<exists>msg. e = VisaIOError msg) \<or> e = IndexError)
       \<and> (s' = s\<lparr>trace := trace s @ [set_point (Volt_Supp_Instr p) (voltage_at p i)]\<rparr>
          \<or> s' = s\<lparr>trace := trace s @ [set_point (Volt_Supp_Instr p) (voltage_at p i), Sleep (5 / 100),
                                        read_query (Volt_Supp_Instr p)],
                    ticks := Suc (ticks s)\<rparr>
          \<or> s' = s\<lparr>trace := trace s @ [set_point (Volt_Supp_Instr p) (voltage_at p i), Sleep (5 / 100),
                                        read_query (Volt_Supp_Instr p), read_query (Curr_Read_Instr p)],
                    ticks := Suc (ticks s)\<rparr>
          \<or> s' = s\<lparr>trace := trace s @ [set_point (Volt_Supp_Instr p) (voltage_at p i), Sleep (5 / 100),
                                        read_query (Volt_Supp_Instr p), read_query (Curr_Read_Instr p),
                                        read_query (Curr_Read_Instr p)],
                    ticks := Suc (ticks s)\<rparr>)"
  using assms
  by (auto simp: pv_step_def prims Let_def observers
      split: option.splits sum.splits if_splits)

lemma pv_step_IndexError:
  "(\<exists>s'. pv_step E p st i s = Raise IndexError s') \<longleftrightarrow>
     write_result E (trace s) (Volt_Supp_Instr p) [Lit '':SOUR:VOLT '', Str (voltage_at p i)] = None
   \<and> (\<exists>r1. ascii_result E (trace s @ [set_point (Volt_Supp_Instr p) (voltage_at p i), Sleep (5 / 100)])
               (Volt_Supp_Instr p) [Lit '':READ?''] = Inr r1
        \<and> (length r1 < 2
           \<or> (\<exists>r2. ascii_result E (trace s @ [set_point (Volt_Supp_Instr p) (voltage_at p i),
                                               Sleep (5 / 100), read_query (Volt_Supp_Instr p)])
                       (Curr_Read_Instr p) [Lit '':READ?''] = Inr r2
                \<and> (r2 = []
                   \<or> (\<exists>r3. ascii_result E (trace s @ [set_point (Volt_Supp_Instr p) (voltage_at p i),
                                                       Sleep (5 / 100), read_query (Volt_Supp_Instr p),
                                                       read_query (Curr_Read_Instr p)])
                               (Curr_Read_Instr p) [Lit '':READ?''] = Inr r3
                        \<and> length r3 < 2)))))"
  by (auto simp: pv_step_def prims Let_def observers
      split: option.splits sum.splits if_splits)

subsection \<open>Sequencing\<close>

lemma then_do_Ok:
  "then_do r f = Ok b s' \<longleftrightarrow> (\<exists>a s1. r = Ok a s1 \<and> f a s1 = Ok b s')"
  by (cases r) auto

subsection \<open>The single-instrument loop\<close>

lemma clock_map_Suc:
  "map (\<lambda>j. clock E (t + j) - st) [0..<Suc n]
     = (clock E t - st) # map (\<lambda>j. clock E (Suc t + j) - st) [0..<n]"
  by (simp add: upt_rec[of 0] map_Suc_upt[symmetric] del: upt_Suc)

lemma iv_loop_Ok:
  "iv_loop E p st is s = Ok u s' \<Longrightarrow>
   \<exists>evs cs. length cs = length is
     \<and> filter (written_to (Keithley p)) evs = map (\<lambda>i. set_point (Keithley p) (voltage_at p i)) is
     \<and> (\<forall>e\<in>set evs. iv_loop_event (Keithley p) e)
     \<and> s' = s\<lparr>trace := trace s @ evs,
               ticks := ticks s + length is,
               t_values := t_values s @ map (\<lambda>j. clock E (ticks s + j) - st) [0..<length is],
               voltage_values := voltage_values s @ map (voltage_at p) is,
               current_values := current_values s @ cs,
               power_values := power_values s @ map2 (*) (map (voltage_at p) is) cs\<rparr>"
proof (induction "is" arbitrary: s)
  case Nil
  then have "s' = s" by simp
  then show ?case by (intro exI[of _ "[]"]) simp
next
  case (Cons i rest)
  from Cons.prems obtain s1 where step: "iv_step E p st i s = Ok () s1"
    and rest: "iv_loop E p st rest s1 = Ok u s'"
    by (auto split: result.splits)
  from iv_step_Ok[OF step] obtain vals where
    s1: "s1 = s\<lparr>trace := trace s @ [set_point (Keithley p) (voltage_at p i), Sleep (5 / 100),
                                    read_query (Keithley p)]
                                  @ progress (voltage_at p i) (vals ! 1),
                ticks := Suc (ticks s),
                t_values := t_values s @ [clock E (ticks s) - st],
                voltage_values := voltage_values s @ [voltage_at p i],
                current_values := current_values s @ [vals ! 1],
                power_values := power_values s @ [voltage_at p i * (vals ! 1)]\<rparr>"
    by blast
  from Cons.IH[OF rest] obtain evs cs where len: "length cs = length rest"
    and wr: "filter (written_to (Keithley p)) evs = map (\<lambda>i. set_point (Keithley p) (voltage_at p i)) rest"
    and ev: "\<forall>e\<in>set evs. iv_loop_event (Keithley p) e"
    and s': "s' = s1\<lparr>trace := trace s1 @ evs,
               ticks := ticks s1 + length rest,
               t_values := t_values s1 @ map (\<lambda>j. clock E (ticks s1 + j) - st) [0..<length rest],
               voltage_values := voltage_values s1 @ map (voltage_at p) rest,
               current_values := current_values s1 @ cs,
               power_values := power_values s1 @ map2 (*) (map (voltage_at p) rest) cs\<rparr>"
    by blast
  let ?evs = "[set_point (Keithley p) (voltage_at p i), Sleep (5 / 100), read_query (Keithley p)]
              @ progress (voltage_at p i) (vals ! 1) @ evs"
  let ?cs = "(vals ! 1) # cs"
  have "length ?cs = length (i # rest)" using len by simp
  moreover have "filter (written_to (Keithley p)) ?evs
      = map (\<lambda>i. set_point (Keithley p) (voltage_at p i)) (i # rest)"
    using wr by (simp add: observers)
  moreover have "\<forall>e\<in>set ?evs. iv_loop_event (Keithley p) e"
    using ev by (auto simp: observers)
  moreover have "s' = s\<lparr>trace := trace s @ ?evs,
               ticks := ticks s + length (i # rest),
               t_values := t_values s @ map (\<lambda>j. clock E (ticks s + j) - st) [0..<length (i # rest)],
               voltage_values := voltage_values s @ map (voltage_at p) (i # rest),
               current_values := current_values s @ ?cs,
               power_values := power_values s @ map2 (*) (map (voltage_at p) (i # rest)) ?cs\<rparr>"
    unfolding s' s1 by (simp add: clock_map_Suc del: upt_Suc)
  ultimately show ?case by blast
qed

lemma iv_loop_Raise:
  "iv_loop E p st is s = Raise e s' \<Longrightarrow>
   \<exists>evs. trace s' = trace s @ evs \<and> evs \<noteq> []
     \<and> (\<forall>ev\<in>set evs. iv_loop_event (Keithley p) ev)
     \<and> is_instr (last evs)
     \<and> ((\<exists>msg. e = VisaIOError msg) \<or> e = IndexError)
     \<and> files s' = files s"
proof (induction "is" arbitrary: s)
  case Nil
  then show ?case by simp
next
  case (Cons i rest)
  show ?case
  proof (cases "iv_step E p st i s")
    case (Ok u s1)
    with Cons.prems have rest: "iv_loop E p st rest s1 = Raise e s'" by simp
    from iv_step_Ok[OF Ok] obtain c where
      s1: "trace s1 = trace s @ [set_point (Keithley p) (voltage_at p i), Sleep (5 / 100),
                                 read_query (Keithley p)] @ progress (voltage_at p i) c"
        "files s1 = files s"
      by force
    from Cons.IH[OF rest] obtain evs where evs: "trace s' = trace s1 @ evs" "evs \<noteq> []"
      "\<forall>ev\<in>set evs. iv_loop_event (Keithley p) ev" "is_instr (last evs)"
      "(\<exists>msg. e = VisaIOError msg) \<or> e = IndexError" "files s' = files s1"
      by blast
    let ?evs = "[set_point (Keithley p) (voltage_at p i), Sleep (5 / 100), read_query (Keithley p)]
                @ progress (voltage_at p i) c @ evs"
    have "trace s' = trace s @ ?evs" using evs(1) s1(1) by simp
    moreover have "?evs \<noteq> []" by simp
    moreover have "\<forall>ev\<in>set ?evs. iv_loop_event (Keithley p) ev"
      using evs(3) by (auto simp: observers)
    moreover have "is_instr (last ?evs)" using evs(2,4) by simp
    ultimately show ?thesis using evs(5,6) s1(2) by (intro exI[of _ ?evs]) simp
  next
    case (Raise e1 s1)
    with Cons.prems have eq: "e1 = e" "s1 = s'" by simp_all
    from iv_step_Raise[OF Raise] eq show ?thesis
      by (elim conjE disjE) (auto simp: observers)
  qed
qed

lemma iv_begin_Ok:
  assumes "iv_begin E p s = Ok (n, st) s0"
  shows "step_size p \<noteq> 0 \<and> n = py_int (float_quotient p) + 1
       \<and> st = clock E (ticks s)
       \<and> s0 = s\<lparr>trace := trace s @ [Write (Keithley p) [Lit '':OUTP ON'']],
                 ticks := Suc (ticks s),
                 t_values := [], voltage_values := [], current_values := [], power_values := []\<rparr>"
  using assms
  by (auto simp: iv_begin_def count_points_def prims Let_def split: if_splits option.splits)

lemma iv_shutdown_Ok:
  assumes "iv_shutdown E p s = Ok u s'"
  shows "s' = s\<lparr>trace := trace s @ [Write (Keithley p) [Lit '':SOUR:VOLT 0''],
                                     Write (Keithley p) [Lit '':OUTP OFF'']]\<rparr>"
  using assms by (auto simp: iv_shutdown_def prims split: option.splits)

lemma iv_acquire_Ok:
  assumes "iv_acquire E p s = Ok n s'"
  shows "\<exists>evs cs. step_size p \<noteq> 0 \<and> n = py_int (float_quotient p) + 1
     \<and> length cs = nat n
     \<and> filter (written_to (Keithley p)) evs
         = map (\<lambda>i. set_point (Keithley p) (voltage_at p i)) [0..<nat n]
     \<and> (\<forall>e\<in>set evs. iv_loop_event (Keithley p) e)
     \<and> s' = s\<lparr>trace := trace s @ [Write (Keithley p) [Lit '':OUTP ON'']] @ evs
                          @ [Write (Keithley p) [Lit '':SOUR:VOLT 0''],
                             Write (Keithley p) [Lit '':OUTP OFF'']],
               ticks := Suc (ticks s) + nat n,
               t_values := map (\<lambda>j. clock E (Suc (ticks s) + j) - clock E (ticks s)) [0..<nat n],
               voltage_values := map (voltage_at p) [0..<nat n],
               current_values := cs,
               power_values := map2 (*) (map (voltage_at p) [0..<nat n]) cs\<rparr>"
proof -
  from assms obtain m st s0 u1 s1 u2 where
    b: "iv_begin E p s = Ok (m, st) s0"
    and l: "iv_loop E p st (py_range m) s0 = Ok u1 s1"
    and d: "iv_shutdown E p s1 = Ok u2 s'" and mn: "m = n"
    by (auto simp: iv_acquire_def then_do_Ok)
  note b' = iv_begin_Ok[OF b]
  from iv_loop_Ok[OF l] obtain evs cs where
    len: "length cs = length (py_range m)"
    and wr: "filter (written_to (Keithley p)) evs
         = map (\<lambda>i. set_point (Keithley p) (voltage_at p i)) (py_range m)"
    and ev: "\<forall>e\<in>set evs. iv_loop_event (Keithley p) e"
    and s1: "s1 = s0\<lparr>trace := trace s0 @ evs,
               ticks := ticks s0 + length (py_range m),
               t_values := t_values s0 @ map (\<lambda>j. clock E (ticks s0 + j) - st) [0..<length (py_range m)],
               voltage_values := voltage_values s0 @ map (voltage_at p) (py_range m),
               current_values := current_values s0 @ cs,
               power_values := power_values s0 @ map2 (*) (map (voltage_at p) (py_range m)) cs\<rparr>"
    by blast
  note s' = iv_shutdown_Ok[OF d]
  have "s' = s\<lparr>trace := trace s @ [Write (Keithley p) [Lit '':OUTP ON'']] @ evs
                          @ [Write (Keithley p) [Lit '':SOUR:VOLT 0''],
                             Write (Keithley p) [Lit '':OUTP OFF'']],
               ticks := Suc (ticks s) + nat n,
               t_values := map (\<lambda>j. clock E (Suc (ticks s) + j) - clock E (ticks s)) [0..<nat n],
               voltage_values := map (voltage_at p) [0..<nat n],
               current_values := cs,
               power_values := map2 (*) (map (voltage_at p) [0..<nat n]) cs\<rparr>"
    unfolding s' s1 using b' mn by (simp add: py_range_def)
  with b' len wr ev mn show ?thesis
    by (intro exI[of _ evs] exI[of _ cs]) (simp add: py_range_def)
qed

subsection \<open>The dual-instrument loop\<close>

lemma pv_loop_Ok:
  "pv_loop E p st is s = Ok u s' \<Longrightarrow>
   \<exists>evs cs v1s c1s. length cs = length is \<and> length v1s = length is \<and> length c1s = length is
     \<and> filter (written_to (Volt_Supp_Instr p)) evs
         = map (\<lambda>i. set_point (Volt_Supp_Instr p) (voltage_at p i)) is
     \<and> (\<forall>e\<in>set evs. pv_loop_event (Volt_Supp_Instr p) (Curr_Read_Instr p) e)
     \<and> s' = s\<lparr>trace := trace s @ evs,
               ticks := ticks s + length is,
               t_values := t_values s @ map (\<lambda>j. clock E (ticks s + j) - st) [0..<length is],
               voltage_values := voltage_values s @ map (voltage_at p) is,
               current_values := current_values s @ cs,
               power_values := power_values s @ map2 (*) (map (voltage_at p) is) cs,
               voltage_1_values := voltage_1_values s @ v1s,
               current_1_values := current_1_values s @ c1s,
               power_1_values := power_1_values s @ map2 (*) v1s c1s,
               power_2_values := power_2_values s @ map2 (*) (map (voltage_at p) is) c1s\<rparr>"
proof (induction "is" arbitrary: s)
  case Nil
  then have "s' = s" by simp
  then show ?case
    by (intro exI[of _ "[]"]) simp
next
  case (Cons i rest)
  from Cons.prems obtain s1 where step: "pv_step E p st i s = Ok () s1"
    and rest: "pv_loop E p st rest s1 = Ok u s'"
    by (auto split: result.splits)
  from pv_step_Ok[OF step] obtain r1 r2 r3 where
    s1: "s1 = s\<lparr>trace := trace s @ [set_point (Volt_Supp_Instr p) (voltage_at p i), Sleep (5 / 100),
                                   read_query (Volt_Supp_Instr p), read_query (Curr_Read_Instr p),
                                   read_query (Curr_Read_Instr p)]
                                  @ progress (voltage_at p i) (r3 ! 1),
                ticks := Suc (ticks s),
                t_values := t_values s @ [clock E (ticks s) - st],
                voltage_values := voltage_values s @ [voltage_at p i],
                current_values := current_values s @ [r1 ! 1],
                power_values := power_values s @ [voltage_at p i * (r1 ! 1)],
                voltage_1_values := voltage_1_values s @ [r2 ! 0],
                current_1_values := current_1_values s @ [r3 ! 1],
                power_1_values := power_1_values s @ [(r2 ! 0) * (r3 ! 1)],
                power_2_values := power_2_values s @ [voltage_at p i * (r3 ! 1)]\<rparr>"
    by blast
  from Cons.IH[OF rest] obtain evs cs v1s c1s where
    len: "length cs = length rest" "length v1s = length rest" "length c1s = length rest"
    and wr: "filter (written_to (Volt_Supp_Instr p)) evs
         = map (\<lambda>i. set_point (Volt_Supp_Instr p) (voltage_at p i)) rest"
    and ev: "\<forall>e\<in>set evs. pv_loop_event (Volt_Supp_Instr p) (Curr_Read_Instr p) e"
    and s': "s' = s1\<lparr>trace := trace s1 @ evs,
               ticks := ticks s1 + length rest,
               t_values := t_values s1 @ map (\<lambda>j. clock E (ticks s1 + j) - st) [0..<length rest],
               voltage_values := voltage_values s1 @ map (voltage_at p) rest,
               current_values := current_values s1 @ cs,
               power_values := power_values s1 @ map2 (*) (map (voltage_at p) rest) cs,
               voltage_1_values := voltage_1_values s1 @ v1s,
               current_1_values := current_1_values s1 @ c1s,
               power_1_values := power_1_values s1 @ map2 (*) v1s c1s,
               power_2_values := power_2_values s1 @ map2 (*) (map (voltage_at p) rest) c1s\<rparr>"
    by blast
  let ?evs = "[set_point (Volt_Supp_Instr p) (voltage_at p i), Sleep (5 / 100),
               read_query (Volt_Supp_Instr p), read_query (Curr_Read_Instr p),
               read_query (Curr_Read_Instr p)] @ progress (voltage_at p i) (r3 ! 1) @ evs"
  let ?cs = "(r1 ! 1) # cs"
  let ?v1s = "(r2 ! 0) # v1s"
  let ?c1s = "(r3 ! 1) # c1s"
  have "length ?cs = length (i # rest) \<and> length ?v1s = length (i # rest)
      \<and> length ?c1s = length (i # rest)"
    using len by simp
  moreover have "filter (written_to (Volt_Supp_Instr p)) ?evs
      = map (\<lambda>i. set_point (Volt_Supp_Instr p) (voltage_at p i)) (i # rest)"
    using wr by (simp add: observers)
  moreover have "\<forall>e\<in>set ?evs. pv_loop_event (Volt_Supp_Instr p) (Curr_Read_Instr p) e"
    using ev by (auto simp: observers)
  moreover have "s' = s\<lparr>trace := trace s @ ?evs,
               ticks := ticks s + length (i # rest),
               t_values := t_values s @ map (\<lambda>j. clock E (ticks s + j) - st) [0..<length (i # rest)],
               voltage_values := voltage_values s @ map (voltage_at p) (i # rest),
               current_values := current_values s @ ?cs,
               power_values := power_values s @ map2 (*) (map (voltage_at p) (i # rest)) ?cs,
               voltage_1_values := voltage_1_values s @ ?v1s,
               current_1_values := current_1_values s @ ?c1s,
               power_1_values := power_1_values s @ map2 (*) ?v1s ?c1s,
               power_2_values := power_2_values s @ map2 (*) (map (voltage_at p) (i # rest)) ?c1s\<rparr>"
    unfolding s' s1 by (simp add: clock_map_Suc del: upt_Suc)
  ultimately show ?case
    by (rule_tac x = ?evs in exI, rule_tac x = ?cs in exI, rule_tac x = ?v1s in exI,
        rule_tac x = ?c1s in exI) blast
qed

lemma pv_loop_Raise:
  "pv_loop E p st is s = Raise e s' \<Longrightarrow>
   \<exists>evs. trace s' = trace s @ evs \<and> evs \<noteq> []
     \<and> (\<forall>ev\<in>set evs. pv_loop_event (Volt_Supp_Instr p) (Curr_Read_Instr p) ev)
     \<and> is_instr (last evs)
     \<and> ((\<exists>msg. e = VisaIOError msg) \<or> e = IndexError)
     \<and> files s' = files s"
proof (induction "is" arbitrary: s)
  case Nil
  then show ?case by simp
next
  case (Cons i rest)
  show ?case
  proof (cases "pv_step E p st i s")
    case (Ok u s1)
    with Cons.prems have rest: "pv_loop E p st rest s1 = Raise e s'" by simp
    from pv_step_Ok[OF Ok] obtain c where
      s1: "trace s1 = trace s @ [set_point (Volt_Supp_Instr p) (voltage_at p i), Sleep (5 / 100),
               read_query (Volt_Supp_Instr p), read_query (Curr_Read_Instr p),
               read_query (Curr_Read_Instr p)] @ progress (voltage_at p i) c"
        "files s1 = files s"
      by force
    from Cons.IH[OF rest] obtain evs where evs: "trace s' = trace s1 @ evs" "evs \<noteq> []"
      "\<forall>ev\<in>set evs. pv_loop_event (Volt_Supp_Instr p) (Curr_Read_Instr p) ev" "is_instr (last evs)"
      "(\<exists>msg. e = VisaIOError msg) \<or> e = IndexError" "files s' = files s1"
      by blast
    let ?evs = "[set_point (Volt_Supp_Instr p) (voltage_at p i), Sleep (5 / 100),
               read_query (Volt_Supp_Instr p), read_query (Curr_Read_Instr p),
               read_query (Curr_Read_Instr p)] @ progress (voltage_at p i) c @ evs"
    have "trace s' = trace s @ ?evs" using evs(1) s1(1) by simp
    moreover have "?evs \<noteq> []" by simp
    moreover have "\<forall>ev\<in>set ?evs. pv_loop_event (Volt_Supp_Instr p) (Curr_Read_Instr p) ev"
      using evs(3) by (auto simp: observers)
    moreover have "is_instr (last ?evs)" using evs(2,4) by simp
    ultimately show ?thesis using evs(5,6) s1(2) by (intro exI[of _ ?evs]) simp
  next
    case (Raise e1 s1)
    with Cons.prems have eq: "e1 = e" "s1 = s'" by simp_all
    from pv_step_Raise[OF Raise] eq show ?thesis
      by (elim conjE disjE) (auto simp: observers)
  qed
qed

lemma pv_loop_events:
  "\<exists>evs. trace (final (pv_loop E p st is s)) = trace s @ evs
      \<and> (\<forall>ev\<in>set evs. pv_loop_event (Volt_Supp_Instr p) (Curr_Read_Instr p) ev)"
proof (cases "pv_loop E p st is s")
  case (Ok u s')
  from pv_loop_Ok[OF Ok] show ?thesis using Ok by force
next
  case (Raise e s')
  from pv_loop_Raise[OF Raise] show ?thesis using Raise by force
qed

lemma pv_begin_Ok:
  assumes "pv_begin E p s = Ok (n, st) s0"
  shows "step_size p \<noteq> 0 \<and> n = py_int (float_quotient p) + 1
       \<and> st = clock E (ticks s)
       \<and> s0 = s\<lparr>trace := trace s @ [Write (Volt_Supp_Instr p) [Lit '':OUTP ON''],
                                     Write (Curr_Read_Instr p) [Lit '':OUTP ON''],
                                     Write (Curr_Read_Instr p) [Lit '':SOUR:VOLT '', Str (read_bias p)],
                                     Write (Curr_Read_Instr p) [Lit '':SENS:CURR:PROT '', Str (compliance_read p)]],
                 ticks := Suc (ticks s),
                 t_values := [], voltage_values := [], current_values := [], power_values := [],
                 voltage_1_values := [], current_1_values := [], power_1_values := [],
                 power_2_values := []\<rparr>"
  using assms
  by (auto simp: pv_begin_def count_points_def prims Let_def split: if_splits option.splits)

lemma pv_shutdown_Ok:
  assumes "pv_shutdown E p s = Ok u s'"
  shows "s' = s\<lparr>trace := trace s @ [Write (Volt_Supp_Instr p) [Lit '':SOUR:VOLT 0''],
                                     Write (Curr_Read_Instr p) [Lit '':SOUR:VOLT 0''],
                                     Write (Volt_Supp_Instr p) [Lit '':OUTP OFF''],
                                     Write (Curr_Read_Instr p) [Lit '':OUTP OFF'']]\<rparr>"
  using assms by (auto simp: pv_shutdown_def prims split: option.splits)

lemma pv_acquire_Ok:
  assumes "pv_acquire E p s = Ok n s'"
  shows "\<exists>evs cs v1s c1s. step_size p \<noteq> 0 \<and> n = py_int (float_quotient p) + 1
     \<and> length cs = nat n \<and> length v1s = nat n \<and> length c1s = nat n
     \<and> filter (written_to (Volt_Supp_Instr p)) evs
         = map (\<lambda>i. set_point (Volt_Supp_Instr p) (voltage_at p i)) [0..<nat n]
     \<and> (\<forall>e\<in>set evs. pv_loop_event (Volt_Supp_Instr p) (Curr_Read_Instr p) e)
     \<and> s' = s\<lparr>trace := trace s @ [Write (Volt_Supp_Instr p) [Lit '':OUTP ON''],
                                     Write (Curr_Read_Instr p) [Lit '':OUTP ON''],
                                     Write (Curr_Read_Instr p) [Lit '':SOUR:VOLT '', Str (read_bias p)],
                                     Write (Curr_Read_Instr p) [Lit '':SENS:CURR:PROT '', Str (compliance_read p)]]
                          @ evs
                          @ [Write (Volt_Supp_Instr p) [Lit '':SOUR:VOLT 0''],
                             Write (Curr_Read_Instr p) [Lit '':SOUR:VOLT 0''],
                             Write (Volt_Supp_Instr p) [Lit '':OUTP OFF''],
                             Write (Curr_Read_Instr p) [Lit '':OUTP OFF'']],
               ticks := Suc (ticks s) + nat n,
               t_values := map (\<lambda>j. clock E (Suc (ticks s) + j) - clock E (ticks s)) [0..<nat n],
               voltage_values := map (voltage_at p) [0..<nat n],
               current_values := cs,
               power_values := map2 (*) (map (voltage_at p) [0..<nat n]) cs,
               voltage_1_values := v1s,
               current_1_values := c1s,
               power_1_values := map2 (*) v1s c1s,
               power_2_values := map2 (*) (map (voltage_at p) [0..<nat n]) c1s\<rparr>"
proof -
  from assms obtain m st s0 u1 s1 u2 where
    b: "pv_begin E p s = Ok (m, st) s0"
    and l: "pv_loop E p st (py_range m) s0 = Ok u1 s1"
    and d: "pv_shutdown E p s1 = Ok u2 s'" and mn: "m = n"
    by (auto simp: pv_acquire_def then_do_Ok)
  note b' = pv_begin_Ok[OF b]
  from pv_loop_Ok[OF l] obtain evs cs v1s c1s where
    len: "length cs = length (py_range m)" "length v1s = length (py_range m)"
         "length c1s = length (py_range m)"
    and wr: "filter (written_to (Volt_Supp_Instr p)) evs
         = map (\<lambda>i. set_point (Volt_Supp_Instr p) (voltage_at p i)) (py_range m)"
    and ev: "\<forall>e\<in>set evs. pv_loop_event (Volt_Supp_Instr p) (Curr_Read_Instr p) e"
    and s1: "s1 = s0\<lparr>trace := trace s0 @ evs,
               ticks := ticks s0 + length (py_range m),
               t_values := t_values s0 @ map (\<lambda>j. clock E (ticks s0 + j) - st) [0..<length (py_range m)],
               voltage_values := voltage_values s0 @ map (voltage_at p) (py_range m),
               current_values := current_values s0 @ cs,
               power_values := power_values s0 @ map2 (*) (map (voltage_at p) (py_range m)) cs,
               voltage_1_values := voltage_1_values s0 @ v1s,
               current_1_values := current_1_values s0 @ c1s,
               power_1_values := power_1_values s0 @ map2 (*) v1s c1s,
               power_2_values := power_2_values s0 @ map2 (*) (map (voltage_at p) (py_range m)) c1s\<rparr>"
    by blast
  note s' = pv_shutdown_Ok[OF d]
  have "s' = s\<lparr>trace := trace s @ [Write (Volt_Supp_Instr p) [Lit '':OUTP ON''],
                                     Write (Curr_Read_Instr p) [Lit '':OUTP ON''],
                                     Write (Curr_Read_Instr p) [Lit '':SOUR:VOLT '', Str (read_bias p)],
                                     Write (Curr_Read_Instr p) [Lit '':SENS:CURR:PROT '', Str (compliance_read p)]]
                          @ evs
                          @ [Write (Volt_Supp_Instr p) [Lit '':SOUR:VOLT 0''],
                             Write (Curr_Read_Instr p) [Lit '':SOUR:VOLT 0''],
                             Write (Volt_Supp_Instr p) [Lit '':OUTP OFF''],
                             Write (Curr_Read_Instr p) [Lit '':OUTP OFF'']],
               ticks := Suc (ticks s) + nat n,
               t_values := map (\<lambda>j. clock E (Suc (ticks s) + j) - clock E (ticks s)) [0..<nat n],
               voltage_values := map (voltage_at p) [0..<nat n],
               current_values := cs,
               power_values := map2 (*) (map (voltage_at p) [0..<nat n]) cs,
               voltage_1_values := v1s,
               current_1_values := c1s,
               power_1_values := map2 (*) v1s c1s,
               power_2_values := map2 (*) (map (voltage_at p) [0..<nat n]) c1s\<rparr>"
    unfolding s' s1 using b' mn by (simp add: py_range_def)
  with b' len wr ev mn show ?thesis
    by (rule_tac x = evs in exI, rule_tac x = cs in exI, rule_tac x = v1s in exI,
        rule_tac x = c1s in exI) (simp add: py_range_def)
qed

subsection \<open>Point count and recorded times\<close>








lemma sorted_clock_readings:
  assumes "\<forall>k. clock E k \<le> clock E (Suc k)"
  shows "sorted (map (\<lambda>j. clock E (a + j) - c) [0..<n])"
proof -
  have mono: "clock E i \<le> clock E j" if "i \<le> j" for i j
    by (rule lift_Suc_mono_le[of "clock E", OF _ that]) (simp add: assms)
  have "clock E (a + i) - c \<le> clock E (a + j) - c" if "i < j" for i j
    using mono[of "a + i" "a + j"] that by simp
  then show ?thesis
    by (simp add: sorted_map sorted_wrt_iff_nth_less)
qed

lemma no_write_in_pv_loop:
  assumes "\<forall>e\<in>set evs. pv_loop_event k1 k2 e" "k1 \<noteq> k2"
  shows "filter (written_to k2) evs = []"
    and "\<forall>e\<in>set evs. issued_to k2 e \<longrightarrow> e = read_query k2"
proof -
  have a: "\<not> written_to k2 e \<and> (issued_to k2 e \<longrightarrow> e = read_query k2)"
    if "pv_loop_event k1 k2 e" for e
    using that assms(2)
    by (induction k1 k2 e rule: pv_loop_event.induct) (auto simp: read_query_def)
  with assms(1) show "filter (written_to k2) evs = []"
    by (simp add: filter_empty_conv)
  from a assms(1) show "\<forall>e\<in>set evs. issued_to k2 e \<longrightarrow> e = read_query k2"
    by blast
qed

subsection \<open>After the instruments: file and plot\<close>

lemma off_bus_iff:
  "off_bus r s \<longleftrightarrow> (\<exists>evs. trace (final r) = trace s @ evs \<and> filter is_instr evs = [])"
proof
  assume "off_bus r s"
  then have "trace (final r) = trace s @ drop (length (trace s)) (trace (final r))"
    and "filter is_instr (drop (length (trace s)) (trace (final r))) = []"
    unfolding off_bus_def by (metis append_take_drop_id, simp)
  then show "\<exists>evs. trace (final r) = trace s @ evs \<and> filter is_instr evs = []" by blast
next
  assume "\<exists>evs. trace (final r) = trace s @ evs \<and> filter is_instr evs = []"
  then show "off_bus r s" by (auto simp: off_bus_def)
qed

lemma off_bus_then_do:
  assumes "off_bus r s" "\<And>a s1. r = Ok a s1 \<Longrightarrow> off_bus (f a s1) s1"
  shows "off_bus (then_do r f) s"
proof (cases r)
  case (Ok a s1)
  from assms(1) Ok obtain evs where 1: "trace s1 = trace s @ evs" "filter is_instr evs = []"
    by (auto simp: off_bus_iff)
  from assms(2)[OF Ok] obtain evs' where
    2: "trace (final (f a s1)) = trace s1 @ evs'" "filter is_instr evs' = []"
    by (auto simp: off_bus_iff)
  from 1 2 have "trace (final (then_do r f)) = trace s @ (evs @ evs')"
    "filter is_instr (evs @ evs') = []"
    using Ok by simp_all
  then show ?thesis unfolding off_bus_iff by blast
next
  case (Raise e s1)
  with assms(1) show ?thesis by (simp add: off_bus_def)
qed

lemma off_bus_prims:
  "off_bus (input E prompt s) s"
  "off_bus (open_w E path s) s"
  "off_bus (f_write path txt s) s"
  "off_bus (print txt s) s"
  "off_bus (getitem xs i s) s"
  "off_bus (show_plot xs ys s) s"
  by (auto simp: off_bus_def input_def open_w_def f_write_def print_def getitem_def show_plot_def
      emit_def split: option.splits)

lemma off_bus_write_all: "off_bus (write_all path ls s) s"
proof (induction ls arbitrary: s)
  case Nil
  show ?case by (simp add: off_bus_def)
next
  case (Cons l ls)
  show ?case by (simp, intro off_bus_then_do off_bus_prims Cons.IH)
qed

lemma off_bus_iv_row: "off_bus (iv_row path i s) s"
  unfolding iv_row_def by (intro off_bus_then_do off_bus_prims)

lemma off_bus_pv_row: "off_bus (pv_row path i s) s"
  unfolding pv_row_def by (intro off_bus_then_do off_bus_prims)

lemma off_bus_case:
  assumes "off_bus r s" "\<And>a s1. r = Ok a s1 \<Longrightarrow> off_bus (f s1) s1"
  shows "off_bus (case r of Ok a s1 \<Rightarrow> f s1 | Raise e s1 \<Rightarrow> Raise e s1) s"
proof -
  have "(case r of Ok a s1 \<Rightarrow> f s1 | Raise e s1 \<Rightarrow> Raise e s1) = then_do r (\<lambda>a s1. f s1)"
    by (cases r) simp_all
  with off_bus_then_do[OF assms(1), of "\<lambda>a s1. f s1"] assms(2) show ?thesis by simp
qed

lemma off_bus_iv_rows: "off_bus (iv_rows path is s) s"
proof (induction "is" arbitrary: s)
  case Nil
  show ?case by (simp add: off_bus_def)
next
  case (Cons i rest)
  show ?case by (simp, intro off_bus_case off_bus_iv_row Cons.IH)
qed

lemma off_bus_pv_rows: "off_bus (pv_rows path is s) s"
proof (induction "is" arbitrary: s)
  case Nil
  show ?case by (simp add: off_bus_def)
next
  case (Cons i rest)
  show ?case by (simp, intro off_bus_case off_bus_pv_row Cons.IH)
qed

lemma off_bus_iv_tail:
  "off_bus (then_do (iv_persist E n s) (\<lambda>_ s. show_plot (voltage_values s) (map abs (current_values s)) s)) s"
  unfolding iv_persist_def Let_def
  by (intro off_bus_then_do off_bus_prims off_bus_write_all off_bus_iv_rows)

lemma off_bus_pv_tail:
  "off_bus (then_do (pv_persist E n s) (\<lambda>_ s. show_plot (voltage_values s) (map abs (current_1_values s)) s)) s"
  unfolding pv_persist_def Let_def
  by (intro off_bus_then_do off_bus_prims off_bus_write_all off_bus_pv_rows)

lemma issued_is_instr: "issued_to h e \<Longrightarrow> is_instr e"
  by (cases e) auto

lemma off_bus_issued:
  assumes "filter is_instr evs = []"
  shows "filter (issued_to h) evs = []"
  using assms issued_is_instr by (auto simp: filter_empty_conv)

subsection \<open>The contents of the file\<close>


lemma iv_line_frame [simp]:
  "iv_line (s\<lparr>files := f\<rparr>) = iv_line s" "iv_line (s\<lparr>trace := t\<rparr>) = iv_line s"
  by (simp_all add: iv_line_def fun_eq_iff)

lemma pv_line_frame [simp]:
  "pv_line (s\<lparr>files := f\<rparr>) = pv_line s" "pv_line (s\<lparr>trace := t\<rparr>) = pv_line s"
  by (simp_all add: pv_line_def fun_eq_iff)





subsection \<open>The initializers\<close>

lemma open_and_identify_Ok:
  assumes "open_and_identify E name s = Ok k s'"
  shows "k = name \<and> (\<exists>idn. s' = s\<lparr>trace := trace s @
      [Print [Lit ''----------RESOURCES-------------''], ListResources,
       Print [Tup (list_resources_result E)], Print [Lit nl], OpenResource name,
       Print [Lit ''----------INSTRUMENT-------------''], Query name [Lit ''*IDN?''],
       Print [Lit idn], Print [Lit nl]]\<rparr>)"
  using assms
  by (auto simp: open_and_identify_def resource_manager_def list_resources_def open_resource_def
      instr_query_def print_def emit_def split: option.splits sum.splits)

lemma initialize_Keithley_pv_writes:
  assumes "initialize_Keithley_pv E name compliance s = Ok k s'"
  shows "k = name \<and> filter (written_to k) (emitted s s') =
     [Write k [Lit ''*rst; status:preset;''],
      Write k [Lit '':SOUR:FUNC VOLT''],
      Write k [Lit '':SOUR:VOLT 0''],
      Write k [Lit '':SENS:CURR:PROT '', Str compliance],
      Write k [Lit '':SENS:CURR:RANG:AUTO ON''],
      Write k [Lit ('':SENS:FUNC '' @ [CHR 0x22] @ ''CURR'' @ [CHR 0x22])]]"
proof -
  from assms obtain k0 s0 where o: "open_and_identify E name s = Ok k0 s0"
    and w: "then_do (instr_write E k0 [Lit ''*rst; status:preset;''] s0) (\<lambda>_ s.
     then_do (instr_write E k0 [Lit '':SOUR:FUNC VOLT''] s) (\<lambda>_ s.
     then_do (instr_write E k0 [Lit '':SOUR:VOLT 0''] s) (\<lambda>_ s.
     then_do (instr_write E k0 [Lit '':SENS:CURR:PROT '', Str compliance] s) (\<lambda>_ s.
     then_do (instr_write E k0 [Lit '':SENS:CURR:RANG:AUTO ON''] s) (\<lambda>_ s.
     then_do (instr_write E k0 [Lit ('':SENS:FUNC '' @ [CHR 0x22] @ ''CURR'' @ [CHR 0x22])] s) (\<lambda>_ s.
     Ok k0 s)))))) = Ok k s'"
    by (auto simp: initialize_Keithley_pv_def then_do_Ok)
  from open_and_identify_Ok[OF o] obtain idn where k0: "k0 = name"
    and s0: "s0 = s\<lparr>trace := trace s @
      [Print [Lit ''----------RESOURCES-------------''], ListResources,
       Print [Tup (list_resources_result E)], Print [Lit nl], OpenResource name,
       Print [Lit ''----------INSTRUMENT-------------''], Query name [Lit ''*IDN?''],
       Print [Lit idn], Print [Lit nl]]\<rparr>"
    by blast
  from w have "k = k0 \<and> trace s' = trace s0 @
     [Write k [Lit ''*rst; status:preset;''],
      Write k [Lit '':SOUR:FUNC VOLT''],
      Write k [Lit '':SOUR:VOLT 0''],
      Write k [Lit '':SENS:CURR:PROT '', Str compliance],
      Write k [Lit '':SENS:CURR:RANG:AUTO ON''],
      Write k [Lit ('':SENS:FUNC '' @ [CHR 0x22] @ ''CURR'' @ [CHR 0x22])]]"
    by (auto simp: instr_write_def emit_def then_do_Ok split: option.splits)
  then have k: "k = name" and "emitted s s' =
      [Print [Lit ''----------RESOURCES-------------''], ListResources,
       Print [Tup (list_resources_result E)], Print [Lit nl], OpenResource name,
       Print [Lit ''----------INSTRUMENT-------------''], Query name [Lit ''*IDN?''],
       Print [Lit idn], Print [Lit nl]] @
     [Write k [Lit ''*rst; status:preset;''],
      Write k [Lit '':SOUR:FUNC VOLT''],
      Write k [Lit '':SOUR:VOLT 0''],
      Write k [Lit '':SENS:CURR:PROT '', Str compliance],
      Write k [Lit '':SENS:CURR:RANG:AUTO ON''],
      Write k [Lit ('':SENS:FUNC '' @ [CHR 0x22] @ ''CURR'' @ [CHR 0x22])]]"
    using k0 s0 by (simp_all add: emitted_def)
  then show ?thesis by simp
qed

lemma iv_step_compliance:
  "iv_step E (p\<lparr>compliance_current := c\<rparr>) st i s = iv_step E p st i s"
  by (simp add: iv_step_def voltage_at_def)

lemma iv_loop_compliance:
  "iv_loop E (p\<lparr>compliance_current := c\<rparr>) st is s = iv_loop E p st is s"
  by (induction "is" arbitrary: s) (simp_all add: iv_step_compliance split: result.splits)

subsection \<open>Operations that fail on the bus\<close>

lemma iv_step_write_fails:
  assumes "write_result E (trace s) (Keithley p) [Lit '':SOUR:VOLT '', Str (voltage_at p i)] = Some msg"
  shows "iv_step E p st i s =
           Raise (VisaIOError msg) (s\<lparr>trace := trace s @ [set_point (Keithley p) (voltage_at p i)]\<rparr>)"
  using assms by (simp add: iv_step_def prims observers Let_def)

lemma iv_step_read_fails:
  assumes "write_result E (trace s) (Keithley p) [Lit '':SOUR:VOLT '', Str (voltage_at p i)] = None"
    and "ascii_result E (trace s @ [set_point (Keithley p) (voltage_at p i), Sleep (5 / 100)])
           (Keithley p) [Lit '':READ?''] = Inl msg"
  shows "iv_step E p st i s =
           Raise (VisaIOError msg)
             (s\<lparr>trace := trace s @ [set_point (Keithley p) (voltage_at p i), Sleep (5 / 100),
                                     read_query (Keithley p)],
                ticks := Suc (ticks s)\<rparr>)"
  using assms by (simp add: iv_step_def prims observers Let_def)

lemma pv_step_write_fails:
  assumes "write_result E (trace s) (Volt_Supp_Instr p) [Lit '':SOUR:VOLT '', Str (voltage_at p i)] = Some msg"
  shows "pv_step E p st i s =
           Raise (VisaIOError msg) (s\<lparr>trace := trace s @ [set_point (Volt_Supp_Instr p) (voltage_at p i)]\<rparr>)"
  using assms by (simp add: pv_step_def prims observers Let_def)

lemma pv_step_read_fails:
  assumes "write_result E (trace s) (Volt_Supp_Instr p) [Lit '':SOUR:VOLT '', Str (voltage_at p i)] = None"
    and "ascii_result E (trace s @ [set_point (Volt_Supp_Instr p) (voltage_at p i), Sleep (5 / 100)])
           (Volt_Supp_Instr p) [Lit '':READ?''] = Inl msg"
  shows "pv_step E p st i s =
           Raise (VisaIOError msg)
             (s\<lparr>trace := trace s @ [set_point (Volt_Supp_Instr p) (voltage_at p i), Sleep (5 / 100),
                                     read_query (Volt_Supp_Instr p)],
                ticks := Suc (ticks s)\<rparr>)"
  using assms by (simp add: pv_step_def prims observers Let_def)

lemma pv_step_read_1_fails:
  assumes "write_result E (trace s) (Volt_Supp_Instr p) [Lit '':SOUR:VOLT '', Str (voltage_at p i)] = None"
    and "ascii_result E (trace s @ [set_point (Volt_Supp_Instr p) (voltage_at p i), Sleep (5 / 100)])
           (Volt_Supp_Instr p) [Lit '':READ?''] = Inr r1" "1 < length r1"
    and "ascii_result E (trace s @ [set_point (Volt_Supp_Instr p) (voltage_at p i), Sleep (5 / 100),
                                    read_query (Volt_Supp_Instr p)])
           (Curr_Read_Instr p) [Lit '':READ?''] = Inl msg"
  shows "pv_step E p st i s =
           Raise (VisaIOError msg)
             (s\<lparr>trace := trace s @ [set_point (Volt_Supp_Instr p) (voltage_at p i), Sleep (5 / 100),
                                     read_query (Volt_Supp_Instr p), read_query (Curr_Read_Instr p)],
                ticks := Suc (ticks s)\<rparr>)"
  using assms by (simp add: pv_step_def prims observers Let_def)

lemma pv_step_read_2_fails:
  assumes "write_result E (trace s) (Volt_Supp_Instr p) [Lit '':SOUR:VOLT '', Str (voltage_at p i)] = None"
    and "ascii_result E (trace s @ [set_point (Volt_Supp_Instr p) (voltage_at p i), Sleep (5 / 100)])
           (Volt_Supp_Instr p) [Lit '':READ?''] = Inr r1" "1 < length r1"
    and "ascii_result E (trace s @ [set_point (Volt_Supp_Instr p) (voltage_at p i), Sleep (5 / 100),
                                    read_query (Volt_Supp_Instr p)])
           (Curr_Read_Instr p) [Lit '':READ?''] = Inr r2" "r2 \<noteq> []"
    and "ascii_result E (trace s @ [set_point (Volt_Supp_Instr p) (voltage_at p i), Sleep (5 / 100),
                                    read_query (Volt_Supp_Instr p), read_query (Curr_Read_Instr p)])
           (Curr_Read_Instr p) [Lit '':READ?''] = Inl msg"
  shows "pv_step E p st i s =
           Raise (VisaIOError msg)
             (s\<lparr>trace := trace s @ [set_point (Volt_Supp_Instr p) (voltage_at p i), Sleep (5 / 100),
                                     read_query (Volt_Supp_Instr p), read_query (Curr_Read_Instr p),
                                     read_query (Curr_Read_Instr p)],
                ticks := Suc (ticks s)\<rparr>)"
  using assms by (simp add: pv_step_def prims observers Let_def)

lemma iv_loop_append:
  "iv_loop E p st (xs @ ys) s =
     (case iv_loop E p st xs s of Ok _ s' \<Rightarrow> iv_loop E p st ys s' | Raise e s' \<Rightarrow> Raise e s')"
  by (induction xs arbitrary: s) (auto split: result.splits)

lemma pv_loop_append:
  "pv_loop E p st (xs @ ys) s =
     (case pv_loop E p st xs s of Ok _ s' \<Rightarrow> pv_loop E p st ys s' | Raise e s' \<Rightarrow> Raise e s')"
  by (induction xs arbitrary: s) (auto split: result.splits)

lemma upt_split: "k < n \<Longrightarrow> [0..<n] = [0..<k] @ k # [Suc k..<n]"
proof -
  assume k: "k < n"
  from upt_add_eq_append[of 0 k "n - k"] k have "[0..<n] = [0..<k] @ [k..<n]" by simp
  with k show ?thesis by (simp add: upt_conv_Cons)
qed

lemma iv_fails_at:
  assumes b: "iv_begin E p s = Ok (n, st) s0" and k: "k < nat n"
    and l: "iv_loop E p st [0..<k] s0 = Ok u sk" and f: "iv_step E p st k sk = Raise e x"
  shows "iv_loop E p st (py_range n) s0 = Raise e x"
    and "Keithley_VOLTAGE_SWEEP_iv E p s = Raise e x"
proof -
  show 1: "iv_loop E p st (py_range n) s0 = Raise e x"
    unfolding py_range_def upt_split[OF k] iv_loop_append by (simp add: l f)
  show "Keithley_VOLTAGE_SWEEP_iv E p s = Raise e x"
    by (simp add: Keithley_VOLTAGE_SWEEP_iv_def iv_acquire_def b 1)
qed

lemma pv_fails_at:
  assumes b: "pv_begin E p s = Ok (n, st) s0" and k: "k < nat n"
    and l: "pv_loop E p st [0..<k] s0 = Ok u sk" and f: "pv_step E p st k sk = Raise e x"
  shows "pv_loop E p st (py_range n) s0 = Raise e x"
    and "Keithley_VOLTAGE_SWEEP_pv E p s = Raise e x"
proof -
  show 1: "pv_loop E p st (py_range n) s0 = Raise e x"
    unfolding py_range_def upt_split[OF k] pv_loop_append by (simp add: l f)
  show "Keithley_VOLTAGE_SWEEP_pv E p s = Raise e x"
    by (simp add: Keithley_VOLTAGE_SWEEP_pv_def pv_acquire_def b 1)
qed

lemma iv_loop_event_render:
  "iv_loop_event k (Write h c) \<Longrightarrow> render fmt c \<noteq> '':OUTP OFF''"
  by (induction k "Write h c" rule: iv_loop_event.induct) auto

lemma pv_loop_event_render:
  "pv_loop_event k1 k2 (Write h c) \<Longrightarrow> render fmt c \<noteq> '':OUTP OFF''"
  by (induction k1 k2 "Write h c" rule: pv_loop_event.induct) auto

subsection \<open>The set-points of a sweep\<close>




subsection \<open>A sweep that fails in its loop\<close>

lemma iv_prefix:
  assumes b: "iv_begin E p s = Ok (n, st) s0" and l: "iv_loop E p st is s0 = Ok u sk"
  shows "\<exists>evs. trace sk = trace s @ Write (Keithley p) [Lit '':OUTP ON''] # evs
      \<and> filter (written_to (Keithley p)) evs = map (\<lambda>i. set_point (Keithley p) (voltage_at p i)) is
      \<and> (\<forall>e\<in>set evs. iv_loop_event (Keithley p) e)"
proof -
  from iv_begin_Ok[OF b] have t0: "trace s0 = trace s @ [Write (Keithley p) [Lit '':OUTP ON'']]"
    by simp
  from iv_loop_Ok[OF l] obtain evs where
    "filter (written_to (Keithley p)) evs = map (\<lambda>i. set_point (Keithley p) (voltage_at p i)) is"
    "\<forall>e\<in>set evs. iv_loop_event (Keithley p) e" "trace sk = trace s0 @ evs"
    by force
  with t0 show ?thesis by (intro exI[of _ evs]) simp
qed

lemma pv_prefix:
  assumes b: "pv_begin E p s = Ok (n, st) s0" and l: "pv_loop E p st is s0 = Ok u sk"
  shows "\<exists>evs. trace sk = trace s @
          [Write (Volt_Supp_Instr p) [Lit '':OUTP ON''],
           Write (Curr_Read_Instr p) [Lit '':OUTP ON''],
           Write (Curr_Read_Instr p) [Lit '':SOUR:VOLT '', Str (read_bias p)],
           Write (Curr_Read_Instr p) [Lit '':SENS:CURR:PROT '', Str (compliance_read p)]] @ evs
      \<and> filter (written_to (Volt_Supp_Instr p)) evs
          = map (\<lambda>i. set_point (Volt_Supp_Instr p) (voltage_at p i)) is
      \<and> (\<forall>e\<in>set evs. pv_loop_event (Volt_Supp_Instr p) (Curr_Read_Instr p) e)"
proof -
  from pv_begin_Ok[OF b] have t0: "trace s0 = trace s @
          [Write (Volt_Supp_Instr p) [Lit '':OUTP ON''],
           Write (Curr_Read_Instr p) [Lit '':OUTP ON''],
           Write (Curr_Read_Instr p) [Lit '':SOUR:VOLT '', Str (read_bias p)],
           Write (Curr_Read_Instr p) [Lit '':SENS:CURR:PROT '', Str (compliance_read p)]]"
    by simp
  from pv_loop_Ok[OF l] obtain evs where
    "filter (written_to (Volt_Supp_Instr p)) evs
          = map (\<lambda>i. set_point (Volt_Supp_Instr p) (voltage_at p i)) is"
    "\<forall>e\<in>set evs. pv_loop_event (Volt_Supp_Instr p) (Curr_Read_Instr p) e" "trace sk = trace s0 @ evs"
    by force
  with t0 show ?thesis by (intro exI[of _ evs]) simp
qed

lemma no_off_iv:
  assumes "\<forall>ev\<in>set evs. iv_loop_event k ev"
  shows "\<forall>fmt h c. Write h c \<in> set (Write k' [Lit '':OUTP ON''] # evs) \<longrightarrow> render fmt c \<noteq> '':OUTP OFF''"
proof (intro allI impI)
  fix fmt h c
  assume "Write h c \<in> set (Write k' [Lit '':OUTP ON''] # evs)"
  then consider "c = [Lit '':OUTP ON'']" | "Write h c \<in> set evs" by auto
  then show "render fmt c \<noteq> '':OUTP OFF''"
  proof cases
    case 1
    then show ?thesis by simp
  next
    case 2
    with assms have "iv_loop_event k (Write h c)" by blast
    then show ?thesis by (rule iv_loop_event_render)
  qed
qed

lemma no_off_pv:
  assumes "\<forall>ev\<in>set evs. pv_loop_event k1 k2 ev"
  shows "\<forall>fmt h c. Write h c \<in> set ([Write a [Lit '':OUTP ON''], Write b [Lit '':OUTP ON''],
                                       Write b [Lit '':SOUR:VOLT '', Str v],
                                       Write b [Lit '':SENS:CURR:PROT '', Str w]] @ evs)
           \<longrightarrow> render fmt c \<noteq> '':OUTP OFF''"
proof (intro allI impI)
  fix fmt h c
  assume "Write h c \<in> set ([Write a [Lit '':OUTP ON''], Write b [Lit '':OUTP ON''],
                            Write b [Lit '':SOUR:VOLT '', Str v],
                            Write b [Lit '':SENS:CURR:PROT '', Str w]] @ evs)"
  then consider "c = [Lit '':OUTP ON'']" | "c = [Lit '':SOUR:VOLT '', Str v]"
    | "c = [Lit '':SENS:CURR:PROT '', Str w]" | "Write h c \<in> set evs" by auto
  then show "render fmt c \<noteq> '':OUTP OFF''"
  proof cases
    case 1
    then show ?thesis by simp
  next
    case 2
    then show ?thesis by simp
  next
    case 3
    then show ?thesis by simp
  next
    case 4
    with assms have "pv_loop_event k1 k2 (Write h c)" by blast
    then show ?thesis by (rule pv_loop_event_render)
  qed
qed

lemma iv_failed_run:
  assumes b: "iv_begin E p s = Ok (n, st) s0" and k: "k < nat n"
    and l: "iv_loop E p st [0..<k] s0 = Ok u sk" and f: "iv_step E p st k sk = Raise e x"
  shows "Keithley_VOLTAGE_SWEEP_iv E p s = Raise e x"
    and "filter (written_to (Keithley p)) (emitted s x)
           = Write (Keithley p) [Lit '':OUTP ON'']
             # map (\<lambda>i. set_point (Keithley p) (voltage_at p i)) [0..<Suc k]"
    and "\<forall>fmt h c. Write h c \<in> set (emitted s x) \<longrightarrow> render fmt c \<noteq> '':OUTP OFF''"
proof -
  let ?K = "Keithley p"
  show "Keithley_VOLTAGE_SWEEP_iv E p s = Raise e x"
    by (rule iv_fails_at(2)[OF b k l f])
  from iv_prefix[OF b l] obtain evs where
    tr: "trace sk = trace s @ Write ?K [Lit '':OUTP ON''] # evs"
    and wr: "filter (written_to ?K) evs = map (\<lambda>i. set_point ?K (voltage_at p i)) [0..<k]"
    and ev: "\<forall>e\<in>set evs. iv_loop_event ?K e"
    by blast
  from iv_step_Raise[OF f] obtain tail where
    tl: "trace x = trace sk @ tail" "filter (written_to ?K) tail = [set_point ?K (voltage_at p k)]"
      "\<forall>e\<in>set tail. iv_loop_event ?K e"
    by (elim conjE disjE) (auto simp: observers)
  have em: "emitted s x = Write ?K [Lit '':OUTP ON''] # (evs @ tail)"
    by (rule emitted_append) (simp add: tl(1) tr)
  show "filter (written_to ?K) (emitted s x)
           = Write ?K [Lit '':OUTP ON''] # map (\<lambda>i. set_point ?K (voltage_at p i)) [0..<Suc k]"
    unfolding em by (simp add: wr tl(2))
  from ev tl(3) have "\<forall>e\<in>set (evs @ tail). iv_loop_event ?K e" by auto
  from no_off_iv[OF this] show "\<forall>fmt h c. Write h c \<in> set (emitted s x) \<longrightarrow> render fmt c \<noteq> '':OUTP OFF''"
    unfolding em .
qed

lemma pv_failed_run:
  assumes b: "pv_begin E p s = Ok (n, st) s0" and k: "k < nat n"
    and l: "pv_loop E p st [0..<k] s0 = Ok u sk" and f: "pv_step E p st k sk = Raise e x"
    and ne: "Volt_Supp_Instr p \<noteq> Curr_Read_Instr p"
  shows "Keithley_VOLTAGE_SWEEP_pv E p s = Raise e x"
    and "filter (written_to (Volt_Supp_Instr p)) (emitted s x)
           = Write (Volt_Supp_Instr p) [Lit '':OUTP ON'']
             # map (\<lambda>i. set_point (Volt_Supp_Instr p) (voltage_at p i)) [0..<Suc k]"
    and "filter (written_to (Curr_Read_Instr p)) (emitted s x)
           = [Write (Curr_Read_Instr p) [Lit '':OUTP ON''],
              Write (Curr_Read_Instr p) [Lit '':SOUR:VOLT '', Str (read_bias p)],
              Write (Curr_Read_Instr p) [Lit '':SENS:CURR:PROT '', Str (compliance_read p)]]"
    and "\<forall>fmt h c. Write h c \<in> set (emitted s x) \<longrightarrow> render fmt c \<noteq> '':OUTP OFF''"
proof -
  let ?P = "Volt_Supp_Instr p"
  let ?S = "Curr_Read_Instr p"
  let ?pre = "[Write ?P [Lit '':OUTP ON''], Write ?S [Lit '':OUTP ON''],
               Write ?S [Lit '':SOUR:VOLT '', Str (read_bias p)],
               Write ?S [Lit '':SENS:CURR:PROT '', Str (compliance_read p)]]"
  show "Keithley_VOLTAGE_SWEEP_pv E p s = Raise e x"
    by (rule pv_fails_at(2)[OF b k l f])
  from pv_prefix[OF b l] obtain evs where
    tr: "trace sk = trace s @ ?pre @ evs"
    and wr: "filter (written_to ?P) evs = map (\<lambda>i. set_point ?P (voltage_at p i)) [0..<k]"
    and ev: "\<forall>e\<in>set evs. pv_loop_event ?P ?S e"
    by blast
  from pv_step_Raise[OF f] obtain tail where
    tl: "trace x = trace sk @ tail" "filter (written_to ?P) tail = [set_point ?P (voltage_at p k)]"
      "\<forall>e\<in>set tail. pv_loop_event ?P ?S e"
    by (elim conjE disjE) (auto simp: observers)
  have em: "emitted s x = ?pre @ (evs @ tail)"
    by (rule emitted_append) (simp add: tl(1) tr)
  from ev tl(3) have all: "\<forall>e\<in>set (evs @ tail). pv_loop_event ?P ?S e" by auto
  show "filter (written_to ?P) (emitted s x)
           = Write ?P [Lit '':OUTP ON''] # map (\<lambda>i. set_point ?P (voltage_at p i)) [0..<Suc k]"
    unfolding em using ne by (simp add: wr tl(2))
  from no_write_in_pv_loop(1)[OF all ne]
  show "filter (written_to ?S) (emitted s x)
           = [Write ?S [Lit '':OUTP ON''], Write ?S [Lit '':SOUR:VOLT '', Str (read_bias p)],
              Write ?S [Lit '':SENS:CURR:PROT '', Str (compliance_read p)]]"
    unfolding em using ne by simp
  from no_off_pv[OF all] show "\<forall>fmt h c. Write h c \<in> set (emitted s x) \<longrightarrow> render fmt c \<noteq> '':OUTP OFF''"
    unfolding em .
qed

section \<open>The claims\<close>

text \<open>
  C4. In the dual-instrument engine an iteration that completes adds, in this order, the
  set-point write to the primary, the settle delay, one reading of the primary, and two
  separate readings of the secondary (then the progress line, at a whole voltage). The
  primary current is element 1 of the first answer, the secondary voltage element 0 of
  the second and the secondary current element 1 of the third; the three powers are
  swept voltage times primary current, secondary voltage times secondary current and
  swept voltage times secondary current. All eight lists grow by exactly this one
  sample.
\<close>

theorem dual_iteration_sample:
  assumes "pv_step E p st i s = Ok u s'"
  shows "\<exists>r1 r2 r3.
      emitted s s' = [set_point (Volt_Supp_Instr p) (voltage_at p i), Sleep (5 / 100),
                      read_query (Volt_Supp_Instr p), read_query (Curr_Read_Instr p),
                      read_query (Curr_Read_Instr p)] @ progress (voltage_at p i) (r3 ! 1)
    \<and> ascii_result E (trace s @ [set_point (Volt_Supp_Instr p) (voltage_at p i), Sleep (5 / 100)])
         (Volt_Supp_Instr p) [Lit '':READ?''] = Inr r1
    \<and> ascii_result E (trace s @ [set_point (Volt_Supp_Instr p) (voltage_at p i), Sleep (5 / 100),
                                 read_query (Volt_Supp_Instr p)])
         (Curr_Read_Instr p) [Lit '':READ?''] = Inr r2
    \<and> ascii_result E (trace s @ [set_point (Volt_Supp_Instr p) (voltage_at p i), Sleep (5 / 100),
                                 read_query (Volt_Supp_Instr p), read_query (Curr_Read_Instr p)])
         (Curr_Read_Instr p) [Lit '':READ?''] = Inr r3
    \<and> t_values s' = t_values s @ [clock E (ticks s) - st]
    \<and> voltage_values s' = voltage_values s @ [voltage_at p i]
    \<and> current_values s' = current_values s @ [r1 ! 1]
    \<and> power_values s' = power_values s @ [voltage_at p i * (r1 ! 1)]
    \<and> voltage_1_values s' = voltage_1_values s @ [r2 ! 0]
    \<and> current_1_values s' = current_1_values s @ [r3 ! 1]
    \<and> power_1_values s' = power_1_values s @ [(r2 ! 0) * (r3 ! 1)]
    \<and> power_2_values s' = power_2_values s @ [voltage_at p i * (r3 ! 1)]"
proof -
  from pv_step_Ok[OF assms] obtain r1 r2 r3 where
    r: "ascii_result E (trace s @ [set_point (Volt_Supp_Instr p) (voltage_at p i), Sleep (5 / 100)])
           (Volt_Supp_Instr p) [Lit '':READ?''] = Inr r1"
       "ascii_result E (trace s @ [set_point (Volt_Supp_Instr p) (voltage_at p i), Sleep (5 / 100),
                                   read_query (Volt_Supp_Instr p)])
           (Curr_Read_Instr p) [Lit '':READ?''] = Inr r2"
       "ascii_result E (trace s @ [set_point (Volt_Supp_Instr p) (voltage_at p i), Sleep (5 / 100),
                                   read_query (Volt_Supp_Instr p), read_query (Curr_Read_Instr p)])
           (Curr_Read_Instr p) [Lit '':READ?''] = Inr r3"
    and s': "s' = s\<lparr>trace := trace s @ [set_point (Volt_Supp_Instr p) (voltage_at p i), Sleep (5 / 100),
                                   read_query (Volt_Supp_Instr p), read_query (Curr_Read_Instr p),
                                   read_query (Curr_Read_Instr p)]
                                  @ progress (voltage_at p i) (r3 ! 1),
                ticks := Suc (ticks s),
                t_values := t_values s @ [clock E (ticks s) - st],
                voltage_values := voltage_values s @ [voltage_at p i],
                current_values := current_values s @ [r1 ! 1],
                power_values := power_values s @ [voltage_at p i * (r1 ! 1)],
                voltage_1_values := voltage_1_values s @ [r2 ! 0],
                current_1_values := current_1_values s @ [r3 ! 1],
                power_1_values := power_1_values s @ [(r2 ! 0) * (r3 ! 1)],
                power_2_values := power_2_values s @ [voltage_at p i * (r3 ! 1)]\<rparr>"
    by blast
  have "emitted s s' = [set_point (Volt_Supp_Instr p) (voltage_at p i), Sleep (5 / 100),
                      read_query (Volt_Supp_Instr p), read_query (Curr_Read_Instr p),
                      read_query (Curr_Read_Instr p)] @ progress (voltage_at p i) (r3 ! 1)"
    by (rule emitted_append) (simp add: s')
  with r show ?thesis
    by (intro exI[of _ r1] exI[of _ r2] exI[of _ r3]) (simp add: s')
qed

theorem dual_iteration_sample_witness:
  "\<exists>s'. pv_step bench pv_example 0 1 idle_pv = Ok () s'
      \<and> (\<exists>r1 r2 r3.
      emitted idle_pv s' = [set_point (Volt_Supp_Instr pv_example) (voltage_at pv_example 1), Sleep (5 / 100),
                      read_query (Volt_Supp_Instr pv_example), read_query (Curr_Read_Instr pv_example),
                      read_query (Curr_Read_Instr pv_example)] @ progress (voltage_at pv_example 1) (r3 ! 1)
    \<and> r1 = [2, 2 / 1000] \<and> r2 = [3, 3 / 1000] \<and> r3 = [4, 4 / 1000]
    \<and> t_values s' = [0]
    \<and> voltage_values s' = [1 / 2]
    \<and> current_values s' = [r1 ! 1]
    \<and> power_values s' = [1 / 2 * (r1 ! 1)]
    \<and> voltage_1_values s' = [r2 ! 0]
    \<and> current_1_values s' = [r3 ! 1]
    \<and> power_1_values s' = [(r2 ! 0) * (r3 ! 1)]
    \<and> power_2_values s' = [1 / 2 * (r3 ! 1)])"
proof -
  have "\<exists>s'. pv_step bench pv_example 0 1 idle_pv = Ok () s'"
    by (simp add: pv_step_def prims bench_simps)
  then obtain s' where h: "pv_step bench pv_example 0 1 idle_pv = Ok () s'" ..
  from dual_iteration_sample[OF h] obtain r1 r2 r3 where
    "emitted idle_pv s' = [set_point (Volt_Supp_Instr pv_example) (voltage_at pv_example 1), Sleep (5 / 100),
                      read_query (Volt_Supp_Instr pv_example), read_query (Curr_Read_Instr pv_example),
                      read_query (Curr_Read_Instr pv_example)] @ progress (voltage_at pv_example 1) (r3 ! 1)
    \<and> ascii_result bench (trace idle_pv @ [set_point (Volt_Supp_Instr pv_example) (voltage_at pv_example 1), Sleep (5 / 100)])
         (Volt_Supp_Instr pv_example) [Lit '':READ?''] = Inr r1
    \<and> ascii_result bench (trace idle_pv @ [set_point (Volt_Supp_Instr pv_example) (voltage_at pv_example 1), Sleep (5 / 100),
                                 read_query (Volt_Supp_Instr pv_example)])
         (Curr_Read_Instr pv_example) [Lit '':READ?''] = Inr r2
    \<and> ascii_result bench (trace idle_pv @ [set_point (Volt_Supp_Instr pv_example) (voltage_at pv_example 1), Sleep (5 / 100),
                                 read_query (Volt_Supp_Instr pv_example), read_query (Curr_Read_Instr pv_example)])
         (Curr_Read_Instr pv_example) [Lit '':READ?''] = Inr r3
    \<and> t_values s' = t_values idle_pv @ [clock bench (ticks idle_pv) - 0]
    \<and> voltage_values s' = voltage_values idle_pv @ [voltage_at pv_example 1]
    \<and> current_values s' = current_values idle_pv @ [r1 ! 1]
    \<and> power_values s' = power_values idle_pv @ [voltage_at pv_example 1 * (r1 ! 1)]
    \<and> voltage_1_values s' = voltage_1_values idle_pv @ [r2 ! 0]
    \<and> current_1_values s' = current_1_values idle_pv @ [r3 ! 1]
    \<and> power_1_values s' = power_1_values idle_pv @ [(r2 ! 0) * (r3 ! 1)]
    \<and> power_2_values s' = power_2_values idle_pv @ [voltage_at pv_example 1 * (r3 ! 1)]"
    by blast
  then show ?thesis using h
    by (intro exI[of _ s'] conjI exI[of _ r1] exI[of _ r2] exI[of _ r3])
       (auto simp: bench_simps)
qed

text \<open>
  C7. As stated the claim fails: not every iteration at a whole voltage emits a progress
  line. The line is printed last (line 87, 108 in the dual script), after the reading;
  if the reading fails on the bus, the voltage has been commanded and nothing is
  printed. On the bench, iteration 2 of the three-point sweep commands 1 V, a whole
  number, its \<^verbatim>\<open>:READ?\<close> times out, and the iteration ends there with no line.
  Nor is the test made on the voltage as written in decimal notation: in the sweep
  \<^verbatim>\<open>Vmin = -0.3, step_size = 0.1\<close>, iteration 3 stands for \<open>-0.3 + 3 \<times> 0.1 = 0\<close>, but the
  set-point computed and commanded is the double \<open>1 / 2 ^ 54\<close>, which is not whole, and
  the iteration completes without a line.
\<close>

theorem failed_reading_no_progress_counterexample:
  "voltage_at iv_example 2 = 1 \<and> (1 :: real) \<in> \<int>
   \<and> iv_step (read_fault 2) iv_example 0 2 idle_iv =
       Raise (VisaIOError ''VI_ERROR_TMO'')
         (idle_iv\<lparr>trace := [Write ''GPIB0::12::INSTR'' [Lit '':SOUR:VOLT '', Str 1], Sleep (5 / 100),
                               Query ''GPIB0::12::INSTR'' [Lit '':READ?'']],
                   ticks := 1\<rparr>)
   \<and> filter is_print (emitted idle_iv (final (iv_step (read_fault 2) iv_example 0 2 idle_iv))) = []
   \<and> - 3 / 10 + 3 * (1 / 10) = (0 :: real)
   \<and> voltage_at offset_sweep 3 = 1 / 2 ^ 54 \<and> (1 / 2 ^ 54 :: real) \<notin> \<int>
   \<and> iv_step bench offset_sweep 0 3 idle_iv =
       Ok () (idle_iv\<lparr>trace := [Write ''GPIB0::12::INSTR'' [Lit '':SOUR:VOLT '', Str (1 / 2 ^ 54)],
                                  Sleep (5 / 100), Query ''GPIB0::12::INSTR'' [Lit '':READ?'']],
                      ticks := 1, t_values := [0], voltage_values := [1 / 2 ^ 54],
                      current_values := [2 / 1000], power_values := [1 / 2 ^ 54 * (2 / 1000)]\<rparr>)"
proof -
  have v: "voltage_at iv_example 2 = 1"
    by (simp add: bench_simps)
  have w: "voltage_at offset_sweep 3 = 1 / 2 ^ 54"
    by (simp add: offset_sweep_def bench_simps)
  have "\<not> is_whole (1 / 2 ^ 54)"
    by (simp add: is_whole_def py_int_def)
  then have n: "(1 / 2 ^ 54 :: real) \<notin> \<int>"
    by (simp add: is_whole_iff)
  have a: "iv_step (read_fault 2) iv_example 0 2 idle_iv =
       Raise (VisaIOError ''VI_ERROR_TMO'')
         (idle_iv\<lparr>trace := [Write ''GPIB0::12::INSTR'' [Lit '':SOUR:VOLT '', Str 1], Sleep (5 / 100),
                               Query ''GPIB0::12::INSTR'' [Lit '':READ?'']],
                   ticks := 1\<rparr>)"
    by (simp add: read_fault_def iv_step_def prims bench_simps)
  have b: "iv_step bench offset_sweep 0 3 idle_iv =
       Ok () (idle_iv\<lparr>trace := [Write ''GPIB0::12::INSTR'' [Lit '':SOUR:VOLT '', Str (1 / 2 ^ 54)],
                                  Sleep (5 / 100), Query ''GPIB0::12::INSTR'' [Lit '':READ?'']],
                      ticks := 1, t_values := [0], voltage_values := [1 / 2 ^ 54],
                      current_values := [2 / 1000], power_values := [1 / 2 ^ 54 * (2 / 1000)]\<rparr>)"
    by (simp add: offset_sweep_def iv_step_def prims bench_simps)
  have c: "filter is_print (emitted idle_iv (final (iv_step (read_fault 2) iv_example 0 2 idle_iv))) = []"
    unfolding a by (simp add: emitted_def idle_iv_def)
  from v w n a b c show ?thesis by simp
qed

text \<open>
  C7, amended. Every iteration of either engine starts by writing its set-point, the
  double computed by \<^verbatim>\<open>Vmin + i * step_size\<close>. It prints a progress line if and only if
  it completes (every write, reading and indexing of it succeeds) and that double is a
  whole number (\<^verbatim>\<open>int(voltage) == voltage\<close>); an iteration that fails prints nothing.
  The line shows the voltage and, in the single-instrument engine, the current just
  appended to \<open>current_values\<close> (the primary current); in the dual-instrument engine
  the current just appended to \<open>current_1_values\<close> (the secondary current).
\<close>

theorem progress_iff_whole_voltage:
  "hd (emitted s (final (iv_step E p st i s))) = set_point (Keithley p) (voltage_at p i)
 \<and> (iv_step E p st i s = Ok u s' \<longrightarrow>
      (\<exists>c. current_values s' = current_values s @ [c]
         \<and> filter is_print (emitted s s') =
             (if voltage_at p i \<in> \<int>
              then [Print [Lit ''Voltage: '', F2 (voltage_at p i), Lit '' V, Current: '', E6 c, Lit '' A'']]
              else [])))
 \<and> (iv_step E p st i s = Raise e x \<longrightarrow> filter is_print (emitted s x) = [])
 \<and> hd (emitted r (final (pv_step E q st' j r))) = set_point (Volt_Supp_Instr q) (voltage_at q j)
 \<and> (pv_step E q st' j r = Ok u' r' \<longrightarrow>
      (\<exists>c1. current_1_values r' = current_1_values r @ [c1]
         \<and> filter is_print (emitted r r') =
             (if voltage_at q j \<in> \<int>
              then [Print [Lit ''Voltage: '', F2 (voltage_at q j), Lit '' V, Current: '', E6 c1, Lit '' A'']]
              else [])))
 \<and> (pv_step E q st' j r = Raise e' y \<longrightarrow> filter is_print (emitted r y) = [])"
proof (intro conjI impI)
  show "hd (emitted s (final (iv_step E p st i s))) = set_point (Keithley p) (voltage_at p i)"
  proof (cases "iv_step E p st i s")
    case (Ok u1 s1)
    from iv_step_Ok[OF Ok] obtain c where
      "trace s1 = trace s @ [set_point (Keithley p) (voltage_at p i), Sleep (5 / 100),
                             read_query (Keithley p)] @ progress (voltage_at p i) c"
      by force
    from emitted_append[OF this] Ok show ?thesis by simp
  next
    case (Raise e1 s1)
    from iv_step_Raise[OF Raise] have
      "emitted s s1 = [set_point (Keithley p) (voltage_at p i)]
       \<or> emitted s s1 = [set_point (Keithley p) (voltage_at p i), Sleep (5 / 100), read_query (Keithley p)]"
      by (auto simp: emitted_def)
    with Raise show ?thesis by auto
  qed
next
  assume h: "iv_step E p st i s = Ok u s'"
  from iv_step_Ok[OF h] obtain vals where
    s': "s' = s\<lparr>trace := trace s @ [set_point (Keithley p) (voltage_at p i), Sleep (5 / 100),
                                    read_query (Keithley p)]
                                  @ progress (voltage_at p i) (vals ! 1),
                ticks := Suc (ticks s),
                t_values := t_values s @ [clock E (ticks s) - st],
                voltage_values := voltage_values s @ [voltage_at p i],
                current_values := current_values s @ [vals ! 1],
                power_values := power_values s @ [voltage_at p i * (vals ! 1)]\<rparr>"
    by blast
  have "emitted s s' = [set_point (Keithley p) (voltage_at p i), Sleep (5 / 100),
                        read_query (Keithley p)] @ progress (voltage_at p i) (vals ! 1)"
    by (rule emitted_append) (simp add: s')
  then show "\<exists>c. current_values s' = current_values s @ [c]
         \<and> filter is_print (emitted s s') =
             (if voltage_at p i \<in> \<int>
              then [Print [Lit ''Voltage: '', F2 (voltage_at p i), Lit '' V, Current: '', E6 c, Lit '' A'']]
              else [])"
    by (intro exI[of _ "vals ! 1"]) (simp add: s' observers)
next
  assume h: "iv_step E p st i s = Raise e x"
  from iv_step_Raise[OF h] show "filter is_print (emitted s x) = []"
    by (auto simp: emitted_def observers)
next
  show "hd (emitted r (final (pv_step E q st' j r))) = set_point (Volt_Supp_Instr q) (voltage_at q j)"
  proof (cases "pv_step E q st' j r")
    case (Ok u1 s1)
    from pv_step_Ok[OF Ok] obtain c where
      "trace s1 = trace r @ [set_point (Volt_Supp_Instr q) (voltage_at q j), Sleep (5 / 100),
                             read_query (Volt_Supp_Instr q), read_query (Curr_Read_Instr q),
                             read_query (Curr_Read_Instr q)] @ progress (voltage_at q j) c"
      by force
    from emitted_append[OF this] Ok show ?thesis by simp
  next
    case (Raise e1 s1)
    from pv_step_Raise[OF Raise] have
      "\<exists>rest. emitted r s1 = set_point (Volt_Supp_Instr q) (voltage_at q j) # rest"
      by (auto simp: emitted_def)
    with Raise show ?thesis by auto
  qed
next
  assume h: "pv_step E q st' j r = Ok u' r'"
  from pv_step_Ok[OF h] obtain r1 r2 r3 where
    r': "r' = r\<lparr>trace := trace r @ [set_point (Volt_Supp_Instr q) (voltage_at q j), Sleep (5 / 100),
                                   read_query (Volt_Supp_Instr q), read_query (Curr_Read_Instr q),
                                   read_query (Curr_Read_Instr q)]
                                  @ progress (voltage_at q j) (r3 ! 1),
                ticks := Suc (ticks r),
                t_values := t_values r @ [clock E (ticks r) - st'],
                voltage_values := voltage_values r @ [voltage_at q j],
                current_values := current_values r @ [r1 ! 1],
                power_values := power_values r @ [voltage_at q j * (r1 ! 1)],
                voltage_1_values := voltage_1_values r @ [r2 ! 0],
                current_1_values := current_1_values r @ [r3 ! 1],
                power_1_values := power_1_values r @ [(r2 ! 0) * (r3 ! 1)],
                power_2_values := power_2_values r @ [voltage_at q j * (r3 ! 1)]\<rparr>"
    by blast
  have "emitted r r' = [set_point (Volt_Supp_Instr q) (voltage_at q j), Sleep (5 / 100),
                                   read_query (Volt_Supp_Instr q), read_query (Curr_Read_Instr q),
                                   read_query (Curr_Read_Instr q)]
                                  @ progress (voltage_at q j) (r3 ! 1)"
    by (rule emitted_append) (simp add: r')
  then show "\<exists>c1. current_1_values r' = current_1_values r @ [c1]
         \<and> filter is_print (emitted r r') =
             (if voltage_at q j \<in> \<int>
              then [Print [Lit ''Voltage: '', F2 (voltage_at q j), Lit '' V, Current: '', E6 c1, Lit '' A'']]
              else [])"
    by (intro exI[of _ "r3 ! 1"]) (simp add: r' observers)
next
  assume h: "pv_step E q st' j r = Raise e' y"
  from pv_step_Raise[OF h] show "filter is_print (emitted r y) = []"
    by (auto simp: emitted_def observers)
qed

theorem progress_iff_whole_voltage_witness:
  "\<exists>s' r' x y. iv_step bench iv_example 0 2 idle_iv = Ok () s'
     \<and> pv_step bench pv_example 0 1 idle_pv = Ok () r'
     \<and> iv_step (read_fault 2) iv_example 0 2 idle_iv = Raise (VisaIOError ''VI_ERROR_TMO'') x
     \<and> pv_step (read_fault 4) pv_example 0 2 idle_pv = Raise (VisaIOError ''VI_ERROR_TMO'') y
     \<and> voltage_at iv_example 2 = 1 \<and> (1 :: real) \<in> \<int>
     \<and> hd (emitted idle_iv s') = set_point ''GPIB0::12::INSTR'' 1
     \<and> (\<exists>c. current_values s' = current_values idle_iv @ [c]
           \<and> filter is_print (emitted idle_iv s') =
               [Print [Lit ''Voltage: '', F2 1, Lit '' V, Current: '', E6 c, Lit '' A'']])
     \<and> voltage_at pv_example 1 = 1 / 2 \<and> (1 / 2 :: real) \<notin> \<int>
     \<and> hd (emitted idle_pv r') = set_point ''GPIB0::16::INSTR'' (1 / 2)
     \<and> filter is_print (emitted idle_pv r') = []
     \<and> hd (emitted idle_iv x) = set_point ''GPIB0::12::INSTR'' 1
     \<and> filter is_print (emitted idle_iv x) = []
     \<and> voltage_at pv_example 2 = 1
     \<and> hd (emitted idle_pv y) = set_point ''GPIB0::16::INSTR'' 1
     \<and> filter is_print (emitted idle_pv y) = []"
proof -
  have "\<exists>s'. iv_step bench iv_example 0 2 idle_iv = Ok () s'"
    by (simp add: iv_step_def prims bench_simps)
  then obtain s' where iv: "iv_step bench iv_example 0 2 idle_iv = Ok () s'" ..
  have "\<exists>r'. pv_step bench pv_example 0 1 idle_pv = Ok () r'"
    by (simp add: pv_step_def prims bench_simps)
  then obtain r' where pv: "pv_step bench pv_example 0 1 idle_pv = Ok () r'" ..
  have "\<exists>x. iv_step (read_fault 2) iv_example 0 2 idle_iv = Raise (VisaIOError ''VI_ERROR_TMO'') x"
    by (simp add: read_fault_def iv_step_def prims bench_simps)
  then obtain x where ivf: "iv_step (read_fault 2) iv_example 0 2 idle_iv = Raise (VisaIOError ''VI_ERROR_TMO'') x" ..
  have "\<exists>y. pv_step (read_fault 4) pv_example 0 2 idle_pv = Raise (VisaIOError ''VI_ERROR_TMO'') y"
    by (simp add: read_fault_def pv_step_def prims bench_simps)
  then obtain y where pvf: "pv_step (read_fault 4) pv_example 0 2 idle_pv = Raise (VisaIOError ''VI_ERROR_TMO'') y" ..
  have v: "voltage_at iv_example 2 = 1" "voltage_at pv_example 1 = 1 / 2" "voltage_at pv_example 2 = 1"
    by (simp_all add: bench_simps)
  from v(2) have v1: "voltage_at pv_example (Suc 0) = 1 / 2" by simp
  have "\<not> is_whole (1 / 2)" by (simp add: is_whole_def py_int_def)
  then have half: "(1 / 2 :: real) \<notin> \<int>" by (simp add: is_whole_iff)
  have k: "Keithley iv_example = ''GPIB0::12::INSTR''" "Volt_Supp_Instr pv_example = ''GPIB0::16::INSTR''"
    by (simp_all add: iv_example_def pv_example_def)
  note ok = progress_iff_whole_voltage[of idle_iv bench iv_example 0 2 "()" s' _ _ idle_pv pv_example 0 1 "()" r']
  note koi = progress_iff_whole_voltage[of idle_iv "read_fault 2" iv_example 0 2 _ _ "VisaIOError ''VI_ERROR_TMO''" x]
  note kop = progress_iff_whole_voltage[of _ "read_fault 4" _ _ _ _ _ _ _
      idle_pv pv_example 0 2 _ _ "VisaIOError ''VI_ERROR_TMO''" y]
  from ok iv have a: "hd (emitted idle_iv s') = set_point ''GPIB0::12::INSTR'' 1"
    "\<exists>c. current_values s' = current_values idle_iv @ [c]
           \<and> filter is_print (emitted idle_iv s') =
               [Print [Lit ''Voltage: '', F2 1, Lit '' V, Current: '', E6 c, Lit '' A'']]"
    by (simp_all add: v k)
  from ok pv half have b: "hd (emitted idle_pv r') = set_point ''GPIB0::16::INSTR'' (1 / 2)"
    "filter is_print (emitted idle_pv r') = []"
    by (simp_all add: v v1 k)
  from koi ivf have c: "hd (emitted idle_iv x) = set_point ''GPIB0::12::INSTR'' 1"
    "filter is_print (emitted idle_iv x) = []"
    by (simp_all add: v k)
  from kop pvf have d: "hd (emitted idle_pv y) = set_point ''GPIB0::16::INSTR'' 1"
    "filter is_print (emitted idle_pv y) = []"
    by (simp_all add: v k)
  from iv pv ivf pvf v half a b c d show ?thesis
    by (intro exI[of _ s'] exI[of _ r'] exI[of _ x] exI[of _ y]) simp
qed

text \<open>
  C10. As stated the claim fails in the dual-instrument engine: the secondary voltage
  is element 0 of its answer, so an answer of one number is enough there and the
  iteration completes.
\<close>

theorem short_voltage_answer_counterexample:
  "ascii_result (short_answer 3 1)
     (trace idle_pv @ [set_point (Volt_Supp_Instr pv_example) (voltage_at pv_example 0), Sleep (5 / 100),
                       read_query (Volt_Supp_Instr pv_example)])
     (Curr_Read_Instr pv_example) [Lit '':READ?''] = Inr [5]
   \<and> length [5 :: real] < 2
   \<and> pv_step (short_answer 3 1) pv_example 0 0 idle_pv =
       Ok () (idle_pv\<lparr>trace := [set_point ''GPIB0::16::INSTR'' 0, Sleep (5 / 100),
                                  read_query ''GPIB0::16::INSTR'', read_query ''GPIB0::14::INSTR'',
                                  read_query ''GPIB0::14::INSTR'',
                                  Print [Lit ''Voltage: '', F2 0, Lit '' V, Current: '', E6 (1 / 1000), Lit '' A'']],
                        ticks := 1,
                        t_values := [0], voltage_values := [0], current_values := [1 / 1000],
                        power_values := [0], voltage_1_values := [5], current_1_values := [1 / 1000],
                        power_1_values := [5 / 1000], power_2_values := [0]\<rparr>)"
  by (simp add: short_answer_def pv_step_def prims bench_simps observers)

text \<open>
  C10, amended. The current of an iteration is element 1 of the answer to its
  \<^verbatim>\<open>:READ?\<close> query, and in the dual-instrument engine the secondary voltage is
  element 0 of the answer to a separate query. If every answer holds at least two
  numbers, no iteration raises \<open>IndexError\<close>. An iteration raises \<open>IndexError\<close>
  exactly when its set-point write succeeded and the first answer that is too short is
  reached: a current answer with fewer than two numbers, or an empty secondary-voltage
  answer. However an iteration fails, the recorded lists are as they were when it began.
\<close>

theorem reading_index:
  "(iv_step E p st i s = Ok u s' \<longrightarrow>
      (\<exists>vals. ascii_result E (trace s @ [set_point (Keithley p) (voltage_at p i), Sleep (5 / 100)])
                 (Keithley p) [Lit '':READ?''] = Inr vals
          \<and> 2 \<le> length vals \<and> current_values s' = current_values s @ [vals ! 1]))
 \<and> (pv_step E q st j r = Ok u r' \<longrightarrow>
      (\<exists>r1 r2 r3.
          ascii_result E (trace r @ [set_point (Volt_Supp_Instr q) (voltage_at q j), Sleep (5 / 100)])
            (Volt_Supp_Instr q) [Lit '':READ?''] = Inr r1
        \<and> ascii_result E (trace r @ [set_point (Volt_Supp_Instr q) (voltage_at q j), Sleep (5 / 100),
                                     read_query (Volt_Supp_Instr q)])
            (Curr_Read_Instr q) [Lit '':READ?''] = Inr r2
        \<and> ascii_result E (trace r @ [set_point (Volt_Supp_Instr q) (voltage_at q j), Sleep (5 / 100),
                                     read_query (Volt_Supp_Instr q), read_query (Curr_Read_Instr q)])
            (Curr_Read_Instr q) [Lit '':READ?''] = Inr r3
        \<and> 2 \<le> length r1 \<and> 1 \<le> length r2 \<and> 2 \<le> length r3
        \<and> current_values r' = current_values r @ [r1 ! 1]
        \<and> voltage_1_values r' = voltage_1_values r @ [r2 ! 0]
        \<and> current_1_values r' = current_1_values r @ [r3 ! 1]))
 \<and> ((\<forall>tr h c vals. ascii_result E tr h c = Inr vals \<longrightarrow> 2 \<le> length vals) \<longrightarrow>
      (\<forall>x. iv_step E p st i s \<noteq> Raise IndexError x) \<and> (\<forall>y. pv_step E q st j r \<noteq> Raise IndexError y))
 \<and> ((\<exists>x. iv_step E p st i s = Raise IndexError x) \<longleftrightarrow>
        write_result E (trace s) (Keithley p) [Lit '':SOUR:VOLT '', Str (voltage_at p i)] = None
      \<and> (\<exists>vals. ascii_result E (trace s @ [set_point (Keithley p) (voltage_at p i), Sleep (5 / 100)])
                   (Keithley p) [Lit '':READ?''] = Inr vals
                \<and> length vals < 2))
 \<and> ((\<exists>y. pv_step E q st j r = Raise IndexError y) \<longleftrightarrow>
        write_result E (trace r) (Volt_Supp_Instr q) [Lit '':SOUR:VOLT '', Str (voltage_at q j)] = None
      \<and> (\<exists>r1. ascii_result E (trace r @ [set_point (Volt_Supp_Instr q) (voltage_at q j), Sleep (5 / 100)])
                  (Volt_Supp_Instr q) [Lit '':READ?''] = Inr r1
           \<and> (length r1 < 2
              \<or> (\<exists>r2. ascii_result E (trace r @ [set_point (Volt_Supp_Instr q) (voltage_at q j),
                                                  Sleep (5 / 100), read_query (Volt_Supp_Instr q)])
                          (Curr_Read_Instr q) [Lit '':READ?''] = Inr r2
                   \<and> (r2 = []
                      \<or> (\<exists>r3. ascii_result E (trace r @ [set_point (Volt_Supp_Instr q) (voltage_at q j),
                                                          Sleep (5 / 100), read_query (Volt_Supp_Instr q),
                                                          read_query (Curr_Read_Instr q)])
                                  (Curr_Read_Instr q) [Lit '':READ?''] = Inr r3
                           \<and> length r3 < 2))))))
 \<and> (iv_step E p st i s = Raise e x \<longrightarrow>
        t_values x = t_values s \<and> voltage_values x = voltage_values s
      \<and> current_values x = current_values s \<and> power_values x = power_values s)
 \<and> (pv_step E q st j r = Raise e y \<longrightarrow>
        t_values y = t_values r \<and> voltage_values y = voltage_values r
      \<and> current_values y = current_values r \<and> power_values y = power_values r
      \<and> voltage_1_values y = voltage_1_values r \<and> current_1_values y = current_1_values r
      \<and> power_1_values y = power_1_values r \<and> power_2_values y = power_2_values r)"
proof -
  have a: "iv_step E p st i s = Ok u s' \<longrightarrow>
      (\<exists>vals. ascii_result E (trace s @ [set_point (Keithley p) (voltage_at p i), Sleep (5 / 100)])
                 (Keithley p) [Lit '':READ?''] = Inr vals
          \<and> 2 \<le> length vals \<and> current_values s' = current_values s @ [vals ! 1])"
  proof
    assume "iv_step E p st i s = Ok u s'"
    from iv_step_Ok[OF this] obtain vals where
      "ascii_result E (trace s @ [set_point (Keithley p) (voltage_at p i), Sleep (5 / 100)])
          (Keithley p) [Lit '':READ?''] = Inr vals" "1 < length vals"
      "current_values s' = current_values s @ [vals ! 1]"
      by force
    then show "\<exists>vals. ascii_result E (trace s @ [set_point (Keithley p) (voltage_at p i), Sleep (5 / 100)])
                 (Keithley p) [Lit '':READ?''] = Inr vals
          \<and> 2 \<le> length vals \<and> current_values s' = current_values s @ [vals ! 1]"
      by (intro exI[of _ vals]) simp
  qed
  have b: "pv_step E q st j r = Ok u r' \<longrightarrow>
      (\<exists>r1 r2 r3.
          ascii_result E (trace r @ [set_point (Volt_Supp_Instr q) (voltage_at q j), Sleep (5 / 100)])
            (Volt_Supp_Instr q) [Lit '':READ?''] = Inr r1
        \<and> ascii_result E (trace r @ [set_point (Volt_Supp_Instr q) (voltage_at q j), Sleep (5 / 100),
                                     read_query (Volt_Supp_Instr q)])
            (Curr_Read_Instr q) [Lit '':READ?''] = Inr r2
        \<and> ascii_result E (trace r @ [set_point (Volt_Supp_Instr q) (voltage_at q j), Sleep (5 / 100),
                                     read_query (Volt_Supp_Instr q), read_query (Curr_Read_Instr q)])
            (Curr_Read_Instr q) [Lit '':READ?''] = Inr r3
        \<and> 2 \<le> length r1 \<and> 1 \<le> length r2 \<and> 2 \<le> length r3
        \<and> current_values r' = current_values r @ [r1 ! 1]
        \<and> voltage_1_values r' = voltage_1_values r @ [r2 ! 0]
        \<and> current_1_values r' = current_1_values r @ [r3 ! 1])"
  proof
    assume "pv_step E q st j r = Ok u r'"
    from pv_step_Ok[OF this] obtain r1 r2 r3 where
      "ascii_result E (trace r @ [set_point (Volt_Supp_Instr q) (voltage_at q j), Sleep (5 / 100)])
            (Volt_Supp_Instr q) [Lit '':READ?''] = Inr r1"
      "ascii_result E (trace r @ [set_point (Volt_Supp_Instr q) (voltage_at q j), Sleep (5 / 100),
                                     read_query (Volt_Supp_Instr q)])
            (Curr_Read_Instr q) [Lit '':READ?''] = Inr r2"
      "ascii_result E (trace r @ [set_point (Volt_Supp_Instr q) (voltage_at q j), Sleep (5 / 100),
                                     read_query (Volt_Supp_Instr q), read_query (Curr_Read_Instr q)])
            (Curr_Read_Instr q) [Lit '':READ?''] = Inr r3"
      "1 < length r1" "0 < length r2" "1 < length r3"
      "current_values r' = current_values r @ [r1 ! 1]"
      "voltage_1_values r' = voltage_1_values r @ [r2 ! 0]"
      "current_1_values r' = current_1_values r @ [r3 ! 1]"
      by force
    then show "\<exists>r1 r2 r3.
          ascii_result E (trace r @ [set_point (Volt_Supp_Instr q) (voltage_at q j), Sleep (5 / 100)])
            (Volt_Supp_Instr q) [Lit '':READ?''] = Inr r1
        \<and> ascii_result E (trace r @ [set_point (Volt_Supp_Instr q) (voltage_at q j), Sleep (5 / 100),
                                     read_query (Volt_Supp_Instr q)])
            (Curr_Read_Instr q) [Lit '':READ?''] = Inr r2
        \<and> ascii_result E (trace r @ [set_point (Volt_Supp_Instr q) (voltage_at q j), Sleep (5 / 100),
                                     read_query (Volt_Supp_Instr q), read_query (Curr_Read_Instr q)])
            (Curr_Read_Instr q) [Lit '':READ?''] = Inr r3
        \<and> 2 \<le> length r1 \<and> 1 \<le> length r2 \<and> 2 \<le> length r3
        \<and> current_values r' = current_values r @ [r1 ! 1]
        \<and> voltage_1_values r' = voltage_1_values r @ [r2 ! 0]
        \<and> current_1_values r' = current_1_values r @ [r3 ! 1]"
      by (rule_tac x = r1 in exI, rule_tac x = r2 in exI, rule_tac x = r3 in exI)
         (simp add: Suc_le_eq)
  qed
  have c: "(\<forall>tr h c vals. ascii_result E tr h c = Inr vals \<longrightarrow> 2 \<le> length vals) \<longrightarrow>
      (\<forall>x. iv_step E p st i s \<noteq> Raise IndexError x) \<and> (\<forall>y. pv_step E q st j r \<noteq> Raise IndexError y)"
  proof (intro impI conjI allI notI)
    fix x
    assume long: "\<forall>tr h c vals. ascii_result E tr h c = Inr vals \<longrightarrow> 2 \<le> length vals"
      and "iv_step E p st i s = Raise IndexError x"
    then have "\<exists>x. iv_step E p st i s = Raise IndexError x" by blast
    then obtain vals where
      "ascii_result E (trace s @ [set_point (Keithley p) (voltage_at p i), Sleep (5 / 100)])
                   (Keithley p) [Lit '':READ?''] = Inr vals" "length vals < 2"
      unfolding iv_step_IndexError by blast
    with long show False by (metis not_less)
  next
    fix y
    assume long: "\<forall>tr h c vals. ascii_result E tr h c = Inr vals \<longrightarrow> 2 \<le> length vals"
      and "pv_step E q st j r = Raise IndexError y"
    then have "\<exists>y. pv_step E q st j r = Raise IndexError y" by blast
    then obtain tr h c vals where "ascii_result E tr h c = Inr vals" "length vals < 2"
      unfolding pv_step_IndexError by fastforce
    with long show False by (metis not_less)
  qed
  have d: "iv_step E p st i s = Raise e x \<longrightarrow>
        t_values x = t_values s \<and> voltage_values x = voltage_values s
      \<and> current_values x = current_values s \<and> power_values x = power_values s"
    using iv_step_Raise[of E p st i s e x] by auto
  have f: "pv_step E q st j r = Raise e y \<longrightarrow>
        t_values y = t_values r \<and> voltage_values y = voltage_values r
      \<and> current_values y = current_values r \<and> power_values y = power_values r
      \<and> voltage_1_values y = voltage_1_values r \<and> current_1_values y = current_1_values r
      \<and> power_1_values y = power_1_values r \<and> power_2_values y = power_2_values r"
    using pv_step_Raise[of E q st j r e y] by auto
  from a b c d f iv_step_IndexError[of E p st i s] pv_step_IndexError[of E q st j r]
  show ?thesis by (intro conjI)
qed


theorem reading_index_witness:
  "(\<exists>s'. iv_step bench iv_example 0 1 idle_iv = Ok () s' \<and> current_values s' = [2 / 1000])
 \<and> (\<exists>r'. pv_step bench pv_example 0 1 idle_pv = Ok () r'
        \<and> current_values r' = [2 / 1000] \<and> voltage_1_values r' = [3] \<and> current_1_values r' = [4 / 1000])
 \<and> (\<forall>tr h c. \<exists>a b. ascii_result bench tr h c = Inr [a, b])
 \<and> (\<forall>x. iv_step bench iv_example 0 1 idle_iv \<noteq> Raise IndexError x)
 \<and> (\<forall>y. pv_step bench pv_example 0 1 idle_pv \<noteq> Raise IndexError y)
 \<and> (\<exists>x. iv_step (short_answer 2 1) iv_example 0 1 idle_iv = Raise IndexError x
        \<and> t_values x = [] \<and> voltage_values x = [] \<and> current_values x = [] \<and> power_values x = [])
 \<and> (\<exists>y. pv_step (short_answer 3 0) pv_example 0 1 idle_pv = Raise IndexError y
        \<and> t_values y = [] \<and> voltage_values y = [] \<and> current_values y = [] \<and> power_values y = []
        \<and> voltage_1_values y = [] \<and> current_1_values y = [] \<and> power_1_values y = []
        \<and> power_2_values y = [])"
proof -
  have "\<exists>s'. iv_step bench iv_example 0 1 idle_iv = Ok () s'"
    by (simp add: iv_step_def prims bench_simps)
  then obtain s' where iv: "iv_step bench iv_example 0 1 idle_iv = Ok () s'" ..
  have "\<exists>r'. pv_step bench pv_example 0 1 idle_pv = Ok () r'"
    by (simp add: pv_step_def prims bench_simps)
  then obtain r' where pv: "pv_step bench pv_example 0 1 idle_pv = Ok () r'" ..
  have long: "\<forall>tr h c vals. ascii_result bench tr h c = Inr vals \<longrightarrow> 2 \<le> length vals"
    by (auto simp: bench_def)
  have two: "\<forall>tr h c. \<exists>a b. ascii_result bench tr h c = Inr [a, b]"
    by (intro allI, rule_tac x = "real (length tr)" in exI,
        rule_tac x = "real (length tr) / 1000" in exI) (simp add: bench_def)
  note ok = reading_index[of bench iv_example 0 1 idle_iv "()" s' pv_example 1 idle_pv r']
  from ok iv have a: "current_values s' = [2 / 1000]"
    by (auto simp: bench_simps observers)
  from ok pv have b: "current_values r' = [2 / 1000] \<and> voltage_1_values r' = [3] \<and> current_1_values r' = [4 / 1000]"
    by (auto simp: bench_simps observers)
  from ok long have c: "(\<forall>x. iv_step bench iv_example 0 1 idle_iv \<noteq> Raise IndexError x)
      \<and> (\<forall>y. pv_step bench pv_example 0 1 idle_pv \<noteq> Raise IndexError y)"
    by blast
  have ivw: "write_result (short_answer 2 1) (trace idle_iv) (Keithley iv_example)
               [Lit '':SOUR:VOLT '', Str (voltage_at iv_example 1)] = None"
    by (simp add: short_answer_def bench_def)
  have ivr: "ascii_result (short_answer 2 1)
               (trace idle_iv @ [set_point (Keithley iv_example) (voltage_at iv_example 1), Sleep (5 / 100)])
               (Keithley iv_example) [Lit '':READ?''] = Inr [5]"
    by (simp add: short_answer_def bench_def idle_iv_def)
  have pvw: "write_result (short_answer 3 0) (trace idle_pv) (Volt_Supp_Instr pv_example)
               [Lit '':SOUR:VOLT '', Str (voltage_at pv_example 1)] = None"
    by (simp add: short_answer_def bench_def)
  have pvr1: "ascii_result (short_answer 3 0)
               (trace idle_pv @ [set_point (Volt_Supp_Instr pv_example) (voltage_at pv_example 1), Sleep (5 / 100)])
               (Volt_Supp_Instr pv_example) [Lit '':READ?''] = Inr [2, 1 / 1000]"
    by (simp add: short_answer_def bench_def idle_pv_def)
  have pvr2: "ascii_result (short_answer 3 0)
               (trace idle_pv @ [set_point (Volt_Supp_Instr pv_example) (voltage_at pv_example 1), Sleep (5 / 100),
                                 read_query (Volt_Supp_Instr pv_example)])
               (Curr_Read_Instr pv_example) [Lit '':READ?''] = Inr []"
    by (simp add: short_answer_def bench_def idle_pv_def)
  have "\<exists>x. iv_step (short_answer 2 1) iv_example 0 1 idle_iv = Raise IndexError x"
    using reading_index[of "short_answer 2 1" iv_example 0 1 idle_iv] ivw ivr by force
  then obtain x where x: "iv_step (short_answer 2 1) iv_example 0 1 idle_iv = Raise IndexError x" ..
  have "\<exists>y. pv_step (short_answer 3 0) pv_example 0 1 idle_pv = Raise IndexError y"
    using reading_index[of "short_answer 3 0" _ _ _ _ _ _ pv_example 1 idle_pv] pvw pvr1 pvr2 by force
  then obtain y where y: "pv_step (short_answer 3 0) pv_example 0 1 idle_pv = Raise IndexError y" ..
  from reading_index[of "short_answer 2 1" iv_example 0 1 idle_iv _ _ _ _ _ _ IndexError x] x
  have d: "t_values x = [] \<and> voltage_values x = [] \<and> current_values x = [] \<and> power_values x = []"
    by (simp add: idle_iv_def)
  from reading_index[of "short_answer 3 0" _ 0 _ _ _ _ pv_example 1 idle_pv _ IndexError _ y] y
  have f: "t_values y = [] \<and> voltage_values y = [] \<and> current_values y = [] \<and> power_values y = []
        \<and> voltage_1_values y = [] \<and> current_1_values y = [] \<and> power_1_values y = []
        \<and> power_2_values y = []"
    by (simp add: idle_pv_def)
  from iv a pv b two c x d y f show ?thesis by blast
qed




text \<open>
  C5. In the dual-instrument engine, when the stepping loop starts, exactly four
  commands have been written: output on to the primary, output on to the secondary, the
  static bias and the compliance current to the secondary. However the loop ends, it
  writes nothing to the secondary: everything it issues to it is a \<^verbatim>\<open>:READ?\<close>
  query. So in a sweep that completes the secondary is written output-on, its bias, its
  compliance and, after the loop, the two shutdown commands, and nothing else. (The two
  instruments are distinct.)
\<close>

theorem secondary_bias_untouched:
  "(pv_begin E p s = Ok (n, st) s0 \<longrightarrow>
      emitted s s0 =
        [Write (Volt_Supp_Instr p) [Lit '':OUTP ON''],
         Write (Curr_Read_Instr p) [Lit '':OUTP ON''],
         Write (Curr_Read_Instr p) [Lit '':SOUR:VOLT '', Str (read_bias p)],
         Write (Curr_Read_Instr p) [Lit '':SENS:CURR:PROT '', Str (compliance_read p)]])
 \<and> (Volt_Supp_Instr p \<noteq> Curr_Read_Instr p \<longrightarrow>
      filter (written_to (Curr_Read_Instr p)) (emitted r (final (pv_loop E p t is r))) = []
    \<and> (\<forall>e\<in>set (emitted r (final (pv_loop E p t is r))).
          issued_to (Curr_Read_Instr p) e \<longrightarrow> e = Query (Curr_Read_Instr p) [Lit '':READ?'']))
 \<and> (Volt_Supp_Instr p \<noteq> Curr_Read_Instr p \<and> pv_acquire E p s = Ok m s' \<longrightarrow>
      filter (written_to (Curr_Read_Instr p)) (emitted s s') =
        [Write (Curr_Read_Instr p) [Lit '':OUTP ON''],
         Write (Curr_Read_Instr p) [Lit '':SOUR:VOLT '', Str (read_bias p)],
         Write (Curr_Read_Instr p) [Lit '':SENS:CURR:PROT '', Str (compliance_read p)],
         Write (Curr_Read_Instr p) [Lit '':SOUR:VOLT 0''],
         Write (Curr_Read_Instr p) [Lit '':OUTP OFF'']])"
proof (intro conjI impI)
  assume b: "pv_begin E p s = Ok (n, st) s0"
  show "emitted s s0 =
        [Write (Volt_Supp_Instr p) [Lit '':OUTP ON''],
         Write (Curr_Read_Instr p) [Lit '':OUTP ON''],
         Write (Curr_Read_Instr p) [Lit '':SOUR:VOLT '', Str (read_bias p)],
         Write (Curr_Read_Instr p) [Lit '':SENS:CURR:PROT '', Str (compliance_read p)]]"
    using pv_begin_Ok[OF b] by (intro emitted_append) simp
next
  assume ne: "Volt_Supp_Instr p \<noteq> Curr_Read_Instr p"
  from pv_loop_events[of E p t "is" r] obtain evs where
    tr: "trace (final (pv_loop E p t is r)) = trace r @ evs"
    and ev: "\<forall>ev\<in>set evs. pv_loop_event (Volt_Supp_Instr p) (Curr_Read_Instr p) ev"
    by blast
  have em: "emitted r (final (pv_loop E p t is r)) = evs"
    by (rule emitted_append) (rule tr)
  from no_write_in_pv_loop(1)[OF ev ne]
  show "filter (written_to (Curr_Read_Instr p)) (emitted r (final (pv_loop E p t is r))) = []"
    unfolding em .
  from no_write_in_pv_loop(2)[OF ev ne]
  show "\<forall>e\<in>set (emitted r (final (pv_loop E p t is r))).
          issued_to (Curr_Read_Instr p) e \<longrightarrow> e = Query (Curr_Read_Instr p) [Lit '':READ?'']"
    unfolding em read_query_def .
next
  assume "Volt_Supp_Instr p \<noteq> Curr_Read_Instr p \<and> pv_acquire E p s = Ok m s'"
  then have ne: "Volt_Supp_Instr p \<noteq> Curr_Read_Instr p" and run: "pv_acquire E p s = Ok m s'"
    by simp_all
  from pv_acquire_Ok[OF run] obtain evs where
    ev: "\<forall>e\<in>set evs. pv_loop_event (Volt_Supp_Instr p) (Curr_Read_Instr p) e"
    and tr: "trace s' = trace s @ [Write (Volt_Supp_Instr p) [Lit '':OUTP ON''],
                                     Write (Curr_Read_Instr p) [Lit '':OUTP ON''],
                                     Write (Curr_Read_Instr p) [Lit '':SOUR:VOLT '', Str (read_bias p)],
                                     Write (Curr_Read_Instr p) [Lit '':SENS:CURR:PROT '', Str (compliance_read p)]]
                          @ evs
                          @ [Write (Volt_Supp_Instr p) [Lit '':SOUR:VOLT 0''],
                             Write (Curr_Read_Instr p) [Lit '':SOUR:VOLT 0''],
                             Write (Volt_Supp_Instr p) [Lit '':OUTP OFF''],
                             Write (Curr_Read_Instr p) [Lit '':OUTP OFF'']]"
    by force
  have em: "emitted s s' = [Write (Volt_Supp_Instr p) [Lit '':OUTP ON''],
                                     Write (Curr_Read_Instr p) [Lit '':OUTP ON''],
                                     Write (Curr_Read_Instr p) [Lit '':SOUR:VOLT '', Str (read_bias p)],
                                     Write (Curr_Read_Instr p) [Lit '':SENS:CURR:PROT '', Str (compliance_read p)]]
                          @ evs
                          @ [Write (Volt_Supp_Instr p) [Lit '':SOUR:VOLT 0''],
                             Write (Curr_Read_Instr p) [Lit '':SOUR:VOLT 0''],
                             Write (Volt_Supp_Instr p) [Lit '':OUTP OFF''],
                             Write (Curr_Read_Instr p) [Lit '':OUTP OFF'']]"
    by (rule emitted_append) (rule tr)
  show "filter (written_to (Curr_Read_Instr p)) (emitted s s') =
        [Write (Curr_Read_Instr p) [Lit '':OUTP ON''],
         Write (Curr_Read_Instr p) [Lit '':SOUR:VOLT '', Str (read_bias p)],
         Write (Curr_Read_Instr p) [Lit '':SENS:CURR:PROT '', Str (compliance_read p)],
         Write (Curr_Read_Instr p) [Lit '':SOUR:VOLT 0''],
         Write (Curr_Read_Instr p) [Lit '':OUTP OFF'']]"
    unfolding em using no_write_in_pv_loop(1)[OF ev ne] ne by simp
qed

theorem secondary_bias_untouched_witness:
  "\<exists>s0 s'. pv_begin bench pv_example idle_pv = Ok (3, 0) s0
     \<and> Volt_Supp_Instr pv_example \<noteq> Curr_Read_Instr pv_example
     \<and> pv_acquire bench pv_example idle_pv = Ok 3 s'
     \<and> emitted idle_pv s0 =
        [Write ''GPIB0::16::INSTR'' [Lit '':OUTP ON''],
         Write ''GPIB0::14::INSTR'' [Lit '':OUTP ON''],
         Write ''GPIB0::14::INSTR'' [Lit '':SOUR:VOLT '', Str 0],
         Write ''GPIB0::14::INSTR'' [Lit '':SENS:CURR:PROT '', Str (1 / 10)]]
     \<and> filter (written_to ''GPIB0::14::INSTR'') (emitted s0 (final (pv_loop bench pv_example 0 (py_range 3) s0))) = []
     \<and> filter (written_to ''GPIB0::14::INSTR'') (emitted idle_pv s') =
        [Write ''GPIB0::14::INSTR'' [Lit '':OUTP ON''],
         Write ''GPIB0::14::INSTR'' [Lit '':SOUR:VOLT '', Str 0],
         Write ''GPIB0::14::INSTR'' [Lit '':SENS:CURR:PROT '', Str (1 / 10)],
         Write ''GPIB0::14::INSTR'' [Lit '':SOUR:VOLT 0''],
         Write ''GPIB0::14::INSTR'' [Lit '':OUTP OFF'']]"
proof -
  have "\<exists>s0. pv_begin bench pv_example idle_pv = Ok (3, 0) s0"
    by (simp add: pv_begin_def run_simps)
  then obtain s0 where b: "pv_begin bench pv_example idle_pv = Ok (3, 0) s0" ..
  have "\<exists>r'. pv_acquire bench pv_example idle_pv = Ok 3 r'"
    by (simp add: pv_acquire_def pv_begin_def pv_shutdown_def pv_step_def run_simps)
  then obtain s' where pv: "pv_acquire bench pv_example idle_pv = Ok 3 s'" ..
  have ne: "Volt_Supp_Instr pv_example \<noteq> Curr_Read_Instr pv_example"
    by (simp add: pv_example_def)
  from secondary_bias_untouched[of bench pv_example idle_pv 3 0 s0 s0 0 "py_range 3" 3 s'] b pv ne
  show ?thesis
    by (intro exI[of _ s0] exI[of _ s']) (simp add: pv_example_def)
qed

text \<open>
  C9. As stated the claim fails: the stopwatch is \<^verbatim>\<open>time.time()\<close>, the wall clock,
  which can be set back while the sweep runs. With readings 10, 12, 11, 11 a sweep of
  three points records the times 2, 1, 1.
\<close>

theorem wall_clock_set_back_counterexample:
  "returned (iv_acquire clock_set_back iv_example idle_iv)
   \<and> t_values (final (iv_acquire clock_set_back iv_example idle_iv)) = [2, 1, 1]
   \<and> \<not> sorted [2, 1, 1 :: real]"
  by (simp add: clock_set_back_def iv_acquire_def iv_begin_def iv_shutdown_def iv_step_def run_simps)

text \<open>
  C9, amended. If the readings of the wall clock never decrease, the elapsed times
  recorded by a sweep that completes are non-decreasing (each is at most every later
  one), in both engines.
\<close>

theorem elapsed_times_sorted:
  "(\<forall>k. clock E k \<le> clock E (Suc k)) \<longrightarrow>
     (iv_acquire E p s = Ok n s' \<longrightarrow> sorted (t_values s'))
   \<and> (pv_acquire E q r = Ok m r' \<longrightarrow> sorted (t_values r'))"
proof (intro impI conjI)
  assume mono: "\<forall>k. clock E k \<le> clock E (Suc k)" and run: "iv_acquire E p s = Ok n s'"
  from iv_acquire_Ok[OF run]
  have "t_values s' = map (\<lambda>j. clock E (Suc (ticks s) + j) - clock E (ticks s)) [0..<nat n]"
    by force
  then show "sorted (t_values s')"
    by (simp only: sorted_clock_readings[OF mono])
next
  assume mono: "\<forall>k. clock E k \<le> clock E (Suc k)" and run: "pv_acquire E q r = Ok m r'"
  from pv_acquire_Ok[OF run]
  have "t_values r' = map (\<lambda>j. clock E (Suc (ticks r) + j) - clock E (ticks r)) [0..<nat m]"
    by force
  then show "sorted (t_values r')"
    by (simp only: sorted_clock_readings[OF mono])
qed

theorem elapsed_times_sorted_witness:
  "\<exists>s' r'. (\<forall>k. clock bench k \<le> clock bench (Suc k))
     \<and> iv_acquire bench iv_example idle_iv = Ok 3 s'
     \<and> pv_acquire bench pv_example idle_pv = Ok 3 r'
     \<and> sorted (t_values s') \<and> sorted (t_values r')"
proof -
  have "\<exists>s'. iv_acquire bench iv_example idle_iv = Ok 3 s'"
    by (simp add: iv_acquire_def iv_begin_def iv_shutdown_def iv_step_def run_simps)
  then obtain s' where iv: "iv_acquire bench iv_example idle_iv = Ok 3 s'" ..
  have "\<exists>r'. pv_acquire bench pv_example idle_pv = Ok 3 r'"
    by (simp add: pv_acquire_def pv_begin_def pv_shutdown_def pv_step_def run_simps)
  then obtain r' where pv: "pv_acquire bench pv_example idle_pv = Ok 3 r'" ..
  have mono: "\<forall>k. clock bench k \<le> clock bench (Suc k)"
    by (simp add: bench_def)
  from elapsed_times_sorted[of bench iv_example idle_iv 3 s' pv_example idle_pv 3 r'] mono iv pv
  show ?thesis by blast
qed

text \<open>
  C8. Suppose the first \<open>k\<close> iterations of the stepping loop complete and, in iteration
  \<open>k\<close>, the bus fails an instrument operation with message \<open>msg\<close>: the set-point write,
  or a \<^verbatim>\<open>:READ?\<close> (in the dual-instrument engine, of the primary or either of the two of
  the secondary). Then the whole engine raises \<open>VisaIOError msg\<close> in the state reached at
  the failed operation, which is the last event of the run: nothing more is issued,
  printed or written. Over the whole run the driven instrument has been written
  output-on and one set-point per iteration begun, and nothing else (in the
  dual-instrument engine the secondary: output-on, its bias and its compliance): the
  two writes of the shutdown are not among them, and no command sent reads
  \<^verbatim>\<open>:OUTP OFF\<close>, however the numbers in it are printed. More generally, whatever error
  the loop raises (also the \<open>IndexError\<close> of an answer too short), the engine raises the
  same error in the same state. (The two instruments of the dual engine are distinct.)
\<close>

theorem failure_in_loop_skips_shutdown:
  "(iv_begin E p s = Ok (n, st) s0 \<and> k < nat n \<and> iv_loop E p st [0..<k] s0 = Ok u sk
      \<and> (write_result E (trace sk) (Keithley p) [Lit '':SOUR:VOLT '', Str (voltage_at p k)] = Some msg
           \<and> x = sk\<lparr>trace := trace sk @ [set_point (Keithley p) (voltage_at p k)]\<rparr>
         \<or> write_result E (trace sk) (Keithley p) [Lit '':SOUR:VOLT '', Str (voltage_at p k)] = None
           \<and> ascii_result E (trace sk @ [set_point (Keithley p) (voltage_at p k), Sleep (5 / 100)])
                (Keithley p) [Lit '':READ?''] = Inl msg
           \<and> x = sk\<lparr>trace := trace sk @ [set_point (Keithley p) (voltage_at p k), Sleep (5 / 100),
                                           read_query (Keithley p)],
                      ticks := Suc (ticks sk)\<rparr>)
    \<longrightarrow> Keithley_VOLTAGE_SWEEP_iv E p s = Raise (VisaIOError msg) x
      \<and> filter (written_to (Keithley p)) (emitted s x)
          = Write (Keithley p) [Lit '':OUTP ON'']
            # map (\<lambda>i. set_point (Keithley p) (voltage_at p i)) [0..<Suc k]
      \<and> (\<forall>fmt h c. Write h c \<in> set (emitted s x) \<longrightarrow> render fmt c \<noteq> '':OUTP OFF''))
 \<and> (pv_begin E q r = Ok (m, t) r0 \<and> j < nat m \<and> pv_loop E q t [0..<j] r0 = Ok u' rj
      \<and> Volt_Supp_Instr q \<noteq> Curr_Read_Instr q
      \<and> (write_result E (trace rj) (Volt_Supp_Instr q) [Lit '':SOUR:VOLT '', Str (voltage_at q j)] = Some msg'
           \<and> y = rj\<lparr>trace := trace rj @ [set_point (Volt_Supp_Instr q) (voltage_at q j)]\<rparr>
         \<or> write_result E (trace rj) (Volt_Supp_Instr q) [Lit '':SOUR:VOLT '', Str (voltage_at q j)] = None
           \<and> ascii_result E (trace rj @ [set_point (Volt_Supp_Instr q) (voltage_at q j), Sleep (5 / 100)])
                (Volt_Supp_Instr q) [Lit '':READ?''] = Inl msg'
           \<and> y = rj\<lparr>trace := trace rj @ [set_point (Volt_Supp_Instr q) (voltage_at q j), Sleep (5 / 100),
                                           read_query (Volt_Supp_Instr q)],
                      ticks := Suc (ticks rj)\<rparr>
         \<or> write_result E (trace rj) (Volt_Supp_Instr q) [Lit '':SOUR:VOLT '', Str (voltage_at q j)] = None
           \<and> (\<exists>a1. ascii_result E (trace rj @ [set_point (Volt_Supp_Instr q) (voltage_at q j), Sleep (5 / 100)])
                      (Volt_Supp_Instr q) [Lit '':READ?''] = Inr a1 \<and> 1 < length a1)
           \<and> ascii_result E (trace rj @ [set_point (Volt_Supp_Instr q) (voltage_at q j), Sleep (5 / 100),
                                          read_query (Volt_Supp_Instr q)])
                (Curr_Read_Instr q) [Lit '':READ?''] = Inl msg'
           \<and> y = rj\<lparr>trace := trace rj @ [set_point (Volt_Supp_Instr q) (voltage_at q j), Sleep (5 / 100),
                                           read_query (Volt_Supp_Instr q), read_query (Curr_Read_Instr q)],
                      ticks := Suc (ticks rj)\<rparr>
         \<or> write_result E (trace rj) (Volt_Supp_Instr q) [Lit '':SOUR:VOLT '', Str (voltage_at q j)] = None
           \<and> (\<exists>a1. ascii_result E (trace rj @ [set_point (Volt_Supp_Instr q) (voltage_at q j), Sleep (5 / 100)])
                      (Volt_Supp_Instr q) [Lit '':READ?''] = Inr a1 \<and> 1 < length a1)
           \<and> (\<exists>a2. ascii_result E (trace rj @ [set_point (Volt_Supp_Instr q) (voltage_at q j), Sleep (5 / 100),
                                                read_query (Volt_Supp_Instr q)])
                      (Curr_Read_Instr q) [Lit '':READ?''] = Inr a2 \<and> a2 \<noteq> [])
           \<and> ascii_result E (trace rj @ [set_point (Volt_Supp_Instr q) (voltage_at q j), Sleep (5 / 100),
                                          read_query (Volt_Supp_Instr q), read_query (Curr_Read_Instr q)])
                (Curr_Read_Instr q) [Lit '':READ?''] = Inl msg'
           \<and> y = rj\<lparr>trace := trace rj @ [set_point (Volt_Supp_Instr q) (voltage_at q j), Sleep (5 / 100),
                                           read_query (Volt_Supp_Instr q), read_query (Curr_Read_Instr q),
                                           read_query (Curr_Read_Instr q)],
                      ticks := Suc (ticks rj)\<rparr>)
    \<longrightarrow> Keithley_VOLTAGE_SWEEP_pv E q r = Raise (VisaIOError msg') y
      \<and> filter (written_to (Volt_Supp_Instr q)) (emitted r y)
          = Write (Volt_Supp_Instr q) [Lit '':OUTP ON'']
            # map (\<lambda>i. set_point (Volt_Supp_Instr q) (voltage_at q i)) [0..<Suc j]
      \<and> filter (written_to (Curr_Read_Instr q)) (emitted r y)
          = [Write (Curr_Read_Instr q) [Lit '':OUTP ON''],
             Write (Curr_Read_Instr q) [Lit '':SOUR:VOLT '', Str (read_bias q)],
             Write (Curr_Read_Instr q) [Lit '':SENS:CURR:PROT '', Str (compliance_read q)]]
      \<and> (\<forall>fmt h c. Write h c \<in> set (emitted r y) \<longrightarrow> render fmt c \<noteq> '':OUTP OFF''))
 \<and> (iv_begin E p s = Ok (n, st) s0 \<and> iv_loop E p st (py_range n) s0 = Raise e s1 \<longrightarrow>
      Keithley_VOLTAGE_SWEEP_iv E p s = Raise e s1
    \<and> ((\<exists>msg. e = VisaIOError msg) \<or> e = IndexError)
    \<and> (\<exists>evs. emitted s s1 = Write (Keithley p) [Lit '':OUTP ON''] # evs \<and> evs \<noteq> []
          \<and> is_instr (last evs) \<and> (\<forall>ev\<in>set evs. iv_loop_event (Keithley p) ev))
    \<and> (\<forall>fmt h c. Write h c \<in> set (emitted s s1) \<longrightarrow> render fmt c \<noteq> '':OUTP OFF''))
 \<and> (pv_begin E q r = Ok (m, t) r0 \<and> pv_loop E q t (py_range m) r0 = Raise e' r1 \<longrightarrow>
      Keithley_VOLTAGE_SWEEP_pv E q r = Raise e' r1
    \<and> ((\<exists>msg. e' = VisaIOError msg) \<or> e' = IndexError)
    \<and> (\<exists>evs. emitted r r1 =
               [Write (Volt_Supp_Instr q) [Lit '':OUTP ON''],
                Write (Curr_Read_Instr q) [Lit '':OUTP ON''],
                Write (Curr_Read_Instr q) [Lit '':SOUR:VOLT '', Str (read_bias q)],
                Write (Curr_Read_Instr q) [Lit '':SENS:CURR:PROT '', Str (compliance_read q)]] @ evs
          \<and> evs \<noteq> [] \<and> is_instr (last evs)
          \<and> (\<forall>ev\<in>set evs. pv_loop_event (Volt_Supp_Instr q) (Curr_Read_Instr q) ev))
    \<and> (\<forall>fmt h c. Write h c \<in> set (emitted r r1) \<longrightarrow> render fmt c \<noteq> '':OUTP OFF''))"
proof (intro conjI)
  show "iv_begin E p s = Ok (n, st) s0 \<and> k < nat n \<and> iv_loop E p st [0..<k] s0 = Ok u sk
      \<and> (write_result E (trace sk) (Keithley p) [Lit '':SOUR:VOLT '', Str (voltage_at p k)] = Some msg
           \<and> x = sk\<lparr>trace := trace sk @ [set_point (Keithley p) (voltage_at p k)]\<rparr>
         \<or> write_result E (trace sk) (Keithley p) [Lit '':SOUR:VOLT '', Str (voltage_at p k)] = None
           \<and> ascii_result E (trace sk @ [set_point (Keithley p) (voltage_at p k), Sleep (5 / 100)])
                (Keithley p) [Lit '':READ?''] = Inl msg
           \<and> x = sk\<lparr>trace := trace sk @ [set_point (Keithley p) (voltage_at p k), Sleep (5 / 100),
                                           read_query (Keithley p)],
                      ticks := Suc (ticks sk)\<rparr>)
    \<longrightarrow> Keithley_VOLTAGE_SWEEP_iv E p s = Raise (VisaIOError msg) x
      \<and> filter (written_to (Keithley p)) (emitted s x)
          = Write (Keithley p) [Lit '':OUTP ON'']
            # map (\<lambda>i. set_point (Keithley p) (voltage_at p i)) [0..<Suc k]
      \<and> (\<forall>fmt h c. Write h c \<in> set (emitted s x) \<longrightarrow> render fmt c \<noteq> '':OUTP OFF'')"
  proof (rule impI; elim conjE)
    assume b: "iv_begin E p s = Ok (n, st) s0" and k: "k < nat n"
      and l: "iv_loop E p st [0..<k] s0 = Ok u sk"
      and d: "write_result E (trace sk) (Keithley p) [Lit '':SOUR:VOLT '', Str (voltage_at p k)] = Some msg
           \<and> x = sk\<lparr>trace := trace sk @ [set_point (Keithley p) (voltage_at p k)]\<rparr>
         \<or> write_result E (trace sk) (Keithley p) [Lit '':SOUR:VOLT '', Str (voltage_at p k)] = None
           \<and> ascii_result E (trace sk @ [set_point (Keithley p) (voltage_at p k), Sleep (5 / 100)])
                (Keithley p) [Lit '':READ?''] = Inl msg
           \<and> x = sk\<lparr>trace := trace sk @ [set_point (Keithley p) (voltage_at p k), Sleep (5 / 100),
                                           read_query (Keithley p)],
                      ticks := Suc (ticks sk)\<rparr>"
    from d have f: "iv_step E p st k sk = Raise (VisaIOError msg) x"
      by (elim disjE conjE) (simp_all add: iv_step_write_fails iv_step_read_fails)
    from iv_failed_run[OF b k l f]
    show "Keithley_VOLTAGE_SWEEP_iv E p s = Raise (VisaIOError msg) x
      \<and> filter (written_to (Keithley p)) (emitted s x)
          = Write (Keithley p) [Lit '':OUTP ON'']
            # map (\<lambda>i. set_point (Keithley p) (voltage_at p i)) [0..<Suc k]
      \<and> (\<forall>fmt h c. Write h c \<in> set (emitted s x) \<longrightarrow> render fmt c \<noteq> '':OUTP OFF'')"
      by (intro conjI)
  qed
next
  let ?W = "write_result E (trace rj) (Volt_Supp_Instr q) [Lit '':SOUR:VOLT '', Str (voltage_at q j)]"
  let ?R1 = "ascii_result E (trace rj @ [set_point (Volt_Supp_Instr q) (voltage_at q j), Sleep (5 / 100)])
                (Volt_Supp_Instr q) [Lit '':READ?'']"
  let ?R2 = "ascii_result E (trace rj @ [set_point (Volt_Supp_Instr q) (voltage_at q j), Sleep (5 / 100),
                                          read_query (Volt_Supp_Instr q)])
                (Curr_Read_Instr q) [Lit '':READ?'']"
  let ?R3 = "ascii_result E (trace rj @ [set_point (Volt_Supp_Instr q) (voltage_at q j), Sleep (5 / 100),
                                          read_query (Volt_Supp_Instr q), read_query (Curr_Read_Instr q)])
                (Curr_Read_Instr q) [Lit '':READ?'']"
  show "pv_begin E q r = Ok (m, t) r0 \<and> j < nat m \<and> pv_loop E q t [0..<j] r0 = Ok u' rj
      \<and> Volt_Supp_Instr q \<noteq> Curr_Read_Instr q
      \<and> (?W = Some msg'
           \<and> y = rj\<lparr>trace := trace rj @ [set_point (Volt_Supp_Instr q) (voltage_at q j)]\<rparr>
         \<or> ?W = None
           \<and> ?R1 = Inl msg'
           \<and> y = rj\<lparr>trace := trace rj @ [set_point (Volt_Supp_Instr q) (voltage_at q j), Sleep (5 / 100),
                                           read_query (Volt_Supp_Instr q)],
                      ticks := Suc (ticks rj)\<rparr>
         \<or> ?W = None
           \<and> (\<exists>a1. ?R1 = Inr a1 \<and> 1 < length a1)
           \<and> ?R2 = Inl msg'
           \<and> y = rj\<lparr>trace := trace rj @ [set_point (Volt_Supp_Instr q) (voltage_at q j), Sleep (5 / 100),
                                           read_query (Volt_Supp_Instr q), read_query (Curr_Read_Instr q)],
                      ticks := Suc (ticks rj)\<rparr>
         \<or> ?W = None
           \<and> (\<exists>a1. ?R1 = Inr a1 \<and> 1 < length a1)
           \<and> (\<exists>a2. ?R2 = Inr a2 \<and> a2 \<noteq> [])
           \<and> ?R3 = Inl msg'
           \<and> y = rj\<lparr>trace := trace rj @ [set_point (Volt_Supp_Instr q) (voltage_at q j), Sleep (5 / 100),
                                           read_query (Volt_Supp_Instr q), read_query (Curr_Read_Instr q),
                                           read_query (Curr_Read_Instr q)],
                      ticks := Suc (ticks rj)\<rparr>)
    \<longrightarrow> Keithley_VOLTAGE_SWEEP_pv E q r = Raise (VisaIOError msg') y
      \<and> filter (written_to (Volt_Supp_Instr q)) (emitted r y)
          = Write (Volt_Supp_Instr q) [Lit '':OUTP ON'']
            # map (\<lambda>i. set_point (Volt_Supp_Instr q) (voltage_at q i)) [0..<Suc j]
      \<and> filter (written_to (Curr_Read_Instr q)) (emitted r y)
          = [Write (Curr_Read_Instr q) [Lit '':OUTP ON''],
             Write (Curr_Read_Instr q) [Lit '':SOUR:VOLT '', Str (read_bias q)],
             Write (Curr_Read_Instr q) [Lit '':SENS:CURR:PROT '', Str (compliance_read q)]]
      \<and> (\<forall>fmt h c. Write h c \<in> set (emitted r y) \<longrightarrow> render fmt c \<noteq> '':OUTP OFF'')"
  proof (rule impI; elim conjE)
    assume b: "pv_begin E q r = Ok (m, t) r0" and k: "j < nat m"
      and l: "pv_loop E q t [0..<j] r0 = Ok u' rj"
      and ne: "Volt_Supp_Instr q \<noteq> Curr_Read_Instr q"
      and d: "?W = Some msg'
           \<and> y = rj\<lparr>trace := trace rj @ [set_point (Volt_Supp_Instr q) (voltage_at q j)]\<rparr>
         \<or> ?W = None
           \<and> ?R1 = Inl msg'
           \<and> y = rj\<lparr>trace := trace rj @ [set_point (Volt_Supp_Instr q) (voltage_at q j), Sleep (5 / 100),
                                           read_query (Volt_Supp_Instr q)],
                      ticks := Suc (ticks rj)\<rparr>
         \<or> ?W = None
           \<and> (\<exists>a1. ?R1 = Inr a1 \<and> 1 < length a1)
           \<and> ?R2 = Inl msg'
           \<and> y = rj\<lparr>trace := trace rj @ [set_point (Volt_Supp_Instr q) (voltage_at q j), Sleep (5 / 100),
                                           read_query (Volt_Supp_Instr q), read_query (Curr_Read_Instr q)],
                      ticks := Suc (ticks rj)\<rparr>
         \<or> ?W = None
           \<and> (\<exists>a1. ?R1 = Inr a1 \<and> 1 < length a1)
           \<and> (\<exists>a2. ?R2 = Inr a2 \<and> a2 \<noteq> [])
           \<and> ?R3 = Inl msg'
           \<and> y = rj\<lparr>trace := trace rj @ [set_point (Volt_Supp_Instr q) (voltage_at q j), Sleep (5 / 100),
                                           read_query (Volt_Supp_Instr q), read_query (Curr_Read_Instr q),
                                           read_query (Curr_Read_Instr q)],
                      ticks := Suc (ticks rj)\<rparr>"
    from d have f: "pv_step E q t j rj = Raise (VisaIOError msg') y"
    proof (elim disjE conjE exE)
      assume "?W = Some msg'" "y = rj\<lparr>trace := trace rj @ [set_point (Volt_Supp_Instr q) (voltage_at q j)]\<rparr>"
      then show ?thesis by (simp add: pv_step_write_fails)
    next
      assume "?W = None" "?R1 = Inl msg'"
        "y = rj\<lparr>trace := trace rj @ [set_point (Volt_Supp_Instr q) (voltage_at q j), Sleep (5 / 100),
                                           read_query (Volt_Supp_Instr q)],
                      ticks := Suc (ticks rj)\<rparr>"
      then show ?thesis by (simp add: pv_step_read_fails)
    next
      fix r1
      assume "?W = None" "?R1 = Inr r1" "1 < length r1" "?R2 = Inl msg'"
        "y = rj\<lparr>trace := trace rj @ [set_point (Volt_Supp_Instr q) (voltage_at q j), Sleep (5 / 100),
                                           read_query (Volt_Supp_Instr q), read_query (Curr_Read_Instr q)],
                      ticks := Suc (ticks rj)\<rparr>"
      then show ?thesis by (simp add: pv_step_read_1_fails)
    next
      fix r1 r2
      assume "?W = None" "?R1 = Inr r1" "1 < length r1" "?R2 = Inr r2" "r2 \<noteq> []" "?R3 = Inl msg'"
        "y = rj\<lparr>trace := trace rj @ [set_point (Volt_Supp_Instr q) (voltage_at q j), Sleep (5 / 100),
                                           read_query (Volt_Supp_Instr q), read_query (Curr_Read_Instr q),
                                           read_query (Curr_Read_Instr q)],
                      ticks := Suc (ticks rj)\<rparr>"
      then show ?thesis by (simp add: pv_step_read_2_fails)
    qed
    from pv_failed_run[OF b k l f ne]
    show "Keithley_VOLTAGE_SWEEP_pv E q r = Raise (VisaIOError msg') y
      \<and> filter (written_to (Volt_Supp_Instr q)) (emitted r y)
          = Write (Volt_Supp_Instr q) [Lit '':OUTP ON'']
            # map (\<lambda>i. set_point (Volt_Supp_Instr q) (voltage_at q i)) [0..<Suc j]
      \<and> filter (written_to (Curr_Read_Instr q)) (emitted r y)
          = [Write (Curr_Read_Instr q) [Lit '':OUTP ON''],
             Write (Curr_Read_Instr q) [Lit '':SOUR:VOLT '', Str (read_bias q)],
             Write (Curr_Read_Instr q) [Lit '':SENS:CURR:PROT '', Str (compliance_read q)]]
      \<and> (\<forall>fmt h c. Write h c \<in> set (emitted r y) \<longrightarrow> render fmt c \<noteq> '':OUTP OFF'')"
      by (intro conjI)
  qed
next
  show "iv_begin E p s = Ok (n, st) s0 \<and> iv_loop E p st (py_range n) s0 = Raise e s1 \<longrightarrow>
      Keithley_VOLTAGE_SWEEP_iv E p s = Raise e s1
    \<and> ((\<exists>msg. e = VisaIOError msg) \<or> e = IndexError)
    \<and> (\<exists>evs. emitted s s1 = Write (Keithley p) [Lit '':OUTP ON''] # evs \<and> evs \<noteq> []
          \<and> is_instr (last evs) \<and> (\<forall>ev\<in>set evs. iv_loop_event (Keithley p) ev))
    \<and> (\<forall>fmt h c. Write h c \<in> set (emitted s s1) \<longrightarrow> render fmt c \<noteq> '':OUTP OFF'')"
  proof (rule impI; elim conjE)
    assume b: "iv_begin E p s = Ok (n, st) s0" and l: "iv_loop E p st (py_range n) s0 = Raise e s1"
    have run: "Keithley_VOLTAGE_SWEEP_iv E p s = Raise e s1"
      by (simp add: Keithley_VOLTAGE_SWEEP_iv_def iv_acquire_def b l)
    from iv_begin_Ok[OF b] have t0: "trace s0 = trace s @ [Write (Keithley p) [Lit '':OUTP ON'']]"
      by simp
    from iv_loop_Raise[OF l] obtain evs where
      evs: "trace s1 = trace s0 @ evs" "evs \<noteq> []" "\<forall>ev\<in>set evs. iv_loop_event (Keithley p) ev"
        "is_instr (last evs)" "(\<exists>msg. e = VisaIOError msg) \<or> e = IndexError"
      by blast
    have em: "emitted s s1 = Write (Keithley p) [Lit '':OUTP ON''] # evs"
      by (rule emitted_append) (simp add: evs(1) t0)
    from no_off_iv[OF evs(3)]
    have "\<forall>fmt h c. Write h c \<in> set (emitted s s1) \<longrightarrow> render fmt c \<noteq> '':OUTP OFF''"
      unfolding em .
    with run evs em show "Keithley_VOLTAGE_SWEEP_iv E p s = Raise e s1
      \<and> ((\<exists>msg. e = VisaIOError msg) \<or> e = IndexError)
      \<and> (\<exists>evs. emitted s s1 = Write (Keithley p) [Lit '':OUTP ON''] # evs \<and> evs \<noteq> []
            \<and> is_instr (last evs) \<and> (\<forall>ev\<in>set evs. iv_loop_event (Keithley p) ev))
      \<and> (\<forall>fmt h c. Write h c \<in> set (emitted s s1) \<longrightarrow> render fmt c \<noteq> '':OUTP OFF'')"
      by blast
  qed
next
  show "pv_begin E q r = Ok (m, t) r0 \<and> pv_loop E q t (py_range m) r0 = Raise e' r1 \<longrightarrow>
      Keithley_VOLTAGE_SWEEP_pv E q r = Raise e' r1
    \<and> ((\<exists>msg. e' = VisaIOError msg) \<or> e' = IndexError)
    \<and> (\<exists>evs. emitted r r1 =
               [Write (Volt_Supp_Instr q) [Lit '':OUTP ON''],
                Write (Curr_Read_Instr q) [Lit '':OUTP ON''],
                Write (Curr_Read_Instr q) [Lit '':SOUR:VOLT '', Str (read_bias q)],
                Write (Curr_Read_Instr q) [Lit '':SENS:CURR:PROT '', Str (compliance_read q)]] @ evs
          \<and> evs \<noteq> [] \<and> is_instr (last evs)
          \<and> (\<forall>ev\<in>set evs. pv_loop_event (Volt_Supp_Instr q) (Curr_Read_Instr q) ev))
    \<and> (\<forall>fmt h c. Write h c \<in> set (emitted r r1) \<longrightarrow> render fmt c \<noteq> '':OUTP OFF'')"
  proof (rule impI; elim conjE)
    assume b: "pv_begin E q r = Ok (m, t) r0" and l: "pv_loop E q t (py_range m) r0 = Raise e' r1"
    have run: "Keithley_VOLTAGE_SWEEP_pv E q r = Raise e' r1"
      by (simp add: Keithley_VOLTAGE_SWEEP_pv_def pv_acquire_def b l)
    let ?pre = "[Write (Volt_Supp_Instr q) [Lit '':OUTP ON''],
                  Write (Curr_Read_Instr q) [Lit '':OUTP ON''],
                  Write (Curr_Read_Instr q) [Lit '':SOUR:VOLT '', Str (read_bias q)],
                  Write (Curr_Read_Instr q) [Lit '':SENS:CURR:PROT '', Str (compliance_read q)]]"
    from pv_begin_Ok[OF b] have t0: "trace r0 = trace r @ ?pre"
      by simp
    from pv_loop_Raise[OF l] obtain evs where
      evs: "trace r1 = trace r0 @ evs" "evs \<noteq> []"
        "\<forall>ev\<in>set evs. pv_loop_event (Volt_Supp_Instr q) (Curr_Read_Instr q) ev"
        "is_instr (last evs)" "(\<exists>msg. e' = VisaIOError msg) \<or> e' = IndexError"
      by blast
    have em: "emitted r r1 = ?pre @ evs"
      by (rule emitted_append) (simp add: evs(1) t0)
    from no_off_pv[OF evs(3)]
    have "\<forall>fmt h c. Write h c \<in> set (emitted r r1) \<longrightarrow> render fmt c \<noteq> '':OUTP OFF''"
      unfolding em .
    with run evs em show "Keithley_VOLTAGE_SWEEP_pv E q r = Raise e' r1
      \<and> ((\<exists>msg. e' = VisaIOError msg) \<or> e' = IndexError)
      \<and> (\<exists>evs. emitted r r1 = ?pre @ evs
            \<and> evs \<noteq> [] \<and> is_instr (last evs)
            \<and> (\<forall>ev\<in>set evs. pv_loop_event (Volt_Supp_Instr q) (Curr_Read_Instr q) ev))
      \<and> (\<forall>fmt h c. Write h c \<in> set (emitted r r1) \<longrightarrow> render fmt c \<noteq> '':OUTP OFF'')"
      by blast
  qed
qed
theorem failure_in_loop_skips_shutdown_witness:
  "(\<exists>s0 sk x. iv_begin (write_fault 5) iv_example idle_iv = Ok (3, 0) s0
       \<and> iv_loop (write_fault 5) iv_example 0 [0..<1] s0 = Ok () sk
       \<and> write_result (write_fault 5) (trace sk) ''GPIB0::12::INSTR'' [Lit '':SOUR:VOLT '', Str (1 / 2)]
           = Some ''VI_ERROR_TMO''
       \<and> Keithley_VOLTAGE_SWEEP_iv (write_fault 5) iv_example idle_iv = Raise (VisaIOError ''VI_ERROR_TMO'') x
       \<and> trace x = trace sk @ [set_point ''GPIB0::12::INSTR'' (1 / 2)]
       \<and> filter (written_to ''GPIB0::12::INSTR'') (emitted idle_iv x) =
           [Write ''GPIB0::12::INSTR'' [Lit '':OUTP ON''],
            set_point ''GPIB0::12::INSTR'' 0, set_point ''GPIB0::12::INSTR'' (1 / 2)])
 \<and> (\<exists>s0 sk x. iv_begin (read_fault 7) iv_example idle_iv = Ok (3, 0) s0
       \<and> iv_loop (read_fault 7) iv_example 0 [0..<1] s0 = Ok () sk
       \<and> ascii_result (read_fault 7) (trace sk @ [set_point ''GPIB0::12::INSTR'' (1 / 2), Sleep (5 / 100)])
            ''GPIB0::12::INSTR'' [Lit '':READ?''] = Inl ''VI_ERROR_TMO''
       \<and> Keithley_VOLTAGE_SWEEP_iv (read_fault 7) iv_example idle_iv = Raise (VisaIOError ''VI_ERROR_TMO'') x
       \<and> trace x = trace sk @ [set_point ''GPIB0::12::INSTR'' (1 / 2), Sleep (5 / 100),
                                read_query ''GPIB0::12::INSTR'']
       \<and> filter (written_to ''GPIB0::12::INSTR'') (emitted idle_iv x) =
           [Write ''GPIB0::12::INSTR'' [Lit '':OUTP ON''],
            set_point ''GPIB0::12::INSTR'' 0, set_point ''GPIB0::12::INSTR'' (1 / 2)])
 \<and> (\<exists>r0 rj y. pv_begin (write_fault 10) pv_example idle_pv = Ok (3, 0) r0
       \<and> pv_loop (write_fault 10) pv_example 0 [0..<1] r0 = Ok () rj
       \<and> Volt_Supp_Instr pv_example \<noteq> Curr_Read_Instr pv_example
       \<and> write_result (write_fault 10) (trace rj) ''GPIB0::16::INSTR'' [Lit '':SOUR:VOLT '', Str (1 / 2)]
           = Some ''VI_ERROR_TMO''
       \<and> Keithley_VOLTAGE_SWEEP_pv (write_fault 10) pv_example idle_pv = Raise (VisaIOError ''VI_ERROR_TMO'') y
       \<and> trace y = trace rj @ [set_point ''GPIB0::16::INSTR'' (1 / 2)]
       \<and> filter (written_to ''GPIB0::16::INSTR'') (emitted idle_pv y) =
           [Write ''GPIB0::16::INSTR'' [Lit '':OUTP ON''],
            set_point ''GPIB0::16::INSTR'' 0, set_point ''GPIB0::16::INSTR'' (1 / 2)]
       \<and> filter (written_to ''GPIB0::14::INSTR'') (emitted idle_pv y) =
           [Write ''GPIB0::14::INSTR'' [Lit '':OUTP ON''],
            Write ''GPIB0::14::INSTR'' [Lit '':SOUR:VOLT '', Str 0],
            Write ''GPIB0::14::INSTR'' [Lit '':SENS:CURR:PROT '', Str (1 / 10)]])
 \<and> (\<exists>r0 rj y. pv_begin (read_fault 14) pv_example idle_pv = Ok (3, 0) r0
       \<and> pv_loop (read_fault 14) pv_example 0 [0..<1] r0 = Ok () rj
       \<and> ascii_result (read_fault 14)
            (trace rj @ [set_point ''GPIB0::16::INSTR'' (1 / 2), Sleep (5 / 100),
                         read_query ''GPIB0::16::INSTR'', read_query ''GPIB0::14::INSTR''])
            ''GPIB0::14::INSTR'' [Lit '':READ?''] = Inl ''VI_ERROR_TMO''
       \<and> Keithley_VOLTAGE_SWEEP_pv (read_fault 14) pv_example idle_pv = Raise (VisaIOError ''VI_ERROR_TMO'') y
       \<and> trace y = trace rj @ [set_point ''GPIB0::16::INSTR'' (1 / 2), Sleep (5 / 100),
                                read_query ''GPIB0::16::INSTR'', read_query ''GPIB0::14::INSTR'',
                                read_query ''GPIB0::14::INSTR'']
       \<and> filter (written_to ''GPIB0::14::INSTR'') (emitted idle_pv y) =
           [Write ''GPIB0::14::INSTR'' [Lit '':OUTP ON''],
            Write ''GPIB0::14::INSTR'' [Lit '':SOUR:VOLT '', Str 0],
            Write ''GPIB0::14::INSTR'' [Lit '':SENS:CURR:PROT '', Str (1 / 10)]])
 \<and> (\<exists>s0 s1. iv_begin (short_answer 3 1) iv_example idle_iv = Ok (3, 0) s0
       \<and> iv_loop (short_answer 3 1) iv_example 0 (py_range 3) s0 = Raise IndexError s1
       \<and> Keithley_VOLTAGE_SWEEP_iv (short_answer 3 1) iv_example idle_iv = Raise IndexError s1)
 \<and> (\<exists>r0 r1. pv_begin (short_answer 7 0) pv_example idle_pv = Ok (3, 0) r0
       \<and> pv_loop (short_answer 7 0) pv_example 0 (py_range 3) r0 = Raise IndexError r1
       \<and> Keithley_VOLTAGE_SWEEP_pv (short_answer 7 0) pv_example idle_pv = Raise IndexError r1)"
proof (intro conjI)
  let ?K = "''GPIB0::12::INSTR''"
  let ?P = "''GPIB0::16::INSTR''"
  let ?S = "''GPIB0::14::INSTR''"
  have v: "voltage_at iv_example 0 = 0" "voltage_at iv_example (Suc 0) = 1 / 2"
    "voltage_at pv_example 0 = 0" "voltage_at pv_example (Suc 0) = 1 / 2"
    by (simp_all add: bench_simps)
  have h: "Keithley iv_example = ?K" "Volt_Supp_Instr pv_example = ?P" "Curr_Read_Instr pv_example = ?S"
    "read_bias pv_example = 0" "compliance_read pv_example = 1 / 10"
    by (simp_all add: iv_example_def pv_example_def)
  have ne: "Volt_Supp_Instr pv_example \<noteq> Curr_Read_Instr pv_example"
    by (simp add: pv_example_def)
  have two: "[0..<Suc (Suc 0)] = [0, Suc 0]" by (simp add: upt_conv_Cons)
  have iv_start: "\<exists>s0. iv_begin E iv_example idle_iv = Ok (3, 0) s0
           \<and> s0 = idle_iv\<lparr>trace := [Write ?K [Lit '':OUTP ON'']], ticks := 1\<rparr>"
    if "write_result E = (\<lambda>tr h c. if length tr = w then Some ''VI_ERROR_TMO'' else None)" "0 < w"
       "clock E = real" for E w
    using that by (simp add: iv_begin_def run_simps)
  have pv_start: "\<exists>r0. pv_begin E pv_example idle_pv = Ok (3, 0) r0
           \<and> r0 = idle_pv\<lparr>trace := [Write ?P [Lit '':OUTP ON''], Write ?S [Lit '':OUTP ON''],
                                      Write ?S [Lit '':SOUR:VOLT '', Str 0],
                                      Write ?S [Lit '':SENS:CURR:PROT '', Str (1 / 10)]], ticks := 1\<rparr>"
    if "write_result E = (\<lambda>tr h c. if length tr = w then Some ''VI_ERROR_TMO'' else None)" "3 < w"
       "clock E = real" for E w
    using that by (simp add: pv_begin_def run_simps)
  show "\<exists>s0 sk x. iv_begin (write_fault 5) iv_example idle_iv = Ok (3, 0) s0
       \<and> iv_loop (write_fault 5) iv_example 0 [0..<1] s0 = Ok () sk
       \<and> write_result (write_fault 5) (trace sk) ?K [Lit '':SOUR:VOLT '', Str (1 / 2)]
           = Some ''VI_ERROR_TMO''
       \<and> Keithley_VOLTAGE_SWEEP_iv (write_fault 5) iv_example idle_iv = Raise (VisaIOError ''VI_ERROR_TMO'') x
       \<and> trace x = trace sk @ [set_point ?K (1 / 2)]
       \<and> filter (written_to ?K) (emitted idle_iv x) =
           [Write ?K [Lit '':OUTP ON''], set_point ?K 0, set_point ?K (1 / 2)]"
  proof -
    from iv_start[of "write_fault 5" 5] obtain s0 where
      b: "iv_begin (write_fault 5) iv_example idle_iv = Ok (3, 0) s0"
      and s0: "s0 = idle_iv\<lparr>trace := [Write ?K [Lit '':OUTP ON'']], ticks := 1\<rparr>"
      by (auto simp: write_fault_def bench_def)
    have "\<exists>sk. iv_loop (write_fault 5) iv_example 0 [0..<1] s0 = Ok () sk \<and> length (trace sk) = 5"
      unfolding s0 by (simp add: write_fault_def iv_step_def run_simps)
    then obtain sk where l: "iv_loop (write_fault 5) iv_example 0 [0..<1] s0 = Ok () sk"
      and len: "length (trace sk) = 5" by blast
    have w: "write_result (write_fault 5) (trace sk) ?K [Lit '':SOUR:VOLT '', Str (1 / 2)] = Some ''VI_ERROR_TMO''"
      by (simp add: write_fault_def len)
    let ?x = "sk\<lparr>trace := trace sk @ [set_point ?K (1 / 2)]\<rparr>"
    from failure_in_loop_skips_shutdown[where E = "write_fault 5" and p = iv_example and s = idle_iv
        and n = 3 and st = 0 and ?s0.0 = s0 and k = 1 and u = "()" and sk = sk
        and msg = "''VI_ERROR_TMO''" and x = ?x] b l w
    have "Keithley_VOLTAGE_SWEEP_iv (write_fault 5) iv_example idle_iv = Raise (VisaIOError ''VI_ERROR_TMO'') ?x
      \<and> filter (written_to ?K) (emitted idle_iv ?x) =
           [Write ?K [Lit '':OUTP ON''], set_point ?K 0, set_point ?K (1 / 2)]"
      by (simp add: v h two)
    with b l w show ?thesis
      by (intro exI[of _ s0] exI[of _ sk] exI[of _ ?x]) simp
  qed
  show "\<exists>s0 sk x. iv_begin (read_fault 7) iv_example idle_iv = Ok (3, 0) s0
       \<and> iv_loop (read_fault 7) iv_example 0 [0..<1] s0 = Ok () sk
       \<and> ascii_result (read_fault 7) (trace sk @ [set_point ?K (1 / 2), Sleep (5 / 100)])
            ?K [Lit '':READ?''] = Inl ''VI_ERROR_TMO''
       \<and> Keithley_VOLTAGE_SWEEP_iv (read_fault 7) iv_example idle_iv = Raise (VisaIOError ''VI_ERROR_TMO'') x
       \<and> trace x = trace sk @ [set_point ?K (1 / 2), Sleep (5 / 100), read_query ?K]
       \<and> filter (written_to ?K) (emitted idle_iv x) =
           [Write ?K [Lit '':OUTP ON''], set_point ?K 0, set_point ?K (1 / 2)]"
  proof -
    have "\<exists>s0. iv_begin (read_fault 7) iv_example idle_iv = Ok (3, 0) s0
           \<and> s0 = idle_iv\<lparr>trace := [Write ?K [Lit '':OUTP ON'']], ticks := 1\<rparr>"
      by (simp add: read_fault_def iv_begin_def run_simps)
    then obtain s0 where
      b: "iv_begin (read_fault 7) iv_example idle_iv = Ok (3, 0) s0"
      and s0: "s0 = idle_iv\<lparr>trace := [Write ?K [Lit '':OUTP ON'']], ticks := 1\<rparr>"
      by blast
    have "\<exists>sk. iv_loop (read_fault 7) iv_example 0 [0..<1] s0 = Ok () sk \<and> length (trace sk) = 5"
      unfolding s0 by (simp add: read_fault_def iv_step_def run_simps)
    then obtain sk where l: "iv_loop (read_fault 7) iv_example 0 [0..<1] s0 = Ok () sk"
      and len: "length (trace sk) = 5" by blast
    have w: "write_result (read_fault 7) (trace sk) ?K [Lit '':SOUR:VOLT '', Str (1 / 2)] = None"
      by (simp add: read_fault_def bench_def)
    have a: "ascii_result (read_fault 7) (trace sk @ [set_point ?K (1 / 2), Sleep (5 / 100)])
            ?K [Lit '':READ?''] = Inl ''VI_ERROR_TMO''"
      by (simp add: read_fault_def len)
    let ?x = "sk\<lparr>trace := trace sk @ [set_point ?K (1 / 2), Sleep (5 / 100), read_query ?K],
                 ticks := Suc (ticks sk)\<rparr>"
    from failure_in_loop_skips_shutdown[where E = "read_fault 7" and p = iv_example and s = idle_iv
        and n = 3 and st = 0 and ?s0.0 = s0 and k = 1 and u = "()" and sk = sk
        and msg = "''VI_ERROR_TMO''" and x = ?x] b l w a
    have "Keithley_VOLTAGE_SWEEP_iv (read_fault 7) iv_example idle_iv = Raise (VisaIOError ''VI_ERROR_TMO'') ?x
      \<and> filter (written_to ?K) (emitted idle_iv ?x) =
           [Write ?K [Lit '':OUTP ON''], set_point ?K 0, set_point ?K (1 / 2)]"
      by (simp add: v h two)
    with b l a show ?thesis
      by (intro exI[of _ s0] exI[of _ sk] exI[of _ ?x]) simp
  qed
  show "\<exists>r0 rj y. pv_begin (write_fault 10) pv_example idle_pv = Ok (3, 0) r0
       \<and> pv_loop (write_fault 10) pv_example 0 [0..<1] r0 = Ok () rj
       \<and> Volt_Supp_Instr pv_example \<noteq> Curr_Read_Instr pv_example
       \<and> write_result (write_fault 10) (trace rj) ?P [Lit '':SOUR:VOLT '', Str (1 / 2)]
           = Some ''VI_ERROR_TMO''
       \<and> Keithley_VOLTAGE_SWEEP_pv (write_fault 10) pv_example idle_pv = Raise (VisaIOError ''VI_ERROR_TMO'') y
       \<and> trace y = trace rj @ [set_point ?P (1 / 2)]
       \<and> filter (written_to ?P) (emitted idle_pv y) =
           [Write ?P [Lit '':OUTP ON''], set_point ?P 0, set_point ?P (1 / 2)]
       \<and> filter (written_to ?S) (emitted idle_pv y) =
           [Write ?S [Lit '':OUTP ON''],
            Write ?S [Lit '':SOUR:VOLT '', Str 0],
            Write ?S [Lit '':SENS:CURR:PROT '', Str (1 / 10)]]"
  proof -
    from pv_start[of "write_fault 10" 10] obtain r0 where
      b: "pv_begin (write_fault 10) pv_example idle_pv = Ok (3, 0) r0"
      and r0: "r0 = idle_pv\<lparr>trace := [Write ?P [Lit '':OUTP ON''], Write ?S [Lit '':OUTP ON''],
                                      Write ?S [Lit '':SOUR:VOLT '', Str 0],
                                      Write ?S [Lit '':SENS:CURR:PROT '', Str (1 / 10)]], ticks := 1\<rparr>"
      by (auto simp: write_fault_def bench_def)
    have "\<exists>rj. pv_loop (write_fault 10) pv_example 0 [0..<1] r0 = Ok () rj \<and> length (trace rj) = 10"
      unfolding r0 by (simp add: write_fault_def pv_step_def run_simps)
    then obtain rj where l: "pv_loop (write_fault 10) pv_example 0 [0..<1] r0 = Ok () rj"
      and len: "length (trace rj) = 10" by blast
    have w: "write_result (write_fault 10) (trace rj) ?P [Lit '':SOUR:VOLT '', Str (1 / 2)] = Some ''VI_ERROR_TMO''"
      by (simp add: write_fault_def len)
    let ?y = "rj\<lparr>trace := trace rj @ [set_point ?P (1 / 2)]\<rparr>"
    from failure_in_loop_skips_shutdown[where E = "write_fault 10" and q = pv_example and r = idle_pv
        and m = 3 and t = 0 and ?r0.0 = r0 and j = 1 and u' = "()" and rj = rj
        and msg' = "''VI_ERROR_TMO''" and y = ?y] b l w ne
    have "Keithley_VOLTAGE_SWEEP_pv (write_fault 10) pv_example idle_pv = Raise (VisaIOError ''VI_ERROR_TMO'') ?y
      \<and> filter (written_to ?P) (emitted idle_pv ?y) =
           [Write ?P [Lit '':OUTP ON''], set_point ?P 0, set_point ?P (1 / 2)]
      \<and> filter (written_to ?S) (emitted idle_pv ?y) =
           [Write ?S [Lit '':OUTP ON''],
            Write ?S [Lit '':SOUR:VOLT '', Str 0],
            Write ?S [Lit '':SENS:CURR:PROT '', Str (1 / 10)]]"
      by (simp add: v h two)
    with b l w ne show ?thesis
      by (intro exI[of _ r0] exI[of _ rj] exI[of _ ?y]) simp
  qed
  show "\<exists>r0 rj y. pv_begin (read_fault 14) pv_example idle_pv = Ok (3, 0) r0
       \<and> pv_loop (read_fault 14) pv_example 0 [0..<1] r0 = Ok () rj
       \<and> ascii_result (read_fault 14)
            (trace rj @ [set_point ?P (1 / 2), Sleep (5 / 100), read_query ?P, read_query ?S])
            ?S [Lit '':READ?''] = Inl ''VI_ERROR_TMO''
       \<and> Keithley_VOLTAGE_SWEEP_pv (read_fault 14) pv_example idle_pv = Raise (VisaIOError ''VI_ERROR_TMO'') y
       \<and> trace y = trace rj @ [set_point ?P (1 / 2), Sleep (5 / 100), read_query ?P, read_query ?S,
                                read_query ?S]
       \<and> filter (written_to ?S) (emitted idle_pv y) =
           [Write ?S [Lit '':OUTP ON''],
            Write ?S [Lit '':SOUR:VOLT '', Str 0],
            Write ?S [Lit '':SENS:CURR:PROT '', Str (1 / 10)]]"
  proof -
    have "\<exists>r0. pv_begin (read_fault 14) pv_example idle_pv = Ok (3, 0) r0
           \<and> r0 = idle_pv\<lparr>trace := [Write ?P [Lit '':OUTP ON''], Write ?S [Lit '':OUTP ON''],
                                      Write ?S [Lit '':SOUR:VOLT '', Str 0],
                                      Write ?S [Lit '':SENS:CURR:PROT '', Str (1 / 10)]], ticks := 1\<rparr>"
      by (simp add: read_fault_def pv_begin_def run_simps)
    then obtain r0 where
      b: "pv_begin (read_fault 14) pv_example idle_pv = Ok (3, 0) r0"
      and r0: "r0 = idle_pv\<lparr>trace := [Write ?P [Lit '':OUTP ON''], Write ?S [Lit '':OUTP ON''],
                                      Write ?S [Lit '':SOUR:VOLT '', Str 0],
                                      Write ?S [Lit '':SENS:CURR:PROT '', Str (1 / 10)]], ticks := 1\<rparr>"
      by blast
    have "\<exists>rj. pv_loop (read_fault 14) pv_example 0 [0..<1] r0 = Ok () rj \<and> length (trace rj) = 10"
      unfolding r0 by (simp add: read_fault_def pv_step_def run_simps)
    then obtain rj where l: "pv_loop (read_fault 14) pv_example 0 [0..<1] r0 = Ok () rj"
      and len: "length (trace rj) = 10" by blast
    have w: "write_result (read_fault 14) (trace rj) ?P [Lit '':SOUR:VOLT '', Str (1 / 2)] = None"
      by (simp add: read_fault_def bench_def)
    have a1: "\<exists>r1. ascii_result (read_fault 14) (trace rj @ [set_point ?P (1 / 2), Sleep (5 / 100)])
            ?P [Lit '':READ?''] = Inr r1 \<and> 1 < length r1"
      by (simp add: read_fault_def len)
    have a2: "\<exists>r2. ascii_result (read_fault 14)
             (trace rj @ [set_point ?P (1 / 2), Sleep (5 / 100), read_query ?P])
            ?S [Lit '':READ?''] = Inr r2 \<and> r2 \<noteq> []"
      by (simp add: read_fault_def len)
    have a3: "ascii_result (read_fault 14)
            (trace rj @ [set_point ?P (1 / 2), Sleep (5 / 100), read_query ?P, read_query ?S])
            ?S [Lit '':READ?''] = Inl ''VI_ERROR_TMO''"
      by (simp add: read_fault_def len)
    let ?y = "rj\<lparr>trace := trace rj @ [set_point ?P (1 / 2), Sleep (5 / 100), read_query ?P,
                                       read_query ?S, read_query ?S],
                 ticks := Suc (ticks rj)\<rparr>"
    from failure_in_loop_skips_shutdown[where E = "read_fault 14" and q = pv_example and r = idle_pv
        and m = 3 and t = 0 and ?r0.0 = r0 and j = 1 and u' = "()" and rj = rj
        and msg' = "''VI_ERROR_TMO''" and y = ?y] b l w a1 a2 a3 ne
    have "Keithley_VOLTAGE_SWEEP_pv (read_fault 14) pv_example idle_pv = Raise (VisaIOError ''VI_ERROR_TMO'') ?y
      \<and> filter (written_to ?S) (emitted idle_pv ?y) =
           [Write ?S [Lit '':OUTP ON''],
            Write ?S [Lit '':SOUR:VOLT '', Str 0],
            Write ?S [Lit '':SENS:CURR:PROT '', Str (1 / 10)]]"
      by (simp add: v h two)
    with b l a3 show ?thesis
      by (intro exI[of _ r0] exI[of _ rj] exI[of _ ?y]) simp
  qed
  show "\<exists>s0 s1. iv_begin (short_answer 3 1) iv_example idle_iv = Ok (3, 0) s0
       \<and> iv_loop (short_answer 3 1) iv_example 0 (py_range 3) s0 = Raise IndexError s1
       \<and> Keithley_VOLTAGE_SWEEP_iv (short_answer 3 1) iv_example idle_iv = Raise IndexError s1"
  proof -
    have "\<exists>s0. iv_begin (short_answer 3 1) iv_example idle_iv = Ok (3, 0) s0
           \<and> s0 = idle_iv\<lparr>trace := [Write ?K [Lit '':OUTP ON'']], ticks := 1\<rparr>"
      by (simp add: short_answer_def iv_begin_def run_simps)
    then obtain s0 where
      b: "iv_begin (short_answer 3 1) iv_example idle_iv = Ok (3, 0) s0"
      and s0: "s0 = idle_iv\<lparr>trace := [Write ?K [Lit '':OUTP ON'']], ticks := 1\<rparr>"
      by blast
    have "\<exists>s1. iv_loop (short_answer 3 1) iv_example 0 (py_range 3) s0 = Raise IndexError s1"
      unfolding s0 by (simp add: short_answer_def iv_step_def run_simps)
    then obtain s1 where l: "iv_loop (short_answer 3 1) iv_example 0 (py_range 3) s0 = Raise IndexError s1" ..
    from failure_in_loop_skips_shutdown[where E = "short_answer 3 1" and p = iv_example and s = idle_iv
        and n = 3 and st = 0 and ?s0.0 = s0 and e = IndexError and ?s1.0 = s1] b l
    have "Keithley_VOLTAGE_SWEEP_iv (short_answer 3 1) iv_example idle_iv = Raise IndexError s1"
      by blast
    with b l show ?thesis by blast
  qed
  show "\<exists>r0 r1. pv_begin (short_answer 7 0) pv_example idle_pv = Ok (3, 0) r0
       \<and> pv_loop (short_answer 7 0) pv_example 0 (py_range 3) r0 = Raise IndexError r1
       \<and> Keithley_VOLTAGE_SWEEP_pv (short_answer 7 0) pv_example idle_pv = Raise IndexError r1"
  proof -
    have "\<exists>r0. pv_begin (short_answer 7 0) pv_example idle_pv = Ok (3, 0) r0
           \<and> r0 = idle_pv\<lparr>trace := [Write ?P [Lit '':OUTP ON''], Write ?S [Lit '':OUTP ON''],
                                      Write ?S [Lit '':SOUR:VOLT '', Str 0],
                                      Write ?S [Lit '':SENS:CURR:PROT '', Str (1 / 10)]], ticks := 1\<rparr>"
      by (simp add: short_answer_def pv_begin_def run_simps)
    then obtain r0 where
      b: "pv_begin (short_answer 7 0) pv_example idle_pv = Ok (3, 0) r0"
      and r0: "r0 = idle_pv\<lparr>trace := [Write ?P [Lit '':OUTP ON''], Write ?S [Lit '':OUTP ON''],
                                      Write ?S [Lit '':SOUR:VOLT '', Str 0],
                                      Write ?S [Lit '':SENS:CURR:PROT '', Str (1 / 10)]], ticks := 1\<rparr>"
      by blast
    have "\<exists>r1. pv_loop (short_answer 7 0) pv_example 0 (py_range 3) r0 = Raise IndexError r1"
      unfolding r0 by (simp add: short_answer_def pv_step_def run_simps)
    then obtain r1 where l: "pv_loop (short_answer 7 0) pv_example 0 (py_range 3) r0 = Raise IndexError r1" ..
    from failure_in_loop_skips_shutdown[where E = "short_answer 7 0" and q = pv_example and r = idle_pv
        and m = 3 and t = 0 and ?r0.0 = r0 and e' = IndexError and ?r1.0 = r1] b l
    have "Keithley_VOLTAGE_SWEEP_pv (short_answer 7 0) pv_example idle_pv = Raise IndexError r1"
      by blast
    with b l show ?thesis by blast
  qed
qed

text \<open>
  C1. As stated the claim fails: a stepping loop that completes does not mean that the
  shutdown runs to its end. The two shutdown writes are instrument operations like any
  other; if the first one, \<^verbatim>\<open>:SOUR:VOLT 0\<close>, fails on the bus, the engine raises there
  and \<^verbatim>\<open>:OUTP OFF\<close> is never issued. On the bench with such a bus the loop of the
  three-point sweep completes, and the last two operations issued to the instrument are
  the last \<^verbatim>\<open>:READ?\<close> of the loop and the failed \<^verbatim>\<open>:SOUR:VOLT 0\<close>.
\<close>

theorem shutdown_write_fails_counterexample:
  "(\<exists>s0. iv_begin shutdown_fault iv_example idle_iv = Ok (3, 0) s0
         \<and> returned (iv_loop shutdown_fault iv_example 0 (py_range 3) s0))
   \<and> (\<exists>x. Keithley_VOLTAGE_SWEEP_iv shutdown_fault iv_example idle_iv
              = Raise (VisaIOError ''VI_ERROR_TMO'') x)
   \<and> filter (issued_to ''GPIB0::12::INSTR'')
        (emitted idle_iv (final (Keithley_VOLTAGE_SWEEP_iv shutdown_fault iv_example idle_iv))) =
       [Write ''GPIB0::12::INSTR'' [Lit '':OUTP ON''],
        Write ''GPIB0::12::INSTR'' [Lit '':SOUR:VOLT '', Str 0],
        Query ''GPIB0::12::INSTR'' [Lit '':READ?''],
        Write ''GPIB0::12::INSTR'' [Lit '':SOUR:VOLT '', Str (1 / 2)],
        Query ''GPIB0::12::INSTR'' [Lit '':READ?''],
        Write ''GPIB0::12::INSTR'' [Lit '':SOUR:VOLT '', Str 1],
        Query ''GPIB0::12::INSTR'' [Lit '':READ?''],
        Write ''GPIB0::12::INSTR'' [Lit '':SOUR:VOLT 0'']]"
  by (simp add: shutdown_fault_def Keithley_VOLTAGE_SWEEP_iv_def iv_acquire_def iv_begin_def
      iv_shutdown_def iv_step_def emitted_def run_simps)

text \<open>
  C1, amended. In a sweep whose instrument phase completes (the stepping loop and the
  shutdown writes all return normally), the last two operations issued to each driven
  instrument are the write of \<^verbatim>\<open>:SOUR:VOLT 0\<close> followed by the write of
  \<^verbatim>\<open>:OUTP OFF\<close>, and they close the list of all instrument operations of the engine:
  whatever happens afterwards (prompt, file, plot), no instrument is touched again. In
  the dual-instrument engine (two distinct instruments) the four writes are interleaved:
  both voltages to zero, then both outputs off.
\<close>

theorem shutdown_is_last:
  "(iv_acquire E p s = Ok n s1 \<longrightarrow>
      (\<exists>pre. filter (issued_to (Keithley p)) (emitted s (final (Keithley_VOLTAGE_SWEEP_iv E p s)))
           = pre @ [Write (Keithley p) [Lit '':SOUR:VOLT 0''], Write (Keithley p) [Lit '':OUTP OFF'']])
    \<and> (\<exists>pre. filter is_instr (emitted s (final (Keithley_VOLTAGE_SWEEP_iv E p s)))
           = pre @ [Write (Keithley p) [Lit '':SOUR:VOLT 0''], Write (Keithley p) [Lit '':OUTP OFF'']]))
 \<and> (Volt_Supp_Instr q \<noteq> Curr_Read_Instr q \<and> pv_acquire E q r = Ok m r1 \<longrightarrow>
      (\<exists>pre. filter (issued_to (Volt_Supp_Instr q)) (emitted r (final (Keithley_VOLTAGE_SWEEP_pv E q r)))
           = pre @ [Write (Volt_Supp_Instr q) [Lit '':SOUR:VOLT 0''],
                    Write (Volt_Supp_Instr q) [Lit '':OUTP OFF'']])
    \<and> (\<exists>pre. filter (issued_to (Curr_Read_Instr q)) (emitted r (final (Keithley_VOLTAGE_SWEEP_pv E q r)))
           = pre @ [Write (Curr_Read_Instr q) [Lit '':SOUR:VOLT 0''],
                    Write (Curr_Read_Instr q) [Lit '':OUTP OFF'']])
    \<and> (\<exists>pre. filter is_instr (emitted r (final (Keithley_VOLTAGE_SWEEP_pv E q r)))
           = pre @ [Write (Volt_Supp_Instr q) [Lit '':SOUR:VOLT 0''],
                    Write (Curr_Read_Instr q) [Lit '':SOUR:VOLT 0''],
                    Write (Volt_Supp_Instr q) [Lit '':OUTP OFF''],
                    Write (Curr_Read_Instr q) [Lit '':OUTP OFF'']]))"
proof (rule conjI; rule impI)
  assume run: "iv_acquire E p s = Ok n s1"
  let ?K = "Keithley p"
  let ?end = "final (Keithley_VOLTAGE_SWEEP_iv E p s)"
  from iv_acquire_Ok[OF run] obtain evs where
    tr: "trace s1 = trace s @ [Write ?K [Lit '':OUTP ON'']] @ evs
                          @ [Write ?K [Lit '':SOUR:VOLT 0''], Write ?K [Lit '':OUTP OFF'']]"
    by force
  have "Keithley_VOLTAGE_SWEEP_iv E p s =
      then_do (iv_persist E n s1) (\<lambda>_ s. show_plot (voltage_values s) (map abs (current_values s)) s)"
    by (simp add: Keithley_VOLTAGE_SWEEP_iv_def run)
  with off_bus_iv_tail[of E n s1] obtain post where
    post: "trace ?end = trace s1 @ post" "filter is_instr post = []"
    by (auto simp: off_bus_iff)
  have em: "emitted s ?end = [Write ?K [Lit '':OUTP ON'']] @ evs
                          @ [Write ?K [Lit '':SOUR:VOLT 0''], Write ?K [Lit '':OUTP OFF'']] @ post"
    by (rule emitted_append) (simp add: post(1) tr)
  have "filter (issued_to ?K) (emitted s ?end)
      = filter (issued_to ?K) ([Write ?K [Lit '':OUTP ON'']] @ evs)
        @ [Write ?K [Lit '':SOUR:VOLT 0''], Write ?K [Lit '':OUTP OFF'']]"
    unfolding em using off_bus_issued[OF post(2)] by simp
  moreover have "filter is_instr (emitted s ?end)
      = filter is_instr ([Write ?K [Lit '':OUTP ON'']] @ evs)
        @ [Write ?K [Lit '':SOUR:VOLT 0''], Write ?K [Lit '':OUTP OFF'']]"
    unfolding em using post(2) by simp
  ultimately show "(\<exists>pre. filter (issued_to ?K) (emitted s ?end)
           = pre @ [Write ?K [Lit '':SOUR:VOLT 0''], Write ?K [Lit '':OUTP OFF'']])
    \<and> (\<exists>pre. filter is_instr (emitted s ?end)
           = pre @ [Write ?K [Lit '':SOUR:VOLT 0''], Write ?K [Lit '':OUTP OFF'']])"
    by blast
next
  assume "Volt_Supp_Instr q \<noteq> Curr_Read_Instr q \<and> pv_acquire E q r = Ok m r1"
  then have ne: "Volt_Supp_Instr q \<noteq> Curr_Read_Instr q" and run: "pv_acquire E q r = Ok m r1"
    by simp_all
  let ?P = "Volt_Supp_Instr q"
  let ?S = "Curr_Read_Instr q"
  let ?end = "final (Keithley_VOLTAGE_SWEEP_pv E q r)"
  let ?pre = "[Write ?P [Lit '':OUTP ON''], Write ?S [Lit '':OUTP ON''],
               Write ?S [Lit '':SOUR:VOLT '', Str (read_bias q)],
               Write ?S [Lit '':SENS:CURR:PROT '', Str (compliance_read q)]]"
  let ?off = "[Write ?P [Lit '':SOUR:VOLT 0''], Write ?S [Lit '':SOUR:VOLT 0''],
               Write ?P [Lit '':OUTP OFF''], Write ?S [Lit '':OUTP OFF'']]"
  from pv_acquire_Ok[OF run] obtain evs where
    tr: "trace r1 = trace r @ ?pre @ evs @ ?off"
    by force
  have "Keithley_VOLTAGE_SWEEP_pv E q r =
      then_do (pv_persist E m r1) (\<lambda>_ s. show_plot (voltage_values s) (map abs (current_1_values s)) s)"
    by (simp add: Keithley_VOLTAGE_SWEEP_pv_def run)
  with off_bus_pv_tail[of E m r1] obtain post where
    post: "trace ?end = trace r1 @ post" "filter is_instr post = []"
    by (auto simp: off_bus_iff)
  have em: "emitted r ?end = ?pre @ evs @ ?off @ post"
    by (rule emitted_append) (simp add: post(1) tr)
  have "filter (issued_to ?P) (emitted r ?end)
      = filter (issued_to ?P) (?pre @ evs) @ [Write ?P [Lit '':SOUR:VOLT 0''], Write ?P [Lit '':OUTP OFF'']]"
    unfolding em using off_bus_issued[OF post(2)] ne by simp
  moreover have "filter (issued_to ?S) (emitted r ?end)
      = filter (issued_to ?S) (?pre @ evs) @ [Write ?S [Lit '':SOUR:VOLT 0''], Write ?S [Lit '':OUTP OFF'']]"
    unfolding em using off_bus_issued[OF post(2)] ne by simp
  moreover have "filter is_instr (emitted r ?end) = filter is_instr (?pre @ evs) @ ?off"
    unfolding em using post(2) by simp
  ultimately show "(\<exists>pre. filter (issued_to ?P) (emitted r ?end)
           = pre @ [Write ?P [Lit '':SOUR:VOLT 0''], Write ?P [Lit '':OUTP OFF'']])
    \<and> (\<exists>pre. filter (issued_to ?S) (emitted r ?end)
           = pre @ [Write ?S [Lit '':SOUR:VOLT 0''], Write ?S [Lit '':OUTP OFF'']])
    \<and> (\<exists>pre. filter is_instr (emitted r ?end) = pre @ ?off)"
    by blast
qed

theorem shutdown_is_last_witness:
  "\<exists>s1 r1. iv_acquire bench iv_example idle_iv = Ok 3 s1
     \<and> Volt_Supp_Instr pv_example \<noteq> Curr_Read_Instr pv_example
     \<and> pv_acquire bench pv_example idle_pv = Ok 3 r1
     \<and> (\<exists>pre. filter (issued_to ''GPIB0::12::INSTR'')
                 (emitted idle_iv (final (Keithley_VOLTAGE_SWEEP_iv bench iv_example idle_iv)))
           = pre @ [Write ''GPIB0::12::INSTR'' [Lit '':SOUR:VOLT 0''],
                    Write ''GPIB0::12::INSTR'' [Lit '':OUTP OFF'']])
     \<and> (\<exists>pre. filter (issued_to ''GPIB0::16::INSTR'')
                 (emitted idle_pv (final (Keithley_VOLTAGE_SWEEP_pv bench pv_example idle_pv)))
           = pre @ [Write ''GPIB0::16::INSTR'' [Lit '':SOUR:VOLT 0''],
                    Write ''GPIB0::16::INSTR'' [Lit '':OUTP OFF'']])
     \<and> (\<exists>pre. filter (issued_to ''GPIB0::14::INSTR'')
                 (emitted idle_pv (final (Keithley_VOLTAGE_SWEEP_pv bench pv_example idle_pv)))
           = pre @ [Write ''GPIB0::14::INSTR'' [Lit '':SOUR:VOLT 0''],
                    Write ''GPIB0::14::INSTR'' [Lit '':OUTP OFF'']])"
proof -
  have "\<exists>s'. iv_acquire bench iv_example idle_iv = Ok 3 s'"
    by (simp add: iv_acquire_def iv_begin_def iv_shutdown_def iv_step_def run_simps)
  then obtain s1 where iv: "iv_acquire bench iv_example idle_iv = Ok 3 s1" ..
  have "\<exists>r'. pv_acquire bench pv_example idle_pv = Ok 3 r'"
    by (simp add: pv_acquire_def pv_begin_def pv_shutdown_def pv_step_def run_simps)
  then obtain r1 where pv: "pv_acquire bench pv_example idle_pv = Ok 3 r1" ..
  have ne: "Volt_Supp_Instr pv_example \<noteq> Curr_Read_Instr pv_example"
    by (simp add: pv_example_def)
  from shutdown_is_last[of bench iv_example idle_iv 3 s1 pv_example idle_pv 3 r1] iv pv ne
  show ?thesis
    by (intro exI[of _ s1] exI[of _ r1]) (simp add: iv_example_def pv_example_def)
qed




text \<open>
  C2. The initializer of the dual-instrument script does what the claim says (lemma
  \<open>initialize_Keithley_pv_writes\<close>). The initializer of the single-instrument script
  takes no compliance value and writes the fixed limit \<^verbatim>\<open>:SENS:CURR:PROT 150E-3\<close>; the
  script's \<^verbatim>\<open>compliance_current = 0.10\<close> is handed to the sweep, which does not
  depend on it, and is never sent to the instrument.
\<close>

theorem single_initializer_fixed_compliance:
  "filter (written_to ''GPIB0::12::INSTR'') (trace (final (initialize_Keithley_iv bench idle_iv))) =
     [Write ''GPIB0::12::INSTR'' [Lit ''*rst; status:preset;''],
      Write ''GPIB0::12::INSTR'' [Lit '':SOUR:FUNC VOLT''],
      Write ''GPIB0::12::INSTR'' [Lit '':SOUR:VOLT 0''],
      Write ''GPIB0::12::INSTR'' [Lit '':SENS:CURR:PROT 150E-3''],
      Write ''GPIB0::12::INSTR'' [Lit '':SENS:CURR:RANG:AUTO ON''],
      Write ''GPIB0::12::INSTR'' [Lit ('':SENS:FUNC '' @ [CHR 0x22] @ ''CURR'' @ [CHR 0x22])]]
   \<and> returned (initialize_Keithley_iv bench idle_iv)
   \<and> Keithley_VOLTAGE_SWEEP_iv E (p\<lparr>compliance_current := c\<rparr>) s = Keithley_VOLTAGE_SWEEP_iv E p s
   \<and> iv_script E s =
       then_do (initialize_Keithley_iv E s) (\<lambda>k s.
       then_do (Keithley_VOLTAGE_SWEEP_iv E
                  \<lparr>Vmin = - 2, Vmax = 2, step_size = rnd (1 / 10), compliance_current = c,
                   Keithley = k\<rparr> s) (\<lambda>_ s.
       close k s))"
proof -
  have ind: "Keithley_VOLTAGE_SWEEP_iv E (p\<lparr>compliance_current := c\<rparr>) s = Keithley_VOLTAGE_SWEEP_iv E p s"
    for p s
    by (simp add: Keithley_VOLTAGE_SWEEP_iv_def iv_acquire_def iv_begin_def iv_shutdown_def
        count_points_def float_quotient_def iv_loop_compliance)
  have "Keithley_VOLTAGE_SWEEP_iv E
          \<lparr>Vmin = - 2, Vmax = 2, step_size = rnd (1 / 10), compliance_current = c, Keithley = k\<rparr> s1
      = Keithley_VOLTAGE_SWEEP_iv E
          \<lparr>Vmin = - 2, Vmax = 2, step_size = rnd (1 / 10), compliance_current = rnd (10 / 100), Keithley = k\<rparr> s1"
    for k s1
    using ind[of "\<lparr>Vmin = - 2, Vmax = 2, step_size = rnd (1 / 10), compliance_current = rnd (10 / 100), Keithley = k\<rparr>" s1]
    by simp
  then have "iv_script E s =
       then_do (initialize_Keithley_iv E s) (\<lambda>k s.
       then_do (Keithley_VOLTAGE_SWEEP_iv E
                  \<lparr>Vmin = - 2, Vmax = 2, step_size = rnd (1 / 10), compliance_current = c,
                   Keithley = k\<rparr> s) (\<lambda>_ s.
       close k s))"
    by (simp add: iv_script_def)
  moreover note ind[of p s]
  moreover have "filter (written_to ''GPIB0::12::INSTR'') (trace (final (initialize_Keithley_iv bench idle_iv))) =
     [Write ''GPIB0::12::INSTR'' [Lit ''*rst; status:preset;''],
      Write ''GPIB0::12::INSTR'' [Lit '':SOUR:FUNC VOLT''],
      Write ''GPIB0::12::INSTR'' [Lit '':SOUR:VOLT 0''],
      Write ''GPIB0::12::INSTR'' [Lit '':SENS:CURR:PROT 150E-3''],
      Write ''GPIB0::12::INSTR'' [Lit '':SENS:CURR:RANG:AUTO ON''],
      Write ''GPIB0::12::INSTR'' [Lit ('':SENS:FUNC '' @ [CHR 0x22] @ ''CURR'' @ [CHR 0x22])]]
   \<and> returned (initialize_Keithley_iv bench idle_iv)"
    by (simp add: initialize_Keithley_iv_def open_and_identify_def resource_manager_def
        list_resources_def open_resource_def instr_query_def instr_write_def print_def emit_def
        bench_def idle_iv_def)
  ultimately show ?thesis by simp
qed

end
